theory Spec2Isabelle
  imports Complex_Main "HOL-Library.Log_Nat" "HOL-Library.Char_ord" "HOL-Library.List_Lexorder"
begin

section \<open>Invoice issuance and archival: a shallow embedding of the backend services\<close>

text \<open>
  The development follows the Python services under \<^verbatim>\<open>backend/app/services\<close> and the
  cancellation route of \<^verbatim>\<open>backend/app/api/invoices.py\<close>. Python \<^verbatim>\<open>str\<close> and
  \<^verbatim>\<open>bytes\<close> values are lists of characters, Python integers are \<^typ>\<open>int\<close>, raised
  exceptions are values of a sum type, and the database session, the object store and the
  file system are explicit state.
\<close>

subsection \<open>Strings, exceptions and settings\<close>

type_synonym bytes = string

datatype exn =
    ValueError string
  | ClientError string
  | FileNotFoundError string
  | AttributeError string
  | RuntimeError string
  | OperationalError string
  | IntegrityError string

text \<open>\<^verbatim>\<open>core/config.py\<close>: the settings the services read.\<close>

record settings =
  INVOICE_NUMBER_PREFIX :: string
  INVOICE_NUMBER_START :: int
  TSA_URL :: string
  TSA_HASH_ALGORITHM :: string

definition default_settings :: settings where
  "default_settings =
     \<lparr> INVOICE_NUMBER_PREFIX = ''RE'', INVOICE_NUMBER_START = 10000,
       TSA_URL = ''http://timestamp.digicert.com'', TSA_HASH_ALGORITHM = ''SHA256'' \<rparr>"

subsection \<open>Decimal rendering of integers\<close>

definition digit_char :: "nat \<Rightarrow> char" where
  "digit_char d = ''0123456789'' ! d"

fun digits :: "nat \<Rightarrow> string" where
  "digits n = (if n < 10 then [digit_char n] else digits (n div 10) @ [digit_char (n mod 10)])"

declare digits.simps [simp del]

text \<open>Python \<^verbatim>\<open>str(n)\<close> for an integer.\<close>

definition str_int :: "int \<Rightarrow> string" where
  "str_int n = (if n < 0 then CHR ''-'' # digits (nat (- n)) else digits (nat n))"

text \<open>
  Python \<^verbatim>\<open>f"{n:06d}"\<close>: sign-aware zero padding to a minimum width of six characters;
  longer numbers are not truncated.
\<close>

definition zfill :: "nat \<Rightarrow> string \<Rightarrow> string" where
  "zfill w ds = replicate (w - length ds) CHR ''0'' @ ds"

definition fmt_06d :: "int \<Rightarrow> string" where
  "fmt_06d n = (if n < 0 then CHR ''-'' # zfill 5 (digits (nat (- n))) else zfill 6 (digits (nat n)))"

text \<open>Reading a digit string back, used to state that the rendering loses nothing.\<close>

definition digit_val :: "char \<Rightarrow> nat" where
  "digit_val c = of_char c - 48"

definition decimal_val :: "string \<Rightarrow> nat" where
  "decimal_val s = foldl (\<lambda>acc c. 10 * acc + digit_val c) 0 s"

definition parse_06d :: "string \<Rightarrow> int" where
  "parse_06d s = (case s of [] \<Rightarrow> 0
                  | c # cs \<Rightarrow> if c = CHR ''-'' then - int (decimal_val cs) else int (decimal_val s))"

subsection \<open>Number allocator (\<^verbatim>\<open>InvoiceService._generate_invoice_number\<close>)\<close>

text \<open>
  The table \<^verbatim>\<open>invoice_number_sequence\<close> has a unique \<^verbatim>\<open>prefix\<close> column, so it is a
  map from prefixes to \<^verbatim>\<open>current_number\<close>. \<open>generate_invoice_number\<close> is one call of the
  method run from its read to its commit with no statement of another session in between;
  this is how one issuance uses it (the method body contains no \<^verbatim>\<open>await\<close>).
\<close>

type_synonym sequences = "string \<rightharpoonup> int"

definition sequence_current :: "settings \<Rightarrow> sequences \<Rightarrow> int" where
  "sequence_current cfg seqs =
     (case seqs (INVOICE_NUMBER_PREFIX cfg) of
        None \<Rightarrow> INVOICE_NUMBER_START cfg
      | Some n \<Rightarrow> n)"

definition generate_invoice_number :: "settings \<Rightarrow> sequences \<Rightarrow> string \<times> sequences" where
  "generate_invoice_number cfg seqs =
     (let prefix = INVOICE_NUMBER_PREFIX cfg;
          seqs1 = (case seqs prefix of
                     None \<Rightarrow> seqs(prefix \<mapsto> INVOICE_NUMBER_START cfg)
                   | Some n \<Rightarrow> seqs);
          current_number = the (seqs1 prefix);
          invoice_number = prefix @ fmt_06d current_number
      in (invoice_number, seqs1(prefix \<mapsto> current_number + 1)))"

text \<open>
  Sessions. Every request has a session of its own on the configured database, which is
  SQLite (\<^verbatim>\<open>DATABASE_URL\<close> in \<^verbatim>\<open>core/config.py\<close>). For SQLite the query built with
  \<^verbatim>\<open>with_for_update()\<close> is compiled without a \<^verbatim>\<open>FOR UPDATE\<close> clause, so the read takes no
  lock. A call issues its statements in up to three steps: the \<^verbatim>\<open>SELECT\<close> of \<^verbatim>\<open>first()\<close>;
  the \<^verbatim>\<open>INSERT\<close> that \<^verbatim>\<open>flush()\<close> sends when no row was found; and the \<^verbatim>\<open>UPDATE\<close> and
  \<^verbatim>\<open>COMMIT\<close> of \<^verbatim>\<open>commit()\<close>, which write the number incremented in Python. SQLite admits
  one write transaction at a time: while one session has an uncommitted \<^verbatim>\<open>INSERT\<close>, a
  write of another session fails with \<^verbatim>\<open>database is locked\<close>. \<open>step\<close> is the next step of
  one session; \<open>run\<close> follows a schedule that names the session of each step in turn.
\<close>

datatype call =
    Idle
  | Missing
  | Found int
  | Inserted int
  | Returned string
  | Raised exn

record sqlite =
  committed :: sequences
  writer :: "nat option"

definition step :: "settings \<Rightarrow> nat \<Rightarrow> sqlite \<times> (nat \<Rightarrow> call) \<Rightarrow> sqlite \<times> (nat \<Rightarrow> call)" where
  "step cfg s st =
     (let (db, calls) = st; prefix = INVOICE_NUMBER_PREFIX cfg in
      case calls s of
        Idle \<Rightarrow>
          (case committed db prefix of
             None \<Rightarrow> (db, calls(s := Missing))
           | Some n \<Rightarrow> (db, calls(s := Found n)))
      | Missing \<Rightarrow>
          if writer db \<noteq> None \<and> writer db \<noteq> Some s
          then (db, calls(s := Raised (OperationalError ''database is locked'')))
          else if committed db prefix \<noteq> None
          then (db, calls(s := Raised (IntegrityError
                  ''UNIQUE constraint failed: invoice_number_sequence.prefix'')))
          else (db\<lparr> writer := Some s \<rparr>, calls(s := Inserted (INVOICE_NUMBER_START cfg)))
      | Found n \<Rightarrow>
          if writer db \<noteq> None \<and> writer db \<noteq> Some s
          then (db, calls(s := Raised (OperationalError ''database is locked'')))
          else (db\<lparr> committed := (committed db)(prefix \<mapsto> n + 1) \<rparr>,
                calls(s := Returned (prefix @ fmt_06d n)))
      | Inserted n \<Rightarrow>
          (db\<lparr> committed := (committed db)(prefix \<mapsto> n + 1), writer := None \<rparr>,
           calls(s := Returned (prefix @ fmt_06d n)))
      | Returned number \<Rightarrow> st
      | Raised e \<Rightarrow> st)"

definition run :: "settings \<Rightarrow> nat list \<Rightarrow> sqlite \<times> (nat \<Rightarrow> call) \<Rightarrow> sqlite \<times> (nat \<Rightarrow> call)" where
  "run cfg schedule st = foldl (\<lambda>st s. step cfg s st) st schedule"

subsection \<open>Floating-point amounts\<close>

text \<open>
  Quantities, prices, rates and totals are Python \<^verbatim>\<open>float\<close>s. A finite double is
  modelled by its exact rational value: \<open>fl\<close> rounds a rational to the nearest double
  (53-bit significand, ties to the even significand, gradual underflow below \<open>2^-1022\<close>),
  and every arithmetic operation is the exact operation followed by \<open>fl\<close>, as IEEE 754
  prescribes. Overflow to infinity, NaN and the sign of zero are outside the model.
\<close>

type_synonym float = rat

definition rhe :: "rat \<Rightarrow> int" where
  \<comment> \<open>round to the nearest integer, an exact tie to the even one\<close>
  "rhe x = (let f = \<lfloor>x\<rfloor>; d = x - of_int f in
     if d < 1/2 then f else if 1/2 < d then f + 1 else if even f then f else f + 1)"

definition pow2 :: "int \<Rightarrow> rat" where
  "pow2 e = (if 0 \<le> e then 2 ^ nat e else 1 / 2 ^ nat (- e))"

definition ilog2 :: "rat \<Rightarrow> int" where
  \<comment> \<open>the binary exponent \<open>\<lfloor>log\<^sub>2 x\<rfloor>\<close> of a positive rational\<close>
  "ilog2 x = (let (a, b) = quotient_of x; k = bitlen a - bitlen b
              in if pow2 k \<le> x then k else k - 1)"

definition fl :: "rat \<Rightarrow> float" where
  "fl x = (if x = 0 then 0 else
     let e = max (ilog2 \<bar>x\<bar> - 52) (- 1074) in of_int (rhe (x / pow2 e)) * pow2 e)"

definition fmul :: "float \<Rightarrow> float \<Rightarrow> float" where
  "fmul a b = fl (a * b)"

definition fadd :: "float \<Rightarrow> float \<Rightarrow> float" where
  "fadd a b = fl (a + b)"

definition fdiv :: "float \<Rightarrow> float \<Rightarrow> float" where
  "fdiv a b = fl (a / b)"

text \<open>
  Python \<^verbatim>\<open>round(x, 2)\<close> on a float: the exact binary value is rounded to two decimals,
  an exact tie going to the even last digit, and the decimal result is converted back to
  the nearest double.
\<close>

definition py_round2 :: "float \<Rightarrow> float" where
  "py_round2 x = fl (of_int (rhe (x * 100)) / 100)"

text \<open>
  Python \<^verbatim>\<open>f"{x:.2f}"\<close> and \<^verbatim>\<open>f"{x:.0f}"\<close>: the correctly rounded decimal rendering of the
  exact binary value with two and with no fractional digits.
\<close>

definition fmt_2f :: "float \<Rightarrow> string" where
  "fmt_2f x = (let n = nat (rhe (\<bar>x\<bar> * 100)) in
     (if x < 0 then ''-'' else []) @ digits (n div 100) @ ''.'' @ zfill 2 (digits (n mod 100)))"

definition fmt_0f :: "float \<Rightarrow> string" where
  "fmt_0f x = (if x < 0 then ''-'' else []) @ digits (nat (rhe \<bar>x\<bar>))"

text \<open>
  The rounding the specification names, for comparison with \<open>py_round2\<close>: decimal
  half-up rounding to two fractional digits.
\<close>

definition round_half_up2 :: "rat \<Rightarrow> rat" where
  "round_half_up2 x = of_int \<lfloor>x * 100 + 1/2\<rfloor> / 100"

subsection \<open>Request schemas (\<^verbatim>\<open>schemas/schemas.py\<close>)\<close>

record datetime =
  year :: nat
  month :: nat
  day :: nat
  hour :: nat
  minute :: nat
  second :: nat

record LineItemBase =
  description :: string
  quantity :: float
  unit :: string
  unit_price :: float
  tax_rate :: float

type_synonym LineItemCreate = LineItemBase

record PartyBase =
  name :: string
  street :: string
  zip' :: string
  city :: string
  country :: string
  email :: "string option"
  phone :: "string option"

record Seller = PartyBase +
  seller_tax_id :: string

record Buyer = PartyBase +
  buyer_tax_id :: "string option"

record InvoiceBase =
  issue_date :: datetime
  delivery_date_start :: "datetime option"
  delivery_date_end :: "datetime option"
  currency :: string
  tax_exempt :: bool
  tax_exempt_reason :: "string option"
  notes' :: "string option"
  payment_terms :: "string option"

text \<open>
  The request and the stored row share the base fields and the two party snapshots; the
  flat columns \<^verbatim>\<open>seller_name\<close>, \<^verbatim>\<open>buyer_city\<close>, \<dots> of the row are the fields of the
  nested \<open>seller\<close> and \<open>buyer\<close> records.
\<close>

record InvoiceParties = InvoiceBase +
  seller :: Seller
  buyer :: Buyer

record InvoiceCreate = InvoiceParties +
  line_items :: "LineItemCreate list"

text \<open>The field constraints of \<^verbatim>\<open>LineItemBase\<close> and \<^verbatim>\<open>InvoiceCreate\<close>.\<close>

definition valid_line_item :: "LineItemCreate \<Rightarrow> bool" where
  "valid_line_item item \<longleftrightarrow>
     description item \<noteq> [] \<and> 0 < quantity item \<and> 0 \<le> unit_price item
     \<and> 0 \<le> tax_rate item \<and> tax_rate item \<le> 100"

subsection \<open>Totals (\<^verbatim>\<open>InvoiceService.create_invoice\<close>, step 2)\<close>

record line_item_data = LineItemBase +
  position :: nat
  line_net :: float
  tax_amount :: float
  line_gross :: float

definition compute_line :: "nat \<Rightarrow> LineItemCreate \<Rightarrow> line_item_data" where
  "compute_line idx item =
     (let net = py_round2 (fmul (quantity item) (unit_price item));
          tax = py_round2 (fdiv (fmul net (tax_rate item)) 100);
          gross = py_round2 (fadd net tax)
      in \<lparr> description = description item, quantity = quantity item, unit = unit item,
           unit_price = unit_price item, tax_rate = tax_rate item,
           position = idx, line_net = net, tax_amount = tax, line_gross = gross \<rparr>)"

text \<open>
  The loop over \<^verbatim>\<open>enumerate(invoice_data.line_items, start=1)\<close> with its three
  accumulators: the rows built so far and the two running sums.
\<close>

fun totals_loop ::
  "nat \<Rightarrow> LineItemCreate list \<Rightarrow> line_item_data list \<times> float \<times> float
     \<Rightarrow> line_item_data list \<times> float \<times> float" where
  "totals_loop idx [] acc = acc"
| "totals_loop idx (item # items) (line_items_data, net_total, tax_total) =
     (let row = compute_line idx item
      in totals_loop (Suc idx) items
           (line_items_data @ [row], fadd net_total (line_net row), fadd tax_total (tax_amount row)))"

definition calculate_totals ::
  "LineItemCreate list \<Rightarrow> line_item_data list \<times> float \<times> float \<times> float" where
  "calculate_totals items =
     (let (line_items_data, net_total, tax_total) = totals_loop 1 items ([], 0, 0);
          gross_total = py_round2 (fadd net_total tax_total)
      in (line_items_data, net_total, tax_total, gross_total))"

subsection \<open>External libraries\<close>

text \<open>
  What the services call outside the repository is a parameter of the model: the XML
  serialiser and parser (lxml), the float rendering of the Python runtime, the page
  layout (reportlab), the attachment of a file to a PDF (pikepdf), the timestamping of a
  PDF by the remote authority (pyHanko over HTTP) and the SHA-256 digest (hashlib). A
  call that raises returns \<open>Inl\<close>.
\<close>

datatype xml =
  Element (tag: string) (attrib: "(string \<times> string) list") (text': "string option")
    (children: "xml list")

datatype cell = Str string | Para string

datatype flowable =
    Paragraph string string
  | Spacer nat
  | Table "cell list list"

record libs =
  etree_tostring :: "xml \<Rightarrow> exn + bytes"
  etree_fromstring :: "bytes \<Rightarrow> exn + xml"
  float_str :: "float \<Rightarrow> string"
  reportlab_build :: "flowable list \<Rightarrow> exn + bytes"
  pikepdf_embed :: "bytes \<Rightarrow> bytes \<Rightarrow> string \<Rightarrow> datetime \<Rightarrow> exn + bytes"
  tsa_sign_pdf :: "bytes \<Rightarrow> exn + bytes"
  sha256_hexdigest :: "bytes \<Rightarrow> string"

subsection \<open>Dates and truthiness\<close>

definition strftime_Ymd :: "datetime \<Rightarrow> string" where
  \<comment> \<open>\<^verbatim>\<open>strftime('%Y%m%d')\<close>\<close>
  "strftime_Ymd d = zfill 4 (digits (year d)) @ zfill 2 (digits (month d)) @ zfill 2 (digits (day d))"

definition strftime_dmY :: "datetime \<Rightarrow> string" where
  \<comment> \<open>\<^verbatim>\<open>strftime('%d.%m.%Y')\<close>\<close>
  "strftime_dmY d =
     zfill 2 (digits (day d)) @ ''.'' @ zfill 2 (digits (month d)) @ ''.'' @ zfill 4 (digits (year d))"

definition isoformat :: "datetime \<Rightarrow> string" where
  "isoformat d =
     zfill 4 (digits (year d)) @ ''-'' @ zfill 2 (digits (month d)) @ ''-'' @ zfill 2 (digits (day d))
     @ ''T'' @ zfill 2 (digits (hour d)) @ '':'' @ zfill 2 (digits (minute d)) @ '':''
     @ zfill 2 (digits (second d))"

text \<open>\<^verbatim>\<open>if s:\<close> on an optional string: \<^verbatim>\<open>None\<close> and the empty string are false.\<close>

definition truthy :: "string option \<Rightarrow> bool" where
  "truthy s = (case s of None \<Rightarrow> False | Some v \<Rightarrow> v \<noteq> [])"

subsection \<open>Structured document (\<^verbatim>\<open>ZUGFeRDGenerator\<close>)\<close>

definition ns_rsm :: string where
  "ns_rsm = ''urn:un:unece:uncefact:data:standard:CrossIndustryInvoice:100''"

definition ns_ram :: string where
  "ns_ram = ''urn:un:unece:uncefact:data:standard:ReusableAggregateBusinessInformationEntity:100''"

definition ns_udt :: string where
  "ns_udt = ''urn:un:unece:uncefact:data:standard:UnqualifiedDataType:100''"

text \<open>Qualified tags in lxml's notation \<^verbatim>\<open>{namespace}local\<close>.\<close>

definition RSM :: "string \<Rightarrow> string" where
  "RSM local = ''{'' @ ns_rsm @ ''}'' @ local"

definition RAM :: "string \<Rightarrow> string" where
  "RAM local = ''{'' @ ns_ram @ ''}'' @ local"

definition UDT :: "string \<Rightarrow> string" where
  "UDT local = ''{'' @ ns_udt @ ''}'' @ local"

definition leaf :: "string \<Rightarrow> string \<Rightarrow> xml" where
  "leaf t s = Element t [] (Some s) []"

definition node :: "string \<Rightarrow> xml list \<Rightarrow> xml" where
  "node t cs = Element t [] None cs"

definition date_time_string :: "datetime \<Rightarrow> xml" where
  "date_time_string d = Element (UDT ''DateTimeString'') [(''format'', ''102'')] (Some (strftime_Ymd d)) []"

definition line_item_element :: "libs \<Rightarrow> line_item_data \<Rightarrow> xml" where
  "line_item_element L item =
     node (RAM ''IncludedSupplyChainTradeLineItem'')
       [ node (RAM ''AssociatedDocumentLineDocument'')
           [leaf (RAM ''LineID'') (str_int (int (position item)))],
         node (RAM ''SpecifiedTradeProduct'')
           [leaf (RAM ''Name'') (description item)],
         node (RAM ''SpecifiedLineTradeAgreement'')
           [node (RAM ''NetPriceProductTradePrice'')
              [leaf (RAM ''ChargeAmount'') (fmt_2f (unit_price item))]],
         node (RAM ''SpecifiedLineTradeDelivery'')
           [Element (RAM ''BilledQuantity'') [(''unitCode'', unit item)]
              (Some (float_str L (quantity item))) []],
         node (RAM ''SpecifiedLineTradeSettlement'')
           [ node (RAM ''ApplicableTradeTax'')
               [ leaf (RAM ''TypeCode'') ''VAT'',
                 leaf (RAM ''CategoryCode'') ''S'',
                 leaf (RAM ''RateApplicablePercent'') (fmt_2f (tax_rate item)) ],
             node (RAM ''SpecifiedTradeSettlementLineMonetarySummation'')
               [leaf (RAM ''LineTotalAmount'') (fmt_2f (line_net item))] ] ]"

definition postal_trade_address :: "'a PartyBase_scheme \<Rightarrow> xml" where
  "postal_trade_address party =
     node (RAM ''PostalTradeAddress'')
       [ leaf (RAM ''PostcodeCode'') (zip' party),
         leaf (RAM ''LineOne'') (street party),
         leaf (RAM ''CityName'') (city party),
         leaf (RAM ''CountryID'') (country party) ]"

definition tax_registration :: "string \<Rightarrow> xml" where
  "tax_registration tax_id =
     node (RAM ''SpecifiedTaxRegistration'')
       [Element (RAM ''ID'') [(''schemeID'', ''VA'')] (Some tax_id) []]"

definition seller_trade_party :: "Seller \<Rightarrow> xml" where
  "seller_trade_party s =
     node (RAM ''SellerTradeParty'')
       [ leaf (RAM ''Name'') (name s), postal_trade_address s, tax_registration (seller_tax_id s) ]"

definition buyer_trade_party :: "Buyer \<Rightarrow> xml" where
  "buyer_trade_party b =
     node (RAM ''BuyerTradeParty'')
       ([ leaf (RAM ''Name'') (name b), postal_trade_address b ]
        @ (if truthy (buyer_tax_id b) then [tax_registration (the (buyer_tax_id b))] else []))"

definition monetary_summation :: "float \<Rightarrow> float \<Rightarrow> float \<Rightarrow> string \<Rightarrow> xml" where
  "monetary_summation net tax gross cur =
     node (RAM ''SpecifiedTradeSettlementHeaderMonetarySummation'')
       [ leaf (RAM ''LineTotalAmount'') (fmt_2f net),
         leaf (RAM ''TaxBasisTotalAmount'') (fmt_2f net),
         Element (RAM ''TaxTotalAmount'') [(''currencyID'', cur)] (Some (fmt_2f tax)) [],
         leaf (RAM ''GrandTotalAmount'') (fmt_2f gross),
         leaf (RAM ''DuePayableAmount'') (fmt_2f gross) ]"

definition header_trade_settlement ::
  "line_item_data list \<Rightarrow> float \<Rightarrow> float \<Rightarrow> float \<Rightarrow> string \<Rightarrow> string option \<Rightarrow> xml" where
  "header_trade_settlement items net tax gross cur terms =
     node (RAM ''ApplicableHeaderTradeSettlement'')
       ([ leaf (RAM ''InvoiceCurrencyCode'') cur,
          node (RAM ''ApplicableTradeTax'')
            ([ leaf (RAM ''CalculatedAmount'') (fmt_2f tax),
               leaf (RAM ''TypeCode'') ''VAT'',
               leaf (RAM ''BasisAmount'') (fmt_2f net),
               leaf (RAM ''CategoryCode'') ''S'' ]
             @ (case items of [] \<Rightarrow> []
                | item # _ \<Rightarrow> [leaf (RAM ''RateApplicablePercent'') (fmt_2f (tax_rate item))])) ]
        @ (if truthy terms then
             [node (RAM ''SpecifiedTradePaymentTerms'') [leaf (RAM ''Description'') (the terms)]]
           else [])
        @ [monetary_summation net tax gross cur])"

definition header_trade_delivery :: "datetime option \<Rightarrow> datetime option \<Rightarrow> xml" where
  "header_trade_delivery dstart dend =
     node (RAM ''ApplicableHeaderTradeDelivery'')
       (case (case dend of Some d \<Rightarrow> Some d | None \<Rightarrow> dstart) of
          None \<Rightarrow> []
        | Some delivery_date \<Rightarrow>
            [node (RAM ''ActualDeliverySupplyChainEvent'')
               [node (RAM ''OccurrenceDateTime'') [date_time_string delivery_date]]])"

text \<open>The element tree \<^verbatim>\<open>generate\<close> builds before it serialises it.\<close>

definition zugferd_tree ::
  "libs \<Rightarrow> string \<Rightarrow> datetime \<Rightarrow> Seller \<Rightarrow> Buyer \<Rightarrow> line_item_data list \<Rightarrow> float \<Rightarrow> float
     \<Rightarrow> float \<Rightarrow> string \<Rightarrow> datetime option \<Rightarrow> datetime option \<Rightarrow> string option \<Rightarrow> xml" where
  "zugferd_tree L invoice_number issue sel buy items net tax gross cur dstart dend terms =
     node (RSM ''CrossIndustryInvoice'')
       [ node (RSM ''ExchangedDocumentContext'')
           [node (RAM ''GuidelineSpecifiedDocumentContextParameter'')
              [leaf (RAM ''ID'') ''urn:cen.eu:en16931:2017#compliant#urn:factur-x.eu:1p0:basic'']],
         node (RSM ''ExchangedDocument'')
           [ leaf (RAM ''ID'') invoice_number,
             leaf (RAM ''TypeCode'') ''380'',
             node (RAM ''IssueDateTime'') [date_time_string issue] ],
         node (RSM ''SupplyChainTradeTransaction'')
           (map (line_item_element L) items
            @ [ node (RAM ''ApplicableHeaderTradeAgreement'')
                  [seller_trade_party sel, buyer_trade_party buy],
                header_trade_delivery dstart dend,
                header_trade_settlement items net tax gross cur terms ]) ]"

definition zugferd_generate ::
  "libs \<Rightarrow> string \<Rightarrow> datetime \<Rightarrow> Seller \<Rightarrow> Buyer \<Rightarrow> line_item_data list \<Rightarrow> float \<Rightarrow> float
     \<Rightarrow> float \<Rightarrow> string \<Rightarrow> datetime option \<Rightarrow> datetime option \<Rightarrow> string option \<Rightarrow> exn + bytes" where
  "zugferd_generate L invoice_number issue sel buy items net tax gross cur dstart dend terms =
     etree_tostring L
       (zugferd_tree L invoice_number issue sel buy items net tax gross cur dstart dend terms)"

text \<open>
  \<^verbatim>\<open>root.find('.//ram:X', namespaces)\<close>: the first element below the root, in document
  order, with the qualified tag.
\<close>

fun descendants :: "xml \<Rightarrow> xml list" where
  "descendants (Element t a x cs) = concat (map (\<lambda>c. c # descendants c) cs)"

definition find_path :: "xml \<Rightarrow> string \<Rightarrow> xml option" where
  "find_path doc qtag = find (\<lambda>e. tag e = qtag) (descendants doc)"

definition required_paths :: "string list" where
  "required_paths =
     [RAM ''ID'', RAM ''SellerTradeParty'', RAM ''BuyerTradeParty'', RAM ''GrandTotalAmount'']"

definition zugferd_validate :: "libs \<Rightarrow> bytes \<Rightarrow> bool" where
  "zugferd_validate L xml_bytes =
     (case etree_fromstring L xml_bytes of
        Inl e \<Rightarrow> False
      | Inr doc \<Rightarrow>
          if tag doc \<noteq> RSM ''CrossIndustryInvoice'' then False
          else list_all (\<lambda>path. find_path doc path \<noteq> None) required_paths)"

text \<open>
  What a parser returns for a serialised tree. \<open>reads_back t doc\<close>: the document has the
  elements of \<open>t\<close> in the same order, with the same tags and attributes, and every leaf
  (an element without children) has the text of \<open>t\<close>, an empty text counting as none;
  the text of an element with children is left free, since pretty printing puts line breaks
  and indentation there. \<open>document_id\<close> is the document identity: the text of the
  \<^verbatim>\<open>ID\<close> of the \<^verbatim>\<open>ExchangedDocument\<close> header.
\<close>

fun reads_back :: "xml \<Rightarrow> xml \<Rightarrow> bool" where
  "reads_back (Element tg atts tx cs) doc \<longleftrightarrow>
     tag doc = tg \<and> attrib doc = atts
     \<and> (cs \<noteq> [] \<or> (if truthy tx then text' doc = tx else \<not> truthy (text' doc)))
     \<and> list_all2 reads_back cs (children doc)"


subsection \<open>Visual document (\<^verbatim>\<open>PDFGenerator\<close>)\<close>

text \<open>
  The story handed to reportlab, with the text of every flowable; fonts, colours and
  column widths are left out. A \<open>Paragraph\<close> carries its markup and the name of its
  style, a \<open>Spacer\<close> its height in millimetres.
\<close>

definition buyer_block :: "Buyer \<Rightarrow> string" where
  "buyer_block b =
     name b @ ''<br/>'' @ street b @ ''<br/>'' @ zip' b @ '' '' @ city b @ ''<br/>'' @ country b
     @ (if truthy (buyer_tax_id b) then ''<br/>USt-IdNr: '' @ the (buyer_tax_id b) else [])"

definition seller_block :: "Seller \<Rightarrow> string" where
  "seller_block s =
     ''<b>Rechnungssteller:</b><br/>'' @ name s @ ''<br/>'' @ street s @ ''<br/>'' @ zip' s
     @ '' '' @ city s @ ''<br/>'' @ country s @ ''<br/>USt-IdNr: '' @ seller_tax_id s"

definition details_data :: "string \<Rightarrow> datetime \<Rightarrow> cell list list" where
  "details_data invoice_number issue =
     [ [Str ''Rechnungsnummer'', Str invoice_number],
       [Str ''Rechnungsdatum'', Str (strftime_dmY issue)] ]"

definition line_item_row :: "string \<Rightarrow> line_item_data \<Rightarrow> cell list" where
  "line_item_row cur item =
     [ Str (str_int (int (position item))),
       Str (description item),
       Str (fmt_2f (quantity item)),
       Str (unit item),
       Str (fmt_2f (unit_price item) @ '' '' @ cur),
       Str (fmt_0f (tax_rate item) @ ''%''),
       Str (fmt_2f (line_gross item) @ '' '' @ cur) ]"

definition line_items_table :: "string \<Rightarrow> line_item_data list \<Rightarrow> cell list list" where
  "line_items_table cur items =
     [Str ''Pos.'', Str ''Beschreibung'', Str ''Menge'', Str ''Einheit'', Str ''Preis'',
      Str ''MwSt.'', Str ''Gesamt'']
     # map (line_item_row cur) items"

definition totals_data :: "float \<Rightarrow> float \<Rightarrow> float \<Rightarrow> string \<Rightarrow> cell list list" where
  "totals_data net tax gross cur =
     [ [Str ''Nettobetrag:'', Str (fmt_2f net @ '' '' @ cur)],
       [Str ''MwSt.:'', Str (fmt_2f tax @ '' '' @ cur)],
       [Str [], Str []],
       [Str ''Gesamtbetrag:'', Str (fmt_2f gross @ '' '' @ cur)] ]"

definition footer_text :: string where
  "footer_text =
     [CHR 0x0A] @ ''        <font size=8 color='' @ [CHR 0x22] @ ''#7f8c8d'' @ [CHR 0x22] @ ''>''
     @ [CHR 0x0A] @ ''        Dieses Dokument wurde maschinell erstellt und ist ohne Unterschrift g''
     @ [CHR 0xC3, CHR 0xBC] @ ''ltig.<br/>''
     @ [CHR 0x0A] @ ''        Die Rechnung entspricht den Anforderungen nach '' @ [CHR 0xC2, CHR 0xA7]
     @ ''14 UStG und ist GoBD-konform archiviert.<br/>''
     @ [CHR 0x0A] @ ''        PDF/A-3 mit eingebettetem ZUGFeRD XML (EN-16931 kompatibel).''
     @ [CHR 0x0A] @ ''        </font>'' @ [CHR 0x0A] @ ''        ''"

definition pdf_story ::
  "string \<Rightarrow> datetime \<Rightarrow> Seller \<Rightarrow> Buyer \<Rightarrow> line_item_data list \<Rightarrow> float \<Rightarrow> float \<Rightarrow> float
     \<Rightarrow> string \<Rightarrow> string option \<Rightarrow> string option \<Rightarrow> flowable list" where
  "pdf_story invoice_number issue sel buy items net tax gross cur nts terms =
     [ Paragraph (''Rechnung '' @ invoice_number) ''CustomTitle'',
       Spacer 10,
       Table [[Para (buyer_block buy), Para (seller_block sel)]],
       Spacer 10,
       Table (details_data invoice_number issue),
       Spacer 10,
       Paragraph ''Rechnungspositionen'' ''CustomHeading'',
       Table (line_items_table cur items),
       Spacer 10,
       Table (totals_data net tax gross cur) ]
     @ (if truthy terms then
          [ Spacer 10, Paragraph ''<b>Zahlungsbedingungen:</b>'' ''Normal'',
            Paragraph (the terms) ''Normal'' ]
        else [])
     @ (if truthy nts then
          [ Spacer 10, Paragraph ''<b>Hinweise:</b>'' ''Normal'', Paragraph (the nts) ''Normal'' ]
        else [])
     @ [ Spacer 15, Paragraph footer_text ''Normal'' ]"

definition embed_zugferd_xml :: "libs \<Rightarrow> datetime \<Rightarrow> bytes \<Rightarrow> bytes \<Rightarrow> string \<Rightarrow> exn + bytes" where
  "embed_zugferd_xml L now pdf_bytes xml_bytes invoice_number =
     pikepdf_embed L pdf_bytes xml_bytes ''zugferd-invoice.xml'' now"

definition pdf_generate ::
  "libs \<Rightarrow> datetime \<Rightarrow> string \<Rightarrow> datetime \<Rightarrow> Seller \<Rightarrow> Buyer \<Rightarrow> line_item_data list \<Rightarrow> float
     \<Rightarrow> float \<Rightarrow> float \<Rightarrow> string \<Rightarrow> string option \<Rightarrow> string option \<Rightarrow> bytes \<Rightarrow> exn + bytes" where
  "pdf_generate L now invoice_number issue sel buy items net tax gross cur nts terms zugferd_xml =
     (case reportlab_build L
             (pdf_story invoice_number issue sel buy items net tax gross cur nts terms) of
        Inl e \<Rightarrow> Inl e
      | Inr pdf_bytes \<Rightarrow>
          if zugferd_xml \<noteq> [] then embed_zugferd_xml L now pdf_bytes zugferd_xml invoice_number
          else Inr pdf_bytes)"

subsection \<open>Timestamp service (\<^verbatim>\<open>SignatureService\<close>)\<close>

text \<open>The proof token is a dictionary of strings, in insertion order.\<close>

type_synonym token = "(string \<times> string) list"

definition hash_algorithm :: "settings \<Rightarrow> string" where
  \<comment> \<open>\<^verbatim>\<open>settings.TSA_HASH_ALGORITHM or "SHA256"\<close>\<close>
  "hash_algorithm cfg = (if TSA_HASH_ALGORITHM cfg = [] then ''SHA256'' else TSA_HASH_ALGORITHM cfg)"

text \<open>
  \<^verbatim>\<open>_add_timestamp\<close>: everything inside the \<^verbatim>\<open>try\<close> that talks to pyHanko and the
  authority is the one call \<open>tsa_sign_pdf\<close>; any exception it raises is caught by the
  \<^verbatim>\<open>except Exception\<close> branch.
\<close>

definition add_timestamp :: "libs \<Rightarrow> settings \<Rightarrow> datetime \<Rightarrow> bytes \<Rightarrow> bytes \<times> token" where
  "add_timestamp L cfg now pdf_bytes =
     (case tsa_sign_pdf L pdf_bytes of
        Inr signed_pdf_bytes \<Rightarrow>
          (signed_pdf_bytes,
           [ (''tsa_url'', TSA_URL cfg),
             (''timestamp'', isoformat now),
             (''hash_algorithm'', hash_algorithm cfg),
             (''pdf_hash'', sha256_hexdigest L pdf_bytes),
             (''signed_pdf_hash'', sha256_hexdigest L signed_pdf_bytes) ])
      | Inl e \<Rightarrow>
          (pdf_bytes,
           [ (''tsa_url'', ''mock_tsa''),
             (''timestamp'', isoformat now),
             (''hash_algorithm'', hash_algorithm cfg),
             (''pdf_hash'', sha256_hexdigest L pdf_bytes),
             (''signed_pdf_hash'', sha256_hexdigest L pdf_bytes),
             (''warning'', ''Mock timestamp - not for production use'') ]))"

definition sign_pdf :: "libs \<Rightarrow> settings \<Rightarrow> datetime \<Rightarrow> bytes \<Rightarrow> bytes \<times> token" where
  "sign_pdf L cfg now pdf_bytes = add_timestamp L cfg now pdf_bytes"

subsection \<open>Archival store (\<^verbatim>\<open>StorageService\<close>)\<close>

text \<open>
  The remote object store, as its interface documents it. The bucket is a log of entries,
  newest first. With versioning enabled, a put adds an entry with a fresh version id and a
  delete adds a delete marker; without versioning a put replaces the object and a delete
  removes it. A get returns the newest entry of the key unless that is a delete marker.
  A version listing returns the entries whose key starts with the prefix, ordered by key
  and then newest first, at most 1000 of them.
\<close>

datatype s3_body =
    Version bytes string "(string \<times> string) list"
  | DeleteMarker

record s3_entry =
  entry_key :: string
  version_id :: nat
  body :: s3_body
  last_modified :: datetime

record s3_bucket =
  versioning :: bool
  entries :: "s3_entry list"
  next_version_id :: nat

definition put_object ::
  "s3_bucket \<Rightarrow> datetime \<Rightarrow> string \<Rightarrow> bytes \<Rightarrow> string \<Rightarrow> (string \<times> string) list \<Rightarrow> s3_bucket" where
  "put_object b now k data content_type meta =
     (if versioning b then
        b\<lparr> entries := \<lparr> entry_key = k, version_id = next_version_id b,
                         body = Version data content_type meta, last_modified = now \<rparr> # entries b,
           next_version_id := Suc (next_version_id b) \<rparr>
      else
        b\<lparr> entries := \<lparr> entry_key = k, version_id = 0,
                         body = Version data content_type meta, last_modified = now \<rparr>
                       # filter (\<lambda>e. entry_key e \<noteq> k) (entries b) \<rparr>)"

definition s3_delete_object :: "s3_bucket \<Rightarrow> datetime \<Rightarrow> string \<Rightarrow> s3_bucket" where
  "s3_delete_object b now k =
     (if versioning b then
        b\<lparr> entries := \<lparr> entry_key = k, version_id = next_version_id b,
                         body = DeleteMarker, last_modified = now \<rparr> # entries b,
           next_version_id := Suc (next_version_id b) \<rparr>
      else b\<lparr> entries := filter (\<lambda>e. entry_key e \<noteq> k) (entries b) \<rparr>)"

definition get_object :: "s3_bucket \<Rightarrow> string \<Rightarrow> exn + bytes" where
  "get_object b k =
     (case find (\<lambda>e. entry_key e = k) (entries b) of
        None \<Rightarrow> Inl (ClientError ''NoSuchKey'')
      | Some e \<Rightarrow>
          (case body e of
             Version data content_type meta \<Rightarrow> Inr data
           | DeleteMarker \<Rightarrow> Inl (ClientError ''NoSuchKey'')))"

definition startswith :: "string \<Rightarrow> string \<Rightarrow> bool" where
  "startswith k pre = (take (length pre) k = pre)"

definition list_object_versions :: "s3_bucket \<Rightarrow> string \<Rightarrow> s3_entry list" where
  "list_object_versions b pre =
     take 1000 (sort_key entry_key (filter (\<lambda>e. startswith (entry_key e) pre) (entries b)))"

definition is_version :: "s3_entry \<Rightarrow> bool" where
  "is_version e = (case body e of Version data content_type meta \<Rightarrow> True | DeleteMarker \<Rightarrow> False)"

definition is_latest :: "s3_bucket \<Rightarrow> s3_entry \<Rightarrow> bool" where
  "is_latest b e = (find (\<lambda>e'. entry_key e' = entry_key e) (entries b) = Some e)"

text \<open>
  The service: either the bucket or, when the object store was not reachable at start-up,
  files below \<^verbatim>\<open>./storage\<close>, one file per key.
\<close>

record storage =
  use_local :: bool
  local_files :: "string \<rightharpoonup> bytes"
  bucket :: s3_bucket

definition pdf_key :: "datetime \<Rightarrow> string \<Rightarrow> string" where
  "pdf_key now invoice_number = ''invoices/'' @ str_int (int (year now)) @ ''/'' @ invoice_number @ ''.pdf''"

definition xml_key :: "datetime \<Rightarrow> string \<Rightarrow> string" where
  "xml_key now invoice_number = ''invoices/'' @ str_int (int (year now)) @ ''/'' @ invoice_number @ ''.xml''"

definition store_pdf :: "storage \<Rightarrow> datetime \<Rightarrow> string \<Rightarrow> bytes \<Rightarrow> string \<times> storage" where
  "store_pdf st now invoice_number pdf_bytes =
     (let key = pdf_key now invoice_number in
      if use_local st then (key, st\<lparr> local_files := (local_files st)(key \<mapsto> pdf_bytes) \<rparr>)
      else
        (key, st\<lparr> bucket := put_object (bucket st) now key pdf_bytes ''application/pdf''
                    [ (''invoice_number'', invoice_number),
                      (''created_at'', isoformat now),
                      (''content_type'', ''application/pdf'') ] \<rparr>))"

definition store_xml :: "storage \<Rightarrow> datetime \<Rightarrow> string \<Rightarrow> bytes \<Rightarrow> string \<times> storage" where
  "store_xml st now invoice_number xml_bytes =
     (let key = xml_key now invoice_number in
      if use_local st then (key, st\<lparr> local_files := (local_files st)(key \<mapsto> xml_bytes) \<rparr>)
      else
        (key, st\<lparr> bucket := put_object (bucket st) now key xml_bytes ''text/xml''
                    [ (''invoice_number'', invoice_number),
                      (''created_at'', isoformat now),
                      (''content_type'', ''text/xml'') ] \<rparr>))"

definition get_file :: "storage \<Rightarrow> string \<Rightarrow> exn + bytes" where
  "get_file st key =
     (if use_local st then
        (case local_files st key of
           None \<Rightarrow> Inl (FileNotFoundError (''File not found in storage: '' @ key))
         | Some data \<Rightarrow> Inr data)
      else
        (case get_object (bucket st) key of
           Inr data \<Rightarrow> Inr data
         | Inl e \<Rightarrow>
             if e = ClientError ''NoSuchKey''
             then Inl (FileNotFoundError (''File not found in storage: '' @ key))
             else Inl e))"

record version_info =
  info_version_id :: nat
  info_last_modified :: string
  info_size :: nat
  info_is_latest :: bool

text \<open>
  \<^verbatim>\<open>list_versions\<close> and \<^verbatim>\<open>delete_object\<close> use the S3 client without looking at
  \<^verbatim>\<open>use_local\<close>; with local storage the client is \<^verbatim>\<open>None\<close> and the attribute access
  raises.
\<close>

definition list_versions :: "storage \<Rightarrow> string \<Rightarrow> exn + version_info list" where
  "list_versions st key =
     (if use_local st then Inl (AttributeError ''list_object_versions'')
      else
        Inr (map (\<lambda>e. \<lparr> info_version_id = version_id e,
                        info_last_modified = isoformat (last_modified e),
                        info_size = (case body e of Version data content_type meta \<Rightarrow> length data
                                     | DeleteMarker \<Rightarrow> 0),
                        info_is_latest = is_latest (bucket st) e \<rparr>)
               (filter is_version (list_object_versions (bucket st) key))))"

definition delete_object :: "storage \<Rightarrow> datetime \<Rightarrow> string \<Rightarrow> exn + storage" where
  "delete_object st now key =
     (if use_local st then Inl (AttributeError ''delete_object'')
      else Inr (st\<lparr> bucket := s3_delete_object (bucket st) now key \<rparr>))"

text \<open>
  What can still be read back for a key: every stored version in the bucket, or the
  content of the one local file.
\<close>

definition version_data :: "s3_entry \<Rightarrow> bytes" where
  "version_data e = (case body e of Version data content_type meta \<Rightarrow> data | DeleteMarker \<Rightarrow> [])"

definition retrievable :: "storage \<Rightarrow> string \<Rightarrow> bytes list" where
  "retrievable st key =
     (if use_local st then (case local_files st key of None \<Rightarrow> [] | Some data \<Rightarrow> [data])
      else map version_data
             (filter (\<lambda>e. entry_key e = key \<and> is_version e) (entries (bucket st))))"

subsection \<open>Database rows (\<^verbatim>\<open>models/models.py\<close>)\<close>

record Invoice = InvoiceParties +
  id' :: nat
  invoice_number :: string
  net_total :: float
  tax_total :: float
  gross_total :: float
  zugferd_xml_path :: "string option"
  pdfa3_path :: string
  pdf_hash :: string
  tsa_token :: "token option"
  signature_info :: "token option"
  status :: string
  version :: nat
  is_immutable :: bool
  created_by :: nat
  created_at :: datetime
  updated_at :: datetime

record InvoiceLineItem = line_item_data +
  invoice_id :: nat

datatype json = JStr string | JNum float

record AuditLog =
  user_id :: nat
  entity_type :: string
  entity_id :: nat
  action :: string
  details :: "(string \<times> json) list"
  timestamp :: datetime

text \<open>
  The session's tables. Rows are never deleted, so the next primary key of
  \<^verbatim>\<open>invoices\<close> is the number of rows plus one.
\<close>

record db =
  sequence_rows :: sequences
  invoices :: "Invoice list"
  invoice_line_items :: "InvoiceLineItem list"
  audit_logs :: "AuditLog list"

record world =
  database :: db
  archive :: storage

subsection \<open>Issuance (\<^verbatim>\<open>InvoiceService.create_invoice\<close>)\<close>

text \<open>
  One call, with \<open>now\<close> the clock reading it sees. The allocation commits the sequence
  row before anything else runs; an exception raised by a later step leaves the method
  with that commit and whatever was stored so far, and without any row added.
\<close>

definition issue_xml ::
  "libs \<Rightarrow> string \<Rightarrow> InvoiceCreate \<Rightarrow> line_item_data list \<times> float \<times> float \<times> float
     \<Rightarrow> exn + bytes" where
  \<comment> \<open>step 3: the call of \<^verbatim>\<open>zugferd_gen.generate\<close>, which passes no delivery dates and no
      payment terms\<close>
  "issue_xml L number invoice_data amounts =
     (let (rows, net, tax, gross) = amounts
      in zugferd_generate L number (issue_date invoice_data) (seller invoice_data)
           (buyer invoice_data) rows net tax gross (currency invoice_data) None None None)"

definition issue_pdf ::
  "libs \<Rightarrow> datetime \<Rightarrow> string \<Rightarrow> InvoiceCreate \<Rightarrow> line_item_data list \<times> float \<times> float \<times> float
     \<Rightarrow> bytes \<Rightarrow> exn + bytes" where
  \<comment> \<open>step 4: the call of \<^verbatim>\<open>pdf_gen.generate\<close>\<close>
  "issue_pdf L now number invoice_data amounts zugferd_xml =
     (let (rows, net, tax, gross) = amounts
      in pdf_generate L now number (issue_date invoice_data) (seller invoice_data)
           (buyer invoice_data) rows net tax gross (currency invoice_data)
           (notes' invoice_data) (payment_terms invoice_data) zugferd_xml)"

definition create_invoice ::
  "libs \<Rightarrow> settings \<Rightarrow> datetime \<Rightarrow> InvoiceCreate \<Rightarrow> nat \<Rightarrow> world \<Rightarrow> (exn + Invoice) \<times> world" where
  "create_invoice L cfg now invoice_data user w =
     (let (number, seqs) = generate_invoice_number cfg (sequence_rows (database w));
          w1 = w\<lparr> database := (database w)\<lparr> sequence_rows := seqs \<rparr> \<rparr>;
          amounts = calculate_totals (line_items invoice_data);
          (rows, net, tax, gross) = amounts
      in
      case issue_xml L number invoice_data amounts of
        Inl e \<Rightarrow> (Inl e, w1)
      | Inr zugferd_xml \<Rightarrow>
         (case issue_pdf L now number invoice_data amounts zugferd_xml of
            Inl e \<Rightarrow> (Inl e, w1)
          | Inr pdf_bytes \<Rightarrow>
             (let (signed_pdf_bytes, tsa) = sign_pdf L cfg now pdf_bytes;
                  digest = sha256_hexdigest L signed_pdf_bytes;
                  (pdf_path, st1) = store_pdf (archive w1) now number signed_pdf_bytes;
                  (xml_path, st2) = store_xml st1 now number zugferd_xml;
                  d = database w1;
                  db_invoice =
                    \<lparr> issue_date = issue_date invoice_data,
                      delivery_date_start = delivery_date_start invoice_data,
                      delivery_date_end = delivery_date_end invoice_data,
                      currency = currency invoice_data,
                      tax_exempt = tax_exempt invoice_data,
                      tax_exempt_reason = tax_exempt_reason invoice_data,
                      notes' = notes' invoice_data,
                      payment_terms = payment_terms invoice_data,
                      seller = seller invoice_data,
                      buyer = buyer invoice_data,
                      id' = Suc (length (invoices d)),
                      invoice_number = number,
                      net_total = net,
                      tax_total = tax,
                      gross_total = gross,
                      zugferd_xml_path = Some xml_path,
                      pdfa3_path = pdf_path,
                      pdf_hash = digest,
                      tsa_token = Some tsa,
                      signature_info = None,
                      status = ''issued'',
                      version = 1,
                      is_immutable = True,
                      created_by = user,
                      created_at = now,
                      updated_at = now \<rparr>;
                  item_rows = map (\<lambda>r. line_item_data.extend r
                                 (InvoiceLineItem.fields (id' db_invoice))) rows;
                  audit_log =
                    \<lparr> user_id = user, entity_type = ''invoice'', entity_id = id' db_invoice,
                      action = ''create'',
                      details = [ (''invoice_number'', JStr number),
                                  (''gross_total'', JNum gross),
                                  (''buyer'', JStr (name (buyer invoice_data))) ],
                      timestamp = now \<rparr>
              in (Inr db_invoice,
                  \<lparr> database = d\<lparr> invoices := invoices d @ [db_invoice],
                                   invoice_line_items := invoice_line_items d @ item_rows,
                                   audit_logs := audit_logs d @ [audit_log] \<rparr>,
                    archive = st2 \<rparr>))))"

text \<open>
  The issuance as the specification words it, for comparison with \<open>create_invoice\<close>: the
  companion check runs on the bytes the encoder returned before anything goes downstream,
  and a failing check aborts the issuance, with the number consumed and nothing stored.
  Everything else is \<open>create_invoice\<close>.
\<close>

definition create_invoice_checked ::
  "libs \<Rightarrow> settings \<Rightarrow> datetime \<Rightarrow> InvoiceCreate \<Rightarrow> nat \<Rightarrow> world \<Rightarrow> (exn + Invoice) \<times> world" where
  "create_invoice_checked L cfg now invoice_data user w =
     (let (number, seqs) = generate_invoice_number cfg (sequence_rows (database w));
          w1 = w\<lparr> database := (database w)\<lparr> sequence_rows := seqs \<rparr> \<rparr>
      in
      case issue_xml L number invoice_data (calculate_totals (line_items invoice_data)) of
        Inl e \<Rightarrow> (Inl e, w1)
      | Inr zugferd_xml \<Rightarrow>
          if zugferd_validate L zugferd_xml then create_invoice L cfg now invoice_data user w
          else (Inl (ValueError ''EncodingFailure''), w1))"

text \<open>A run of further issuance calls, each with its own libraries, clock, request and user.\<close>

fun issue_all :: "settings \<Rightarrow> (libs \<times> datetime \<times> InvoiceCreate \<times> nat) list \<Rightarrow> world \<Rightarrow> world" where
  "issue_all cfg [] w = w"
| "issue_all cfg ((L, now, invoice_data, user) # later) w =
     issue_all cfg later (snd (create_invoice L cfg now invoice_data user w))"

subsection \<open>Cancellation (\<^verbatim>\<open>InvoiceService.cancel_invoice\<close> and its route)\<close>

text \<open>
  The service method sets the status and adds the audit row; the commit writes the
  changed row, and with an UPDATE the column default \<^verbatim>\<open>onupdate=datetime.utcnow\<close> of
  \<^verbatim>\<open>updated_at\<close> applies. A row whose status did not change is not written.
\<close>

definition cancel_invoice :: "datetime \<Rightarrow> Invoice \<Rightarrow> string \<Rightarrow> nat \<Rightarrow> db \<Rightarrow> Invoice \<times> db" where
  "cancel_invoice now invoice reason user d =
     (let cancelled =
            (if status invoice = ''cancelled'' then invoice
             else invoice\<lparr> status := ''cancelled'', updated_at := now \<rparr>);
          audit_log =
            \<lparr> user_id = user, entity_type = ''invoice'', entity_id = id' invoice,
              action = ''cancel'',
              details = [ (''invoice_number'', JStr (invoice_number invoice)),
                          (''reason'', JStr reason) ],
              timestamp = now \<rparr>
      in (cancelled,
          d\<lparr> invoices := map (\<lambda>i. if id' i = id' invoice then cancelled else i) (invoices d),
             audit_logs := audit_logs d @ [audit_log] \<rparr>))"

datatype http_error = HTTPException nat string

record cancel_response =
  message :: string
  response_invoice_id :: nat
  response_status :: string
  cancellation_reason :: string

definition cancel_invoice_route ::
  "datetime \<Rightarrow> nat \<Rightarrow> string \<Rightarrow> nat \<Rightarrow> db \<Rightarrow> (http_error + cancel_response) \<times> db" where
  "cancel_invoice_route now inv_id reason current_user d =
     (case find (\<lambda>i. id' i = inv_id) (invoices d) of
        None \<Rightarrow>
          (Inl (HTTPException 404 (''Invoice with ID '' @ str_int (int inv_id) @ '' not found'')), d)
      | Some invoice \<Rightarrow>
          if status invoice = ''cancelled''
          then (Inl (HTTPException 400 ''Invoice is already cancelled''), d)
          else
            (let (cancelled_invoice, d') = cancel_invoice now invoice reason current_user d
             in (Inr \<lparr> message = ''Invoice cancelled successfully'',
                       response_invoice_id = inv_id,
                       response_status = status cancelled_invoice,
                       cancellation_reason = reason \<rparr>,
                 d')))"

text \<open>The audit rows that record a cancellation of the invoice with the given id.\<close>

definition cancel_entries :: "db \<Rightarrow> nat \<Rightarrow> AuditLog list" where
  "cancel_entries d inv_id =
     filter (\<lambda>a. entity_type a = ''invoice'' \<and> entity_id a = inv_id \<and> action a = ''cancel'')
       (audit_logs d)"

subsection \<open>The totals in the two documents\<close>

text \<open>
  The element tree and the story of an issuance: \<open>issue_xml\<close> serialises the first,
  \<open>issue_pdf\<close> lays out the second.
\<close>

definition issue_tree ::
  "libs \<Rightarrow> string \<Rightarrow> InvoiceCreate \<Rightarrow> line_item_data list \<times> float \<times> float \<times> float \<Rightarrow> xml" where
  "issue_tree L number invoice_data amounts =
     (let (rows, net, tax, gross) = amounts
      in zugferd_tree L number (issue_date invoice_data) (seller invoice_data)
           (buyer invoice_data) rows net tax gross (currency invoice_data) None None None)"

definition issue_story ::
  "string \<Rightarrow> InvoiceCreate \<Rightarrow> line_item_data list \<times> float \<times> float \<times> float \<Rightarrow> flowable list" where
  "issue_story number invoice_data amounts =
     (let (rows, net, tax, gross) = amounts
      in pdf_story number (issue_date invoice_data) (seller invoice_data) (buyer invoice_data)
           rows net tax gross (currency invoice_data) (notes' invoice_data)
           (payment_terms invoice_data))"

text \<open>
  A total as each document shows it: the text of the first element with the given
  \<^verbatim>\<open>ram:\<close> name, and the cell next to the given label in the tables of the story. The
  cell holds \<^verbatim>\<open>f"{total:.2f} {currency}"\<close>; \<open>cell_amount\<close> is the amount in it, the text
  before the space.
\<close>

definition xml_total :: "xml \<Rightarrow> string \<Rightarrow> string option" where
  "xml_total doc tname =
     (case find_path doc (RAM tname) of None \<Rightarrow> None | Some e \<Rightarrow> text' e)"

fun table_rows :: "flowable \<Rightarrow> cell list list" where
  "table_rows (Table rows) = rows"
| "table_rows (Paragraph markup style) = []"
| "table_rows (Spacer height) = []"

definition pdf_total :: "flowable list \<Rightarrow> string \<Rightarrow> string option" where
  "pdf_total story label =
     (case find (\<lambda>r. take 1 r = [Str label]) (concat (map table_rows story)) of
        Some [l, Str amount] \<Rightarrow> Some amount
      | _ \<Rightarrow> None)"

definition cell_amount :: "string \<Rightarrow> string" where
  "cell_amount s = takeWhile (\<lambda>c. c \<noteq> CHR '' '') s"

definition grand_total_of :: "InvoiceCreate \<Rightarrow> float" where
  "grand_total_of invoice_data = snd (snd (snd (calculate_totals (line_items invoice_data))))"

definition net_total_of :: "InvoiceCreate \<Rightarrow> float" where
  "net_total_of invoice_data = fst (snd (calculate_totals (line_items invoice_data)))"

definition tax_total_of :: "InvoiceCreate \<Rightarrow> float" where
  "tax_total_of invoice_data = fst (snd (snd (calculate_totals (line_items invoice_data))))"

subsection \<open>A serialiser and a parser\<close>

text \<open>
  Stand-ins for \<^verbatim>\<open>etree.tostring(root, pretty_print=True, xml_declaration=True,
  encoding='UTF-8')\<close> and \<^verbatim>\<open>etree.fromstring\<close>, used to run the model on concrete
  inputs. The serialiser writes the declaration and then every element as markup, the
  children of an element on lines of their own; it escapes the markup characters in text
  and in attribute values, writes an element without text and children as an empty-element
  tag, and writes qualified names in the notation \<^verbatim>\<open>{namespace}local\<close>. A name with a
  character that cannot occur in a name is rejected with \<^verbatim>\<open>ValueError\<close>, as lxml rejects
  it. The parser reads such a document: it skips the declaration, undoes the escaping,
  drops the line breaks between elements, and keeps the text of every element, also the
  line break that pretty printing put before the first child. \<open>pretty\<close> is the tree the
  parser returns for what the serialiser wrote, and \<open>weight\<close> bounds the fuel the parser
  needs by the size of the tree.
\<close>

definition esc_char :: "char \<Rightarrow> string" where
  "esc_char c =
     (if c = CHR ''&'' then ''&amp;''
      else if c = CHR ''<'' then ''&lt;''
      else if c = CHR ''>'' then ''&gt;''
      else if c = CHR 0x22 then ''&quot;''
      else [c])"

definition escape :: "string \<Rightarrow> string" where
  "escape s = concat (map esc_char s)"

fun unescape :: "string \<Rightarrow> string" where
  "unescape [] = []"
| "unescape (c # s) =
     (if c = CHR ''&'' \<and> take 4 s = ''amp;'' then CHR ''&'' # unescape (drop 4 s)
      else if c = CHR ''&'' \<and> take 3 s = ''lt;'' then CHR ''<'' # unescape (drop 3 s)
      else if c = CHR ''&'' \<and> take 3 s = ''gt;'' then CHR ''>'' # unescape (drop 3 s)
      else if c = CHR ''&'' \<and> take 5 s = ''quot;'' then CHR 0x22 # unescape (drop 5 s)
      else c # unescape s)"

definition name_char :: "char \<Rightarrow> bool" where
  "name_char c \<longleftrightarrow> c \<notin> set ('' <>/='' @ [CHR 0x22, CHR 0x0A])"

definition strip_prefix :: "string \<Rightarrow> string \<Rightarrow> string option" where
  "strip_prefix p s = (if take (length p) s = p then Some (drop (length p) s) else None)"

definition render_attr :: "string \<times> string \<Rightarrow> string" where
  "render_attr kv = '' '' @ fst kv @ ''='' @ [CHR 0x22] @ escape (snd kv) @ [CHR 0x22]"

fun render :: "xml \<Rightarrow> string" where
  "render (Element tg atts tx cs) =
     (if cs = [] \<and> \<not> truthy tx then ''<'' @ tg @ concat (map render_attr atts) @ ''/>''
      else ''<'' @ tg @ concat (map render_attr atts) @ ''>''
           @ escape (case tx of None \<Rightarrow> [] | Some s \<Rightarrow> s)
           @ (if cs = [] then [] else CHR 0x0A # concat (map (\<lambda>c. render c @ [CHR 0x0A]) cs))
           @ ''</'' @ tg @ ''>'')"

fun well_named :: "xml \<Rightarrow> bool" where
  "well_named (Element tg atts tx cs) \<longleftrightarrow>
     tg \<noteq> [] \<and> list_all name_char tg
     \<and> list_all (\<lambda>kv. fst kv \<noteq> [] \<and> list_all name_char (fst kv)) atts
     \<and> list_all well_named cs"

fun parse_attrs :: "nat \<Rightarrow> string \<Rightarrow> ((string \<times> string) list \<times> string) option" where
  "parse_attrs 0 s = None"
| "parse_attrs (Suc n) s =
     (case strip_prefix '' '' s of
        None \<Rightarrow> Some ([], s)
      | Some r \<Rightarrow>
          (case strip_prefix (''='' @ [CHR 0x22]) (dropWhile name_char r) of
             None \<Rightarrow> None
           | Some r1 \<Rightarrow>
               (case strip_prefix [CHR 0x22] (dropWhile (\<lambda>c. c \<noteq> CHR 0x22) r1) of
                  None \<Rightarrow> None
                | Some r2 \<Rightarrow>
                    (case parse_attrs n r2 of
                       None \<Rightarrow> None
                     | Some (atts, rest) \<Rightarrow>
                         Some ((takeWhile name_char r,
                                unescape (takeWhile (\<lambda>c. c \<noteq> CHR 0x22) r1)) # atts, rest)))))"

fun parse_element :: "nat \<Rightarrow> string \<Rightarrow> (xml \<times> string) option"
  and parse_children :: "nat \<Rightarrow> string \<Rightarrow> (xml list \<times> string) option" where
  "parse_element 0 s = None"
| "parse_element (Suc n) s =
     (case strip_prefix ''<'' s of
        None \<Rightarrow> None
      | Some r \<Rightarrow>
          let tg = takeWhile name_char r in
          if tg = [] then None
          else
            (case parse_attrs (Suc (length r)) (dropWhile name_char r) of
               None \<Rightarrow> None
             | Some (atts, r1) \<Rightarrow>
                 (case strip_prefix ''/>'' r1 of
                    Some r2 \<Rightarrow> Some (Element tg atts None [], r2)
                  | None \<Rightarrow>
                      (case strip_prefix ''>'' r1 of
                         None \<Rightarrow> None
                       | Some r2 \<Rightarrow>
                           (case parse_children n (dropWhile (\<lambda>c. c \<noteq> CHR ''<'') r2) of
                              None \<Rightarrow> None
                            | Some (cs, r3) \<Rightarrow>
                                (case strip_prefix (''</'' @ tg @ ''>'') r3 of
                                   None \<Rightarrow> None
                                 | Some r4 \<Rightarrow>
                                     let tx = takeWhile (\<lambda>c. c \<noteq> CHR ''<'') r2 in
                                     Some (Element tg atts
                                             (if tx = [] then None else Some (unescape tx)) cs,
                                           r4)))))))"
| "parse_children 0 s = None"
| "parse_children (Suc n) s =
     (if take 2 s = ''</'' then Some ([], s)
      else
        (case parse_element n s of
           None \<Rightarrow> None
         | Some (c, r) \<Rightarrow>
             (case parse_children n (dropWhile (\<lambda>c. c \<noteq> CHR ''<'') r) of
                None \<Rightarrow> None
              | Some (cs, r1) \<Rightarrow> Some (c # cs, r1))))"

definition xml_declaration :: string where
  "xml_declaration =
     ''<?xml version='' @ [CHR 0x27] @ ''1.0'' @ [CHR 0x27] @ '' encoding='' @ [CHR 0x27] @ ''UTF-8''
     @ [CHR 0x27] @ ''?>'' @ [CHR 0x0A]"

definition tostring :: "xml \<Rightarrow> exn + bytes" where
  "tostring doc =
     (if well_named doc then Inr (xml_declaration @ render doc @ [CHR 0x0A])
      else Inl (ValueError ''Invalid tag name''))"

definition fromstring :: "bytes \<Rightarrow> exn + xml" where
  "fromstring b =
     (let s = (case strip_prefix xml_declaration b of None \<Rightarrow> b | Some r \<Rightarrow> r) in
      case parse_element (length s) s of
        None \<Rightarrow> Inl (ValueError ''XMLSyntaxError'')
      | Some (doc, rest) \<Rightarrow>
          if list_all (\<lambda>c. c = CHR 0x0A \<or> c = CHR '' '') rest then Inr doc
          else Inl (ValueError ''XMLSyntaxError''))"

fun pretty :: "xml \<Rightarrow> xml" where
  "pretty (Element tg atts tx cs) =
     Element tg atts
       (if cs = [] then (if truthy tx then tx else None)
        else Some ((case tx of None \<Rightarrow> [] | Some s \<Rightarrow> s) @ [CHR 0x0A]))
       (map pretty cs)"

fun weight :: "xml \<Rightarrow> nat" where
  "weight (Element tg atts tx cs) = Suc (Suc (sum_list (map (\<lambda>c. Suc (weight c)) cs)))"

subsection \<open>Sample data\<close>

text \<open>
  Stand-ins for the external libraries and one request, used to run the model on concrete
  inputs. The request is the line item \<^verbatim>\<open>{quantity=3, unit_price=10.005, tax_rate=19}\<close>;
  a decimal literal of the request is the nearest double.
\<close>

definition sample_libs :: libs where
  "sample_libs =
     \<lparr> etree_tostring = tostring,
       etree_fromstring = fromstring,
       float_str = (\<lambda>x. fmt_0f x @ ''.0''),
       reportlab_build = (\<lambda>story. Inr ''%PDF-1.4''),
       pikepdf_embed = (\<lambda>pdf_bytes xml_bytes filename mod_date. Inr (pdf_bytes @ '' /EF '' @ xml_bytes)),
       tsa_sign_pdf = (\<lambda>pdf_bytes. Inr (pdf_bytes @ '' /DocTimeStamp'')),
       sha256_hexdigest = (\<lambda>data. ''digest of '' @ data) \<rparr>"

definition offline_libs :: libs where
  \<comment> \<open>the timestamp authority cannot be reached\<close>
  "offline_libs = sample_libs\<lparr> tsa_sign_pdf := (\<lambda>pdf_bytes. Inl (RuntimeError ''connection timed out'')) \<rparr>"

definition sample_now :: datetime where
  "sample_now = \<lparr> year = 2024, month = 3, day = 15, hour = 10, minute = 30, second = 0 \<rparr>"

definition later_now :: datetime where
  "later_now = \<lparr> year = 2024, month = 4, day = 2, hour = 9, minute = 0, second = 0 \<rparr>"

definition sample_seller :: Seller where
  "sample_seller =
     \<lparr> name = ''Muster GmbH'', street = ''Musterweg 1'', zip' = ''12345'', city = ''Berlin'',
       country = ''DE'', email = None, phone = None, seller_tax_id = ''DE123456789'' \<rparr>"

definition sample_buyer :: Buyer where
  "sample_buyer =
     \<lparr> name = ''Kunde AG'', street = ''Hauptweg 2'', zip' = ''80331'', city = ''Muenchen'',
       country = ''DE'', email = None, phone = None, buyer_tax_id = None \<rparr>"

definition sample_item :: LineItemCreate where
  "sample_item =
     \<lparr> description = ''Beratung'', quantity = 3, unit = ''H'', unit_price = fl (10005 / 1000),
       tax_rate = 19 \<rparr>"

definition eighth_item :: LineItemCreate where
  \<comment> \<open>one unit at 0.125, a price that is a double exactly\<close>
  "eighth_item =
     \<lparr> description = ''Porto'', quantity = 1, unit = ''C62'', unit_price = 1 / 8, tax_rate = 0 \<rparr>"

definition sample_request :: InvoiceCreate where
  "sample_request =
     \<lparr> issue_date = sample_now, delivery_date_start = None, delivery_date_end = None,
       currency = ''EUR'', tax_exempt = False, tax_exempt_reason = None, notes' = None,
       payment_terms = Some ''Zahlbar innerhalb von 14 Tagen'',
       seller = sample_seller, buyer = sample_buyer, line_items = [sample_item] \<rparr>"

text \<open>The two documents of the sample request under the number \<^verbatim>\<open>RE010000\<close>.\<close>

definition sample_xml :: bytes where
  "sample_xml =
     xml_declaration
     @ render (issue_tree sample_libs ''RE010000'' sample_request
                 (calculate_totals (line_items sample_request)))
     @ [CHR 0x0A]"

definition sample_pdf :: bytes where
  "sample_pdf = ''%PDF-1.4'' @ '' /EF '' @ sample_xml"

definition empty_db :: db where
  "empty_db = \<lparr> sequence_rows = Map.empty, invoices = [], invoice_line_items = [], audit_logs = [] \<rparr>"

definition empty_bucket :: s3_bucket where
  "empty_bucket = \<lparr> versioning = True, entries = [], next_version_id = 1 \<rparr>"

definition remote_storage :: storage where
  "remote_storage = \<lparr> use_local = False, local_files = Map.empty, bucket = empty_bucket \<rparr>"

definition local_storage :: storage where
  "local_storage = \<lparr> use_local = True, local_files = Map.empty, bucket = empty_bucket \<rparr>"

definition sample_world :: world where
  "sample_world = \<lparr> database = empty_db, archive = remote_storage \<rparr>"

definition local_world :: world where
  "local_world = \<lparr> database = empty_db, archive = local_storage \<rparr>"

definition sample_invoice :: Invoice where
  \<comment> \<open>an issued row as the pipeline writes it\<close>
  "sample_invoice =
     \<lparr> issue_date = sample_now, delivery_date_start = None, delivery_date_end = None,
       currency = ''EUR'', tax_exempt = False, tax_exempt_reason = None, notes' = None,
       payment_terms = Some ''Zahlbar innerhalb von 14 Tagen'',
       seller = sample_seller, buyer = sample_buyer,
       id' = 1, invoice_number = ''RE010000'',
       net_total = fl (3002 / 100), tax_total = fl (570 / 100), gross_total = fl (3572 / 100),
       zugferd_xml_path = Some ''invoices/2024/RE010000.xml'',
       pdfa3_path = ''invoices/2024/RE010000.pdf'',
       pdf_hash = ''digest of %PDF-1.4'', tsa_token = None, signature_info = None,
       status = ''issued'', version = 1, is_immutable = True, created_by = 7,
       created_at = sample_now, updated_at = sample_now \<rparr>"

definition issued_db :: db where
  "issued_db = empty_db\<lparr> invoices := [sample_invoice] \<rparr>"

text \<open>The database before the first call, with every session idle.\<close>

definition fresh_database :: "sqlite \<times> (nat \<Rightarrow> call)" where
  "fresh_database = (\<lparr> committed = Map.empty, writer = None \<rparr>, \<lambda>s. Idle)"

section \<open>Properties\<close>

subsection \<open>Decimal rendering\<close>

lemma below_ten_cases:
  "d < 10 \<Longrightarrow> d = 0 \<or> d = 1 \<or> d = 2 \<or> d = 3 \<or> d = 4 \<or> d = 5 \<or> d = 6 \<or> d = 7 \<or> d = 8 \<or> d = (9::nat)"
  by arith

lemma of_char_digit_char: "d < 10 \<Longrightarrow> of_char (digit_char d) = 48 + d"
  using below_ten_cases [of d] by (auto simp: digit_char_def)

lemma digit_val_digit_char: "d < 10 \<Longrightarrow> digit_val (digit_char d) = d"
  by (simp add: digit_val_def of_char_digit_char)

lemma decimal_val_append:
  "decimal_val (xs @ [c]) = 10 * decimal_val xs + digit_val c"
  by (simp add: decimal_val_def)

lemma decimal_val_digits: "decimal_val (digits n) = n"
proof (induction n rule: digits.induct)
  case (1 n)
  show ?case
  proof (cases "n < 10")
    case True
    then show ?thesis
      by (subst digits.simps) (simp add: decimal_val_def digit_val_digit_char)
  next
    case False
    then have "decimal_val (digits (n div 10)) = n div 10"
      using "1.IH" by simp
    with False show ?thesis
      by (subst digits.simps) (simp add: decimal_val_append digit_val_digit_char)
  qed
qed

lemma digits_not_Nil: "digits n \<noteq> []"
  by (subst digits.simps) simp

lemma digit_char_not_minus: "d < 10 \<Longrightarrow> digit_char d \<noteq> CHR ''-''"
proof
  assume d: "d < 10" and "digit_char d = CHR ''-''"
  then have "(of_char (digit_char d) :: nat) = of_char CHR ''-''" by simp
  with d show False
    by (simp add: of_char_digit_char)
qed

lemma hd_digits_not_minus: "hd (digits n) \<noteq> CHR ''-''"
proof (induction n rule: digits.induct)
  case (1 n)
  show ?case
  proof (cases "n < 10")
    case True
    then show ?thesis
      by (subst digits.simps) (simp add: digit_char_not_minus)
  next
    case False
    then have "hd (digits (n div 10)) \<noteq> CHR ''-''"
      using "1.IH" by simp
    with False show ?thesis
      by (subst digits.simps) (simp add: digits_not_Nil)
  qed
qed

lemma digit_val_zero: "digit_val CHR ''0'' = 0"
  by (simp add: digit_val_def)

lemma decimal_val_replicate_zero:
  "foldl (\<lambda>acc c. 10 * acc + digit_val c) 0 (replicate k CHR ''0'') = 0"
  by (induction k) (simp_all add: digit_val_zero)

lemma decimal_val_zfill: "decimal_val (zfill w ds) = decimal_val ds"
  by (simp add: zfill_def decimal_val_def decimal_val_replicate_zero)

lemma hd_zfill_not_minus: "hd ds \<noteq> CHR ''-'' \<Longrightarrow> ds \<noteq> [] \<Longrightarrow> hd (zfill w ds) \<noteq> CHR ''-''"
  by (cases "w - length ds") (simp_all add: zfill_def)

lemma zfill_not_Nil: "ds \<noteq> [] \<Longrightarrow> zfill w ds \<noteq> []"
  by (simp add: zfill_def)

lemma parse_fmt_06d: "parse_06d (fmt_06d n) = n"
proof (cases "n < 0")
  case True
  then show ?thesis
    by (simp add: parse_06d_def fmt_06d_def decimal_val_zfill decimal_val_digits)
next
  case False
  let ?s = "zfill 6 (digits (nat n))"
  have ne: "?s \<noteq> []"
    by (simp add: zfill_not_Nil digits_not_Nil)
  have hd: "hd ?s \<noteq> CHR ''-''"
    by (simp add: hd_zfill_not_minus hd_digits_not_minus digits_not_Nil)
  from ne obtain c cs where s: "?s = c # cs"
    by (cases ?s) auto
  with hd have "c \<noteq> CHR ''-''" by simp
  with s have "parse_06d ?s = int (decimal_val ?s)"
    by (simp add: parse_06d_def)
  with False show ?thesis
    by (simp add: fmt_06d_def decimal_val_zfill decimal_val_digits)
qed

lemma fmt_06d_inj: "fmt_06d a = fmt_06d b \<Longrightarrow> a = b"
  by (metis parse_fmt_06d)

lemma length_digits_le:
  "n < 10 ^ k \<Longrightarrow> 0 < k \<Longrightarrow> length (digits n) \<le> k"
proof (induction n arbitrary: k rule: digits.induct)
  case (1 n)
  show ?case
  proof (cases "n < 10")
    case True
    with "1.prems" show ?thesis
      by (subst digits.simps) simp
  next
    case False
    with "1.prems" have k1: "1 < k"
      by (cases "k = 1") auto
    then obtain j where j: "k = Suc j" "0 < j"
      by (cases k) auto
    with "1.prems" have "n div 10 < 10 ^ j"
      by (simp add: less_mult_imp_div_less mult.commute)
    with False j have "length (digits (n div 10)) \<le> j"
      using "1.IH" by simp
    with False j show ?thesis
      by (subst digits.simps) simp
  qed
qed

lemma length_fmt_06d:
  assumes "0 \<le> n" and "n < 1000000"
  shows "length (fmt_06d n) = 6"
proof -
  from assms have "nat n < 10 ^ 6" by simp
  then have "length (digits (nat n)) \<le> 6"
    by (rule length_digits_le) simp
  with assms show ?thesis
    by (simp add: fmt_06d_def zfill_def)
qed

subsection \<open>Number allocator\<close>

lemma generate_invoice_number_result:
  "generate_invoice_number cfg seqs =
     (INVOICE_NUMBER_PREFIX cfg @ fmt_06d (sequence_current cfg seqs),
      seqs(INVOICE_NUMBER_PREFIX cfg \<mapsto> sequence_current cfg seqs + 1))"
  by (simp add: generate_invoice_number_def sequence_current_def Let_def split: option.splits)

lemma sequence_current_after:
  "sequence_current cfg (seqs(INVOICE_NUMBER_PREFIX cfg \<mapsto> k)) = k"
  by (simp add: sequence_current_def)

lemma fmt_06d_examples:
  "fmt_06d 10000 = ''010000''" "fmt_06d 10001 = ''010001''" "fmt_06d 10002 = ''010002''"
  by (simp_all add: fmt_06d_def zfill_def digits.simps digit_char_def)

lemma uninterrupted_call:
  assumes "writer db = None" and "calls s = Idle"
  shows "run cfg [s, s, s] (db, calls) =
     (db\<lparr> committed := snd (generate_invoice_number cfg (committed db)) \<rparr>,
      calls(s := Returned (fst (generate_invoice_number cfg (committed db)))))"
proof -
  from assms(1) have same: "\<And>r. db\<lparr> committed := r, writer := None \<rparr> = db\<lparr> committed := r \<rparr>"
    by (cases db) simp
  from assms show ?thesis
    by (cases "committed db (INVOICE_NUMBER_PREFIX cfg)")
       (simp_all add: run_def step_def Let_def generate_invoice_number_result sequence_current_def same)
qed

lemma run_append: "run cfg (xs @ ys) st = run cfg ys (run cfg xs st)"
  by (simp add: run_def)

lemma run_Cons: "run cfg (s # ss) st = run cfg ss (step cfg s st)"
  by (simp add: run_def)

lemma run_Nil: "run cfg [] st = st"
  by (simp add: run_def)

lemma racing_sessions:
  assumes "committed db (INVOICE_NUMBER_PREFIX cfg) = Some n" and "writer db = None"
    and "calls a = Idle" and "calls b = Idle" and "a \<noteq> b"
  shows "snd (run cfg [a, b, a, b] (db, calls)) a = Returned (INVOICE_NUMBER_PREFIX cfg @ fmt_06d n)"
    and "snd (run cfg [a, b, a, b] (db, calls)) b = Returned (INVOICE_NUMBER_PREFIX cfg @ fmt_06d n)"
    and "committed (fst (run cfg [a, b, a, b] (db, calls))) (INVOICE_NUMBER_PREFIX cfg) = Some (n + 1)"
  using assms by (simp_all add: run_def step_def Let_def)

text \<open>
  Claim C1. On the configured database the claim fails. From the empty table a first
  call creates the record with the start value and returns \<^verbatim>\<open>RE010000\<close>. Two further
  sessions 1 and 2 then each run their \<^verbatim>\<open>SELECT\<close> before either commits: both read
  10001, both return \<^verbatim>\<open>RE010001\<close>, and the record ends at 10002, so two calls received one
  number and 10002 is the next although only 10000 and 10001 were issued. The same
  happens on a table whose record holds 10000: both sessions return \<^verbatim>\<open>RE010000\<close>. Served
  one after the other, sessions 1 and 2 receive \<^verbatim>\<open>RE010001\<close> and \<^verbatim>\<open>RE010002\<close>.
\<close>

theorem interleaved_sessions_duplicate:
  "snd (run default_settings [0, 0, 0, 1, 2, 1, 2] fresh_database) 0 = Returned ''RE010000''
   \<and> snd (run default_settings [0, 0, 0, 1, 2, 1, 2] fresh_database) 1 = Returned ''RE010001''
   \<and> snd (run default_settings [0, 0, 0, 1, 2, 1, 2] fresh_database) 2 = Returned ''RE010001''
   \<and> committed (fst (run default_settings [0, 0, 0, 1, 2, 1, 2] fresh_database)) ''RE'' = Some 10002
   \<and> snd (run default_settings [1, 2, 1, 2]
        (\<lparr> committed = [''RE'' \<mapsto> 10000], writer = None \<rparr>, \<lambda>s. Idle)) 1 = Returned ''RE010000''
   \<and> snd (run default_settings [1, 2, 1, 2]
        (\<lparr> committed = [''RE'' \<mapsto> 10000], writer = None \<rparr>, \<lambda>s. Idle)) 2 = Returned ''RE010000''
   \<and> snd (run default_settings [0, 0, 0, 1, 1, 2, 2] fresh_database) 1 = Returned ''RE010001''
   \<and> snd (run default_settings [0, 0, 0, 1, 1, 2, 2] fresh_database) 2 = Returned ''RE010002''
   \<and> committed (fst (run default_settings [0, 0, 0, 1, 1, 2, 2] fresh_database)) ''RE'' = Some 10003"
  by (simp add: run_def step_def fresh_database_def default_settings_def fmt_06d_examples)

subsection \<open>The serialiser and the parser\<close>

lemma unescape_escape_append: "unescape (escape s @ [CHR 0x0A]) = s @ [CHR 0x0A]"
  by (induction s) (simp_all add: escape_def esc_char_def)

lemma unescape_escape: "unescape (escape s) = s"
  by (induction s) (simp_all add: escape_def esc_char_def)

lemma escape_no_markup: "CHR ''<'' \<notin> set (escape s)" "CHR 0x22 \<notin> set (escape s)"
  by (induction s) (simp_all add: escape_def esc_char_def)

lemma span_sep:
  "\<forall>x \<in> set xs. P x \<Longrightarrow> \<not> P c \<Longrightarrow>
   takeWhile P (xs @ c # r) = xs \<and> dropWhile P (xs @ c # r) = c # r"
  by (induction xs) simp_all

lemma strip_prefix_append [simp]: "strip_prefix p (p @ s) = Some s"
  by (simp add: strip_prefix_def)

lemma strip_prefix_Cons:
  "strip_prefix (c # p) (d # s) = (if c = d then strip_prefix p s else None)"
  by (simp add: strip_prefix_def)

lemma strip_prefix_Nil [simp]: "strip_prefix [] s = Some s"
  by (simp add: strip_prefix_def)

lemma not_name_char [simp]:
  "\<not> name_char CHR '' ''" "\<not> name_char CHR ''<''" "\<not> name_char CHR ''>''"
  "\<not> name_char CHR ''/''" "\<not> name_char CHR ''=''" "\<not> name_char (CHR 0x22)"
  "\<not> name_char (CHR 0x0A)"
  by (simp_all add: name_char_def)

lemma parse_attrs_render:
  assumes "list_all (\<lambda>kv. fst kv \<noteq> [] \<and> list_all name_char (fst kv)) atts"
    and "length atts < n"
    and "strip_prefix '' '' after = None"
  shows "parse_attrs n (concat (map render_attr atts) @ after) = Some (atts, after)"
  using assms
proof (induction atts arbitrary: n)
  case Nil
  then obtain m where "n = Suc m" by (cases n) simp_all
  with Nil show ?case by simp
next
  case (Cons kv atts)
  then obtain m where n: "n = Suc m" and m: "length atts < m" by (cases n) simp_all
  obtain k v where kv: "kv = (k, v)" by (cases kv)
  from Cons.prems(1) kv have k: "\<forall>x \<in> set k. name_char x"
    by (simp add: list_all_iff)
  from Cons.prems(1) have rest: "list_all (\<lambda>kv. fst kv \<noteq> [] \<and> list_all name_char (fst kv)) atts"
    by simp
  let ?Y = "concat (map render_attr atts) @ after"
  let ?X = "CHR 0x22 # escape v @ CHR 0x22 # ?Y"
  have str: "concat (map render_attr (kv # atts)) @ after = CHR '' '' # (k @ CHR ''='' # ?X)"
    by (simp add: kv render_attr_def)
  have sk: "takeWhile name_char (k @ CHR ''='' # ?X) = k
      \<and> dropWhile name_char (k @ CHR ''='' # ?X) = CHR ''='' # ?X"
    by (rule span_sep [OF k]) simp
  have sv: "takeWhile (\<lambda>c. c \<noteq> CHR 0x22) (escape v @ CHR 0x22 # ?Y) = escape v
      \<and> dropWhile (\<lambda>c. c \<noteq> CHR 0x22) (escape v @ CHR 0x22 # ?Y) = CHR 0x22 # ?Y"
    by (rule span_sep) (use escape_no_markup(2) [of v] in auto)
  have ih: "parse_attrs m ?Y = Some (atts, after)"
    by (rule Cons.IH [OF rest m Cons.prems(3)])
  show ?case
    unfolding str n
    by (simp add: strip_prefix_Cons sk sv ih unescape_escape kv)
qed

lemma render_starts:
  "tg \<noteq> [] \<Longrightarrow> list_all name_char tg \<Longrightarrow>
   \<exists>c r. render (Element tg atts tx cs) = CHR ''<'' # c # r \<and> name_char c"
  by (cases tg) simp_all

lemma well_named_starts:
  assumes "well_named t"
  shows "\<exists>c r. render t = CHR ''<'' # c # r \<and> name_char c"
proof (cases t)
  case (Element tg atts tx cs)
  with assms show ?thesis
    using render_starts [of tg atts tx cs] by simp
qed

lemma length_attrs: "length atts \<le> length (concat (map render_attr atts))"
  by (induction atts) (simp_all add: render_attr_def)

text \<open>The children of an element, each followed by a line break, up to the closing tag.\<close>

lemma parse_children_render:
  assumes "\<And>c m r. c \<in> set cs \<Longrightarrow> weight c \<le> m \<Longrightarrow>
              parse_element m (render c @ r) = Some (pretty c, r)"
    and "list_all well_named cs"
    and "sum_list (map (\<lambda>c. Suc (weight c)) cs) < n"
    and "take 2 cl = ''</''"
  shows "parse_children n (concat (map (\<lambda>c. render c @ [CHR 0x0A]) cs) @ cl) = Some (map pretty cs, cl)"
  using assms(1-3)
proof (induction cs arbitrary: n)
  case Nil
  then obtain m where "n = Suc m" by (cases n) simp_all
  then show ?case using assms(4) by simp
next
  case (Cons c cs)
  from Cons.prems(3) obtain m where n: "n = Suc m" and wc: "weight c \<le> m"
    and ws: "sum_list (map (\<lambda>c. Suc (weight c)) cs) < m"
    by (cases n) simp_all
  from Cons.prems(2) have wn: "well_named c" and wns: "list_all well_named cs"
    by simp_all
  define Z where "Z = concat (map (\<lambda>c. render c @ [CHR 0x0A]) cs) @ cl"
  from well_named_starts [OF wn] obtain x xs where
    st: "render c = CHR ''<'' # x # xs" and x: "name_char x"
    by blast
  from x have nx: "x \<noteq> CHR ''/''"
    by auto
  have el: "parse_element m (render c @ CHR 0x0A # Z) = Some (pretty c, CHR 0x0A # Z)"
    by (rule Cons.prems(1)) (simp_all add: wc)
  have zs: "\<exists>z. Z = CHR ''<'' # z"
  proof (cases cs)
    case Nil
    from assms(4) obtain z where "cl = CHR ''<'' # z"
      by (cases cl) auto
    with Nil show ?thesis by (simp add: Z_def)
  next
    case (Cons c' cs')
    with wns have "well_named c'" by simp
    from well_named_starts [OF this] Cons show ?thesis by (auto simp: Z_def)
  qed
  then have skip: "dropWhile (\<lambda>c. c \<noteq> CHR ''<'') (CHR 0x0A # Z) = Z"
    by auto
  have ih: "parse_children m Z = Some (map pretty cs, cl)"
    unfolding Z_def by (rule Cons.IH [OF _ wns ws]) (rule Cons.prems(1), simp_all)
  have str: "concat (map (\<lambda>c. render c @ [CHR 0x0A]) (c # cs)) @ cl = render c @ CHR 0x0A # Z"
    by (simp add: Z_def)
  have no_close: "take 2 (render c @ CHR 0x0A # Z) \<noteq> ''</''"
    unfolding st using nx by simp
  have "parse_children (Suc m) (render c @ CHR 0x0A # Z) = Some (pretty c # map pretty cs, cl)"
    using no_close by (simp only: parse_children.simps el skip ih if_False option.case prod.case)
  then show ?case
    unfolding str n by simp
qed

lemma parse_element_empty:
  assumes "tg \<noteq> []" and "\<forall>x \<in> set tg. name_char x"
    and "W = c0 # w" and "\<not> name_char c0"
    and "parse_attrs (Suc (length (tg @ W))) W = Some (atts, CHR ''/'' # CHR ''>'' # r)"
  shows "parse_element (Suc n) (CHR ''<'' # tg @ W) = Some (Element tg atts None [], r)"
proof -
  have sp: "takeWhile name_char (tg @ c0 # w) = tg \<and> dropWhile name_char (tg @ c0 # w) = c0 # w"
    by (rule span_sep [OF assms(2) assms(4)])
  show ?thesis
    using assms(1) assms(5) unfolding assms(3)
    by (simp add: strip_prefix_Cons sp Let_def)
qed

lemma parse_element_open:
  assumes "tg \<noteq> []" and "\<forall>x \<in> set tg. name_char x"
    and "W = c0 # w" and "\<not> name_char c0"
    and "parse_attrs (Suc (length (tg @ W))) W = Some (atts, CHR ''>'' # r2)"
    and "takeWhile (\<lambda>c. c \<noteq> CHR ''<'') r2 = T"
    and "dropWhile (\<lambda>c. c \<noteq> CHR ''<'') r2 = KC"
    and "parse_children n KC = Some (cs', C)"
    and "strip_prefix (''</'' @ tg @ ''>'') C = Some r"
  shows "parse_element (Suc n) (CHR ''<'' # tg @ W)
     = Some (Element tg atts (if T = [] then None else Some (unescape T)) cs', r)"
proof -
  have sp: "takeWhile name_char (tg @ c0 # w) = tg \<and> dropWhile name_char (tg @ c0 # w) = c0 # w"
    by (rule span_sep [OF assms(2) assms(4)])
  show ?thesis
    using assms(1) assms(5-9) unfolding assms(3)
    by (simp add: strip_prefix_Cons sp Let_def)
qed

lemma attrs_then:
  "\<exists>c w. concat (map render_attr atts) @ x # y = c # w \<and> (c = CHR '' '' \<or> c = x)"
  by (cases atts) (simp_all add: render_attr_def)

lemma escape_Nil_iff: "escape s = [] \<longleftrightarrow> s = []"
  by (cases s) (simp_all add: escape_def esc_char_def)

lemma parse_element_render:
  "well_named t \<Longrightarrow> weight t \<le> n \<Longrightarrow> parse_element n (render t @ r) = Some (pretty t, r)"
proof (induction t arbitrary: n r)
  case (Element tg atts tx cs)
  from Element.prems(1) have tg: "tg \<noteq> []" and names: "\<forall>x \<in> set tg. name_char x"
    and keys: "list_all (\<lambda>kv. fst kv \<noteq> [] \<and> list_all name_char (fst kv)) atts"
    and wns: "list_all well_named cs"
    by (simp_all add: list_all_iff)
  from Element.prems(2) obtain n' where n: "n = Suc n'"
    and ws: "sum_list (map (\<lambda>c. Suc (weight c)) cs) < n'"
    by (cases n) simp_all
  define A where "A = concat (map render_attr atts)"
  have la: "length atts < Suc (length (tg @ A @ z))" for z
    using length_attrs [of atts] by (simp add: A_def)
  show ?case
  proof (cases "cs = [] \<and> \<not> truthy tx")
    case True
    define W where "W = A @ CHR ''/'' # CHR ''>'' # r"
    have str: "render (Element tg atts tx cs) @ r = CHR ''<'' # tg @ W"
      using True by (simp add: W_def A_def)
    from attrs_then [of atts "CHR ''/''" "CHR ''>'' # r"] obtain c0 w where
      W: "W = c0 # w" and c0: "\<not> name_char c0"
      unfolding W_def A_def by auto
    have pa: "parse_attrs (Suc (length (tg @ W))) W = Some (atts, CHR ''/'' # CHR ''>'' # r)"
      unfolding W_def A_def [symmetric]
      unfolding A_def
      by (rule parse_attrs_render [OF keys])
         (use la [of "CHR ''/'' # CHR ''>'' # r"] in \<open>simp_all add: A_def strip_prefix_Cons\<close>)
    have "parse_element (Suc n') (CHR ''<'' # tg @ W) = Some (Element tg atts None [], r)"
      by (rule parse_element_empty [OF tg names W c0 pa])
    with True show ?thesis
      unfolding str n by simp
  next
    case False
    define T where "T = escape (case tx of None \<Rightarrow> [] | Some s \<Rightarrow> s)"
    define K where "K = concat (map (\<lambda>c. render c @ [CHR 0x0A]) cs)"
    define C where "C = (''</'' @ tg @ ''>'') @ r"
    define T' where "T' = T @ (if cs = [] then [] else [CHR 0x0A])"
    define W where "W = A @ CHR ''>'' # (T' @ K @ C)"
    have str: "render (Element tg atts tx cs) @ r = CHR ''<'' # tg @ W"
      using False by (auto simp: W_def A_def T_def T'_def K_def C_def)
    from attrs_then [of atts "CHR ''>''" "T' @ K @ C"] obtain c0 w where
      W: "W = c0 # w" and c0: "\<not> name_char c0"
      unfolding W_def A_def by auto
    have pa: "parse_attrs (Suc (length (tg @ W))) W = Some (atts, CHR ''>'' # (T' @ K @ C))"
      unfolding W_def A_def
      by (rule parse_attrs_render [OF keys])
         (use la [of "CHR ''>'' # (T' @ K @ C)"] in \<open>simp_all add: A_def strip_prefix_Cons\<close>)
    have c2: "take 2 C = ''</''"
      by (simp add: C_def)
    have kc: "\<exists>z. K @ C = CHR ''<'' # z"
    proof (cases cs)
      case Nil
      then show ?thesis by (simp add: K_def C_def)
    next
      case (Cons c' cs')
      with wns have "well_named c'" by simp
      from well_named_starts [OF this] Cons show ?thesis by (auto simp: K_def)
    qed
    then obtain z where z: "K @ C = CHR ''<'' # z" ..
    have t': "\<forall>x \<in> set T'. x \<noteq> CHR ''<''"
      using escape_no_markup(1) [of "case tx of None \<Rightarrow> [] | Some s \<Rightarrow> s"]
      by (auto simp: T'_def T_def)
    have sp: "takeWhile (\<lambda>c. c \<noteq> CHR ''<'') (T' @ K @ C) = T'
        \<and> dropWhile (\<lambda>c. c \<noteq> CHR ''<'') (T' @ K @ C) = K @ C"
      unfolding z by (rule span_sep [OF t']) simp
    have pc: "parse_children n' (K @ C) = Some (map pretty cs, C)"
      unfolding K_def
    proof (rule parse_children_render [OF _ wns ws c2])
      fix c m r'
      assume c: "c \<in> set cs" and m: "weight c \<le> m"
      from c wns have "well_named c" by (simp add: list_all_iff)
      then show "parse_element m (render c @ r') = Some (pretty c, r')"
        using m by (rule Element.IH [OF c])
    qed
    have cl: "strip_prefix (''</'' @ tg @ ''>'') C = Some r"
      unfolding C_def by (rule strip_prefix_append)
    have res: "parse_element (Suc n') (CHR ''<'' # tg @ W)
       = Some (Element tg atts (if T' = [] then None else Some (unescape T')) (map pretty cs), r)"
      by (rule parse_element_open [OF tg names W c0 pa conjunct1 [OF sp] conjunct2 [OF sp] pc cl])
    have rd: "(if T' = [] then None else Some (unescape T'))
       = (if cs = [] then (if truthy tx then tx else None)
          else Some ((case tx of None \<Rightarrow> [] | Some s \<Rightarrow> s) @ [CHR 0x0A]))"
    proof (cases "cs = []")
      case True
      with False obtain s where s: "tx = Some s" "s \<noteq> []"
        by (auto simp: truthy_def split: option.splits)
      with True show ?thesis
        by (simp add: T'_def T_def escape_Nil_iff unescape_escape truthy_def)
    next
      case False
      then show ?thesis
        by (simp add: T'_def T_def unescape_escape_append)
    qed
    show ?thesis
      unfolding str n res rd by simp
  qed
qed

lemma weight_le_length: "weight t \<le> length (render t)"
proof (induction t)
  case (Element tg atts tx cs)
  have "sum_list (map (\<lambda>c. Suc (weight c)) cs)
      \<le> sum_list (map (\<lambda>c. length (render c @ [CHR 0x0A])) cs)"
    by (rule sum_list_mono) (use Element.IH in simp)
  also have "\<dots> = length (concat (map (\<lambda>c. render c @ [CHR 0x0A]) cs))"
    by (simp add: length_concat comp_def)
  finally have ch: "sum_list (map (\<lambda>c. Suc (weight c)) cs)
      \<le> length (concat (map (\<lambda>c. render c @ [CHR 0x0A]) cs))" .
  show ?case
  proof (cases "cs = []")
    case True
    then show ?thesis by simp
  next
    case False
    with ch show ?thesis by simp
  qed
qed

lemma fromstring_tostring:
  assumes "well_named t"
  shows "tostring t = Inr (xml_declaration @ render t @ [CHR 0x0A])"
    and "fromstring (xml_declaration @ render t @ [CHR 0x0A]) = Inr (pretty t)"
proof -
  show "tostring t = Inr (xml_declaration @ render t @ [CHR 0x0A])"
    using assms by (simp add: tostring_def)
  have "weight t \<le> length (render t @ [CHR 0x0A])"
    using weight_le_length [of t] by simp
  with assms have "parse_element (length (render t @ [CHR 0x0A])) (render t @ [CHR 0x0A])
      = Some (pretty t, [CHR 0x0A])"
    by (rule parse_element_render)
  then show "fromstring (xml_declaration @ render t @ [CHR 0x0A]) = Inr (pretty t)"
    unfolding fromstring_def by (simp del: render.simps pretty.simps)
qed


lemma namespace_names:
  "list_all name_char ns_rsm" "list_all name_char ns_ram" "list_all name_char ns_udt"
  by (simp_all add: ns_rsm_def ns_ram_def ns_udt_def name_char_def)

lemma qualified_names:
  "list_all name_char (RSM l) = list_all name_char l" "RSM l \<noteq> []"
  "list_all name_char (RAM l) = list_all name_char l" "RAM l \<noteq> []"
  "list_all name_char (UDT l) = list_all name_char l" "UDT l \<noteq> []"
  by (simp_all add: RSM_def RAM_def UDT_def namespace_names) (simp_all add: name_char_def)

lemma well_named_line_item: "well_named (line_item_element L item)"
  by (simp add: line_item_element_def node_def leaf_def qualified_names) (simp add: name_char_def)

lemma well_named_parties: "well_named (seller_trade_party sel)" "well_named (buyer_trade_party buy)"
  by (simp_all add: seller_trade_party_def buyer_trade_party_def postal_trade_address_def
      tax_registration_def node_def leaf_def qualified_names) (simp_all add: name_char_def)

lemma well_named_delivery: "well_named (header_trade_delivery ds de)"
  by (simp add: header_trade_delivery_def date_time_string_def node_def leaf_def qualified_names
      split: option.splits) (simp add: name_char_def)

lemma well_named_settlement: "well_named (header_trade_settlement items net tax gross cur terms)"
  by (simp add: header_trade_settlement_def monetary_summation_def node_def leaf_def
      qualified_names split: list.splits) (simp add: name_char_def)

lemma well_named_line_items: "list_all well_named (map (line_item_element L) items)"
  by (induction items) (simp_all add: well_named_line_item)

lemma well_named_tree:
  "well_named (zugferd_tree L n issue sel buy items net tax gross cur ds de terms)"
  by (simp add: zugferd_tree_def date_time_string_def node_def leaf_def qualified_names
      well_named_line_items well_named_parties well_named_delivery well_named_settlement)
     (simp add: name_char_def)

subsection \<open>Archival store and issuance\<close>

lemma pdf_key_neq_xml_key: "pdf_key now n \<noteq> xml_key now' n'"
proof
  assume "pdf_key now n = xml_key now' n'"
  then have "rev (pdf_key now n) = rev (xml_key now' n')" by simp
  then show False by (simp add: pdf_key_def xml_key_def)
qed

lemma find_filter_other: "k' \<noteq> k \<Longrightarrow>
  find (\<lambda>e. entry_key e = k') (filter (\<lambda>e. entry_key e \<noteq> k) xs) = find (\<lambda>e. entry_key e = k') xs"
  by (induction xs) auto

lemma get_object_put_same: "get_object (put_object b now k data ct meta) k = Inr data"
  by (simp add: get_object_def put_object_def)

lemma get_object_put_other: "k' \<noteq> k \<Longrightarrow> get_object (put_object b now k data ct meta) k' = get_object b k'"
  by (simp add: get_object_def put_object_def find_filter_other)

lemma get_file_store_pdf:
  "get_file (snd (store_pdf st now n data)) (fst (store_pdf st now n data)) = Inr data"
  by (simp add: get_file_def store_pdf_def Let_def get_object_put_same)

lemma get_file_store_xml_other:
  "key \<noteq> xml_key now n \<Longrightarrow> get_file (snd (store_xml st now n x)) key = get_file st key"
  by (simp add: get_file_def store_xml_def Let_def get_object_put_other)

lemma fst_store_pdf: "fst (store_pdf st now n data) = pdf_key now n"
  by (simp add: store_pdf_def Let_def)

lemma fst_store_xml: "fst (store_xml st now n data) = xml_key now n"
  by (simp add: store_xml_def Let_def)

lemma get_file_after_stores:
  "get_file (snd (store_xml (snd (store_pdf st now n data)) now n x)) (pdf_key now n) = Inr data"
  using get_file_store_pdf [of st now n data]
  by (simp add: get_file_store_xml_other pdf_key_neq_xml_key fst_store_pdf)

lemma create_invoice_success:
  assumes "issue_xml L (fst (generate_invoice_number cfg (sequence_rows (database w)))) d
             (calculate_totals (line_items d)) = Inr xml"
    and "issue_pdf L now (fst (generate_invoice_number cfg (sequence_rows (database w)))) d
             (calculate_totals (line_items d)) xml = Inr pdf"
  shows "\<exists>row. fst (create_invoice L cfg now d u w) = Inr row
     \<and> invoice_number row = fst (generate_invoice_number cfg (sequence_rows (database w)))
     \<and> pdfa3_path row = pdf_key now (invoice_number row)
     \<and> zugferd_xml_path row = Some (xml_key now (invoice_number row))
     \<and> pdf_hash row = sha256_hexdigest L (fst (sign_pdf L cfg now pdf))
     \<and> tsa_token row = Some (snd (sign_pdf L cfg now pdf))
     \<and> archive (snd (create_invoice L cfg now d u w)) =
         snd (store_xml (snd (store_pdf (archive w) now (invoice_number row) (fst (sign_pdf L cfg now pdf))))
                now (invoice_number row) xml)"
  using assms
  by (auto simp: create_invoice_def Let_def split_def fst_store_pdf fst_store_xml split: sum.splits)

lemma create_invoice_Inr:
  assumes "fst (create_invoice L cfg now d u w) = Inr row"
  shows "\<exists>xml pdf.
       issue_xml L (fst (generate_invoice_number cfg (sequence_rows (database w)))) d
             (calculate_totals (line_items d)) = Inr xml
     \<and> issue_pdf L now (fst (generate_invoice_number cfg (sequence_rows (database w)))) d
             (calculate_totals (line_items d)) xml = Inr pdf"
  using assms
  by (auto simp: create_invoice_def Let_def split_def split: sum.splits)

lemma create_invoice_consumes_number:
  "sequence_rows (database (snd (create_invoice L cfg now d u w))) =
     snd (generate_invoice_number cfg (sequence_rows (database w)))"
  by (simp add: create_invoice_def Let_def split_def split: sum.splits)

lemma get_file_store_xml:
  "get_file (snd (store_xml st now n x)) (xml_key now n) = Inr x"
  by (simp add: get_file_def store_xml_def Let_def get_object_put_same)

lemma number_consumed:
  "sequence_current cfg (sequence_rows (database (snd (create_invoice L cfg now d u w))))
     = sequence_current cfg (sequence_rows (database w)) + 1"
  by (simp add: create_invoice_consumes_number generate_invoice_number_result sequence_current_after)

lemma create_invoice_status:
  "fst (create_invoice L cfg now d u w) = Inr row \<Longrightarrow> status row = ''issued''"
  by (auto simp: create_invoice_def Let_def split_def split: sum.splits)

lemma create_invoice_persists:
  assumes "fst (create_invoice L cfg now d u w) = Inr row"
  shows "invoices (database (snd (create_invoice L cfg now d u w))) = invoices (database w) @ [row]
     \<and> status row = ''issued''
     \<and> created_by row = u
     \<and> (\<exists>entry. audit_logs (database (snd (create_invoice L cfg now d u w)))
            = audit_logs (database w) @ [entry]
          \<and> action entry = ''create'' \<and> entity_id entry = id' row)"
  using assms
  by (auto simp: create_invoice_def Let_def split_def split: sum.splits)

lemma render_not_Nil: "xml_declaration @ render t @ [CHR 0x0A] \<noteq> []"
  by simp

lemma sample_issue_xml:
  "issue_xml sample_libs n d a
     = Inr (xml_declaration @ render (issue_tree sample_libs n d a) @ [CHR 0x0A])"
  "issue_xml offline_libs n d a
     = Inr (xml_declaration @ render (issue_tree offline_libs n d a) @ [CHR 0x0A])"
  by (simp_all add: issue_xml_def issue_tree_def zugferd_generate_def split_def sample_libs_def
      offline_libs_def fromstring_tostring(1) [OF well_named_tree])

lemma sample_issue_pdf:
  "issue_pdf sample_libs now n d a (xml_declaration @ x) = Inr (''%PDF-1.4'' @ '' /EF '' @ xml_declaration @ x)"
  "issue_pdf offline_libs now n d a (xml_declaration @ x) = Inr (''%PDF-1.4'' @ '' /EF '' @ xml_declaration @ x)"
  by (simp_all add: issue_pdf_def pdf_generate_def embed_zugferd_xml_def sample_libs_def
      offline_libs_def split_def xml_declaration_def)

lemma sample_run_steps:
  "issue_xml sample_libs (fst (generate_invoice_number cfg (sequence_rows (database w)))) d
     (calculate_totals (line_items d))
     = Inr (xml_declaration
            @ render (issue_tree sample_libs (fst (generate_invoice_number cfg (sequence_rows (database w))))
                        d (calculate_totals (line_items d))) @ [CHR 0x0A])"
  "issue_pdf sample_libs now (fst (generate_invoice_number cfg (sequence_rows (database w)))) d
     (calculate_totals (line_items d))
     (xml_declaration
       @ render (issue_tree sample_libs (fst (generate_invoice_number cfg (sequence_rows (database w))))
                   d (calculate_totals (line_items d))) @ [CHR 0x0A])
     = Inr (''%PDF-1.4'' @ '' /EF '' @ xml_declaration
            @ render (issue_tree sample_libs (fst (generate_invoice_number cfg (sequence_rows (database w))))
                        d (calculate_totals (line_items d))) @ [CHR 0x0A])"
  by (rule sample_issue_xml sample_issue_pdf)+

lemma offline_run_steps:
  "issue_xml offline_libs (fst (generate_invoice_number cfg (sequence_rows (database w)))) d
     (calculate_totals (line_items d))
     = Inr (xml_declaration
            @ render (issue_tree offline_libs (fst (generate_invoice_number cfg (sequence_rows (database w))))
                        d (calculate_totals (line_items d))) @ [CHR 0x0A])"
  "issue_pdf offline_libs now (fst (generate_invoice_number cfg (sequence_rows (database w)))) d
     (calculate_totals (line_items d))
     (xml_declaration
       @ render (issue_tree offline_libs (fst (generate_invoice_number cfg (sequence_rows (database w))))
                   d (calculate_totals (line_items d))) @ [CHR 0x0A])
     = Inr (''%PDF-1.4'' @ '' /EF '' @ xml_declaration
            @ render (issue_tree offline_libs (fst (generate_invoice_number cfg (sequence_rows (database w))))
                        d (calculate_totals (line_items d))) @ [CHR 0x0A])"
  by (rule sample_issue_xml sample_issue_pdf)+

lemma sample_number:
  "fst (generate_invoice_number default_settings (sequence_rows (database local_world))) = ''RE010000''"
  "fst (generate_invoice_number default_settings (sequence_rows (database sample_world))) = ''RE010000''"
  "xml_key sample_now ''RE010000'' = ''invoices/2024/RE010000.xml''"
  by (simp_all add: generate_invoice_number_result sequence_current_def default_settings_def
      local_world_def sample_world_def empty_db_def fmt_06d_examples xml_key_def str_int_def
      digits.simps digit_char_def sample_now_def)

lemma offline_line_item: "line_item_element offline_libs = line_item_element sample_libs"
  by (rule ext) (simp add: line_item_element_def offline_libs_def)

lemma offline_tree: "issue_tree offline_libs n d a = issue_tree sample_libs n d a"
  by (simp add: issue_tree_def zugferd_tree_def offline_line_item split_def)

lemma offline_sample_documents:
  "issue_xml offline_libs ''RE010000'' sample_request (calculate_totals (line_items sample_request))
     = Inr sample_xml"
  "issue_pdf offline_libs sample_now ''RE010000'' sample_request
     (calculate_totals (line_items sample_request)) sample_xml = Inr sample_pdf"
  "tsa_sign_pdf offline_libs sample_pdf = Inl (RuntimeError ''connection timed out'')"
  unfolding sample_xml_def sample_pdf_def
  by (simp_all only: sample_issue_xml sample_issue_pdf offline_tree) (simp add: offline_libs_def)

text \<open>
  Claim C10. Every invoice row the issuance persists is created with status
  \<^verbatim>\<open>issued\<close> and \<^verbatim>\<open>is_immutable = True\<close>, in the one insertion that adds it to the
  table: a successful call appends exactly that row, a failed call adds no row, so the
  status \<^verbatim>\<open>draft\<close> (the column default) never appears on a row the pipeline writes.
\<close>

theorem issuance_persists_issued:
  "(case fst (create_invoice L cfg now d u w) of
      Inr row \<Rightarrow>
        status row = ''issued'' \<and> is_immutable row \<and> status row \<noteq> ''draft''
        \<and> invoices (database (snd (create_invoice L cfg now d u w))) = invoices (database w) @ [row]
    | Inl e \<Rightarrow>
        invoices (database (snd (create_invoice L cfg now d u w))) = invoices (database w))"
  by (auto simp: create_invoice_def Let_def split_def split: sum.splits)

theorem issuance_persists_issued_witness:
  "\<exists>row. fst (create_invoice sample_libs default_settings sample_now sample_request 7 sample_world) = Inr row
     \<and> status row = ''issued'' \<and> is_immutable row
     \<and> invoices (database (snd (create_invoice sample_libs default_settings sample_now
            sample_request 7 sample_world))) = [row]"
proof -
  obtain row where row:
    "fst (create_invoice sample_libs default_settings sample_now sample_request 7 sample_world) = Inr row"
    using create_invoice_success [OF sample_run_steps] by blast
  have "invoices (database sample_world) = []"
    by (simp add: sample_world_def empty_db_def)
  with row issuance_persists_issued
         [of sample_libs default_settings sample_now sample_request 7 sample_world]
  show ?thesis by simp
qed

subsection \<open>Timestamp service\<close>

lemma add_timestamp_failure:
  "tsa_sign_pdf L pdf = Inl e \<Longrightarrow>
   sign_pdf L cfg now pdf =
     (pdf, [ (''tsa_url'', ''mock_tsa''), (''timestamp'', isoformat now),
             (''hash_algorithm'', hash_algorithm cfg),
             (''pdf_hash'', sha256_hexdigest L pdf),
             (''signed_pdf_hash'', sha256_hexdigest L pdf),
             (''warning'', ''Mock timestamp - not for production use'') ])"
  by (simp add: sign_pdf_def add_timestamp_def)

lemma add_timestamp_success:
  "tsa_sign_pdf L pdf = Inr signed \<Longrightarrow>
   sign_pdf L cfg now pdf =
     (signed, [ (''tsa_url'', TSA_URL cfg), (''timestamp'', isoformat now),
             (''hash_algorithm'', hash_algorithm cfg),
             (''pdf_hash'', sha256_hexdigest L pdf),
             (''signed_pdf_hash'', sha256_hexdigest L signed) ])"
  by (simp add: sign_pdf_def add_timestamp_def)

lemma create_invoice_token:
  assumes "issue_xml L (fst (generate_invoice_number cfg (sequence_rows (database w)))) d
             (calculate_totals (line_items d)) = Inr xml"
    and "issue_pdf L now (fst (generate_invoice_number cfg (sequence_rows (database w)))) d
             (calculate_totals (line_items d)) xml = Inr pdf"
  shows "\<exists>row. fst (create_invoice L cfg now d u w) = Inr row
     \<and> tsa_token row = Some (snd (sign_pdf L cfg now pdf))
     \<and> pdf_hash row = sha256_hexdigest L (fst (sign_pdf L cfg now pdf))
     \<and> get_file (archive (snd (create_invoice L cfg now d u w))) (pdfa3_path row)
           = Inr (fst (sign_pdf L cfg now pdf))"
proof -
  from create_invoice_success [OF assms, where u = u] obtain row where
    row: "fst (create_invoice L cfg now d u w) = Inr row"
    and path: "pdfa3_path row = pdf_key now (invoice_number row)"
    and hash: "pdf_hash row = sha256_hexdigest L (fst (sign_pdf L cfg now pdf))"
    and tok: "tsa_token row = Some (snd (sign_pdf L cfg now pdf))"
    and arch: "archive (snd (create_invoice L cfg now d u w)) =
         snd (store_xml (snd (store_pdf (archive w) now (invoice_number row) (fst (sign_pdf L cfg now pdf))))
                now (invoice_number row) xml)"
    by blast
  have "get_file (archive (snd (create_invoice L cfg now d u w))) (pdfa3_path row)
          = Inr (fst (sign_pdf L cfg now pdf))"
    unfolding arch path by (rule get_file_after_stores)
  with row hash tok show ?thesis by blast
qed

lemma degraded_issuance:
  assumes x: "issue_xml L (fst (generate_invoice_number cfg (sequence_rows (database w)))) d
             (calculate_totals (line_items d)) = Inr xml"
    and p: "issue_pdf L now (fst (generate_invoice_number cfg (sequence_rows (database w)))) d
             (calculate_totals (line_items d)) xml = Inr pdf"
    and f: "tsa_sign_pdf L pdf = Inl e"
  shows "\<exists>row. fst (create_invoice L cfg now d u w) = Inr row
     \<and> tsa_token row =
          Some [ (''tsa_url'', ''mock_tsa''), (''timestamp'', isoformat now),
                 (''hash_algorithm'',
                    if TSA_HASH_ALGORITHM cfg = [] then ''SHA256'' else TSA_HASH_ALGORITHM cfg),
                 (''pdf_hash'', sha256_hexdigest L pdf),
                 (''signed_pdf_hash'', sha256_hexdigest L pdf),
                 (''warning'', ''Mock timestamp - not for production use'') ]
     \<and> status row = ''issued''
     \<and> invoice_number row = fst (generate_invoice_number cfg (sequence_rows (database w)))
     \<and> pdf_hash row = sha256_hexdigest L pdf
     \<and> invoices (database (snd (create_invoice L cfg now d u w))) = invoices (database w) @ [row]
     \<and> get_file (archive (snd (create_invoice L cfg now d u w))) (pdfa3_path row) = Inr pdf
     \<and> zugferd_xml_path row = Some (xml_key now (invoice_number row))
     \<and> get_file (archive (snd (create_invoice L cfg now d u w))) (xml_key now (invoice_number row))
          = Inr xml"
proof -
  have sp: "sign_pdf L cfg now pdf =
        (pdf, [ (''tsa_url'', ''mock_tsa''), (''timestamp'', isoformat now),
                (''hash_algorithm'',
                   if TSA_HASH_ALGORITHM cfg = [] then ''SHA256'' else TSA_HASH_ALGORITHM cfg),
                (''pdf_hash'', sha256_hexdigest L pdf),
                (''signed_pdf_hash'', sha256_hexdigest L pdf),
                (''warning'', ''Mock timestamp - not for production use'') ])"
    using f by (simp add: sign_pdf_def add_timestamp_def hash_algorithm_def)
  from create_invoice_success [OF x p, where u = u] obtain row where
    row: "fst (create_invoice L cfg now d u w) = Inr row"
    and num: "invoice_number row = fst (generate_invoice_number cfg (sequence_rows (database w)))"
    and path: "pdfa3_path row = pdf_key now (invoice_number row)"
    and xpath: "zugferd_xml_path row = Some (xml_key now (invoice_number row))"
    and hash: "pdf_hash row = sha256_hexdigest L (fst (sign_pdf L cfg now pdf))"
    and tok: "tsa_token row = Some (snd (sign_pdf L cfg now pdf))"
    and arch: "archive (snd (create_invoice L cfg now d u w)) =
         snd (store_xml (snd (store_pdf (archive w) now (invoice_number row) (fst (sign_pdf L cfg now pdf))))
                now (invoice_number row) xml)"
    by blast
  have got: "get_file (archive (snd (create_invoice L cfg now d u w))) (pdfa3_path row) = Inr pdf"
    unfolding arch path sp fst_conv by (rule get_file_after_stores)
  have gotx: "get_file (archive (snd (create_invoice L cfg now d u w))) (xml_key now (invoice_number row))
          = Inr xml"
    unfolding arch by (rule get_file_store_xml)
  from create_invoice_persists [OF row]
  have pers: "invoices (database (snd (create_invoice L cfg now d u w))) = invoices (database w) @ [row]"
    and st: "status row = ''issued''"
    by simp_all
  from tok have tok': "tsa_token row =
          Some [ (''tsa_url'', ''mock_tsa''), (''timestamp'', isoformat now),
                 (''hash_algorithm'',
                    if TSA_HASH_ALGORITHM cfg = [] then ''SHA256'' else TSA_HASH_ALGORITHM cfg),
                 (''pdf_hash'', sha256_hexdigest L pdf),
                 (''signed_pdf_hash'', sha256_hexdigest L pdf),
                 (''warning'', ''Mock timestamp - not for production use'') ]"
    unfolding sp snd_conv .
  from hash have hash': "pdf_hash row = sha256_hexdigest L pdf"
    unfolding sp fst_conv .
  from row tok' st num hash' pers got xpath gotx show ?thesis
    by (intro exI [of _ row] conjI)
qed

text \<open>
  Claim C5, as the code has it. \<^verbatim>\<open>sign_pdf\<close> returns for every outcome of the authority
  call and never raises. When the call fails it returns the input document and the fallback
  token, which carries the entry \<^verbatim>\<open>warning\<close> = \<^verbatim>\<open>Mock timestamp - not for production use\<close>;
  a genuine token has no \<^verbatim>\<open>warning\<close> entry, so the two are told apart. Every token has
  the entries \<^verbatim>\<open>tsa_url\<close>, \<^verbatim>\<open>timestamp\<close> (the clock reading of the attempt),
  \<^verbatim>\<open>hash_algorithm\<close> (the configured algorithm, \<^verbatim>\<open>SHA256\<close> when none is configured),
  \<^verbatim>\<open>pdf_hash\<close> (digest of the input) and \<^verbatim>\<open>signed_pdf_hash\<close> (digest of the returned
  document). The entry \<^verbatim>\<open>tsa_url\<close> is the configured authority endpoint in a genuine
  token and the literal \<^verbatim>\<open>mock_tsa\<close> in the fallback token. With a failing authority the
  issuance completes whenever encoding and composition return: the number is allocated,
  both documents are stored, and the row is appended with status \<^verbatim>\<open>issued\<close> and the
  fallback token.
\<close>

theorem degraded_proof_flagged:
  "(\<forall>e. tsa_sign_pdf L pdf = Inl e \<longrightarrow>
      sign_pdf L cfg now pdf =
        (pdf, [ (''tsa_url'', ''mock_tsa''), (''timestamp'', isoformat now),
                (''hash_algorithm'',
                   if TSA_HASH_ALGORITHM cfg = [] then ''SHA256'' else TSA_HASH_ALGORITHM cfg),
                (''pdf_hash'', sha256_hexdigest L pdf),
                (''signed_pdf_hash'', sha256_hexdigest L pdf),
                (''warning'', ''Mock timestamp - not for production use'') ]))
   \<and> (\<forall>signed. tsa_sign_pdf L pdf = Inr signed \<longrightarrow>
      sign_pdf L cfg now pdf =
        (signed, [ (''tsa_url'', TSA_URL cfg), (''timestamp'', isoformat now),
                (''hash_algorithm'',
                   if TSA_HASH_ALGORITHM cfg = [] then ''SHA256'' else TSA_HASH_ALGORITHM cfg),
                (''pdf_hash'', sha256_hexdigest L pdf),
                (''signed_pdf_hash'', sha256_hexdigest L signed) ]))
   \<and> map_of (snd (sign_pdf L cfg now pdf)) ''warning'' =
        (case tsa_sign_pdf L pdf of
           Inr signed \<Rightarrow> None
         | Inl e \<Rightarrow> Some ''Mock timestamp - not for production use'')
   \<and> map_of (snd (sign_pdf L cfg now pdf)) ''tsa_url'' =
        Some (case tsa_sign_pdf L pdf of Inr signed \<Rightarrow> TSA_URL cfg | Inl e \<Rightarrow> ''mock_tsa'')
   \<and> map_of (snd (sign_pdf L cfg now pdf)) ''hash_algorithm'' =
        Some (if TSA_HASH_ALGORITHM cfg = [] then ''SHA256'' else TSA_HASH_ALGORITHM cfg)
   \<and> map_of (snd (sign_pdf L cfg now pdf)) ''pdf_hash'' = Some (sha256_hexdigest L pdf)
   \<and> map_of (snd (sign_pdf L cfg now pdf)) ''signed_pdf_hash'' =
        Some (sha256_hexdigest L (fst (sign_pdf L cfg now pdf)))
   \<and> map_of (snd (sign_pdf L cfg now pdf)) ''timestamp'' = Some (isoformat now)
   \<and> (\<forall>xml e.
         issue_xml L (fst (generate_invoice_number cfg (sequence_rows (database w)))) d
             (calculate_totals (line_items d)) = Inr xml
       \<and> issue_pdf L now (fst (generate_invoice_number cfg (sequence_rows (database w)))) d
             (calculate_totals (line_items d)) xml = Inr pdf
       \<and> tsa_sign_pdf L pdf = Inl e
       \<longrightarrow> (\<exists>row. fst (create_invoice L cfg now d u w) = Inr row
              \<and> tsa_token row =
                  Some [ (''tsa_url'', ''mock_tsa''), (''timestamp'', isoformat now),
                         (''hash_algorithm'',
                            if TSA_HASH_ALGORITHM cfg = [] then ''SHA256''
                            else TSA_HASH_ALGORITHM cfg),
                         (''pdf_hash'', sha256_hexdigest L pdf),
                         (''signed_pdf_hash'', sha256_hexdigest L pdf),
                         (''warning'', ''Mock timestamp - not for production use'') ]
              \<and> status row = ''issued''
              \<and> invoice_number row = fst (generate_invoice_number cfg (sequence_rows (database w)))
              \<and> pdf_hash row = sha256_hexdigest L pdf
              \<and> invoices (database (snd (create_invoice L cfg now d u w)))
                   = invoices (database w) @ [row]
              \<and> get_file (archive (snd (create_invoice L cfg now d u w))) (pdfa3_path row)
                   = Inr pdf
              \<and> zugferd_xml_path row = Some (xml_key now (invoice_number row))
              \<and> get_file (archive (snd (create_invoice L cfg now d u w)))
                   (xml_key now (invoice_number row)) = Inr xml))
   \<and> sequence_current cfg (sequence_rows (database (snd (create_invoice L cfg now d u w))))
        = sequence_current cfg (sequence_rows (database w)) + 1"
proof -
  have fallback: "\<forall>e. tsa_sign_pdf L pdf = Inl e \<longrightarrow>
      sign_pdf L cfg now pdf =
        (pdf, [ (''tsa_url'', ''mock_tsa''), (''timestamp'', isoformat now),
                (''hash_algorithm'',
                   if TSA_HASH_ALGORITHM cfg = [] then ''SHA256'' else TSA_HASH_ALGORITHM cfg),
                (''pdf_hash'', sha256_hexdigest L pdf),
                (''signed_pdf_hash'', sha256_hexdigest L pdf),
                (''warning'', ''Mock timestamp - not for production use'') ])"
    by (simp add: sign_pdf_def add_timestamp_def hash_algorithm_def)
  have genuine: "\<forall>signed. tsa_sign_pdf L pdf = Inr signed \<longrightarrow>
      sign_pdf L cfg now pdf =
        (signed, [ (''tsa_url'', TSA_URL cfg), (''timestamp'', isoformat now),
                (''hash_algorithm'',
                   if TSA_HASH_ALGORITHM cfg = [] then ''SHA256'' else TSA_HASH_ALGORITHM cfg),
                (''pdf_hash'', sha256_hexdigest L pdf),
                (''signed_pdf_hash'', sha256_hexdigest L signed) ])"
    by (simp add: sign_pdf_def add_timestamp_def hash_algorithm_def)
  have fields:
    "map_of (snd (sign_pdf L cfg now pdf)) ''warning'' =
        (case tsa_sign_pdf L pdf of
           Inr signed \<Rightarrow> None
         | Inl e \<Rightarrow> Some ''Mock timestamp - not for production use'')"
    "map_of (snd (sign_pdf L cfg now pdf)) ''tsa_url'' =
        Some (case tsa_sign_pdf L pdf of Inr signed \<Rightarrow> TSA_URL cfg | Inl e \<Rightarrow> ''mock_tsa'')"
    "map_of (snd (sign_pdf L cfg now pdf)) ''hash_algorithm'' =
        Some (if TSA_HASH_ALGORITHM cfg = [] then ''SHA256'' else TSA_HASH_ALGORITHM cfg)"
    "map_of (snd (sign_pdf L cfg now pdf)) ''pdf_hash'' = Some (sha256_hexdigest L pdf)"
    "map_of (snd (sign_pdf L cfg now pdf)) ''signed_pdf_hash'' =
        Some (sha256_hexdigest L (fst (sign_pdf L cfg now pdf)))"
    "map_of (snd (sign_pdf L cfg now pdf)) ''timestamp'' = Some (isoformat now)"
    by (cases "tsa_sign_pdf L pdf"; simp add: sign_pdf_def add_timestamp_def hash_algorithm_def)+
  have completes: "\<forall>xml e.
         issue_xml L (fst (generate_invoice_number cfg (sequence_rows (database w)))) d
             (calculate_totals (line_items d)) = Inr xml
       \<and> issue_pdf L now (fst (generate_invoice_number cfg (sequence_rows (database w)))) d
             (calculate_totals (line_items d)) xml = Inr pdf
       \<and> tsa_sign_pdf L pdf = Inl e
       \<longrightarrow> (\<exists>row. fst (create_invoice L cfg now d u w) = Inr row
              \<and> tsa_token row =
                  Some [ (''tsa_url'', ''mock_tsa''), (''timestamp'', isoformat now),
                         (''hash_algorithm'',
                            if TSA_HASH_ALGORITHM cfg = [] then ''SHA256''
                            else TSA_HASH_ALGORITHM cfg),
                         (''pdf_hash'', sha256_hexdigest L pdf),
                         (''signed_pdf_hash'', sha256_hexdigest L pdf),
                         (''warning'', ''Mock timestamp - not for production use'') ]
              \<and> status row = ''issued''
              \<and> invoice_number row = fst (generate_invoice_number cfg (sequence_rows (database w)))
              \<and> pdf_hash row = sha256_hexdigest L pdf
              \<and> invoices (database (snd (create_invoice L cfg now d u w)))
                   = invoices (database w) @ [row]
              \<and> get_file (archive (snd (create_invoice L cfg now d u w))) (pdfa3_path row)
                   = Inr pdf
              \<and> zugferd_xml_path row = Some (xml_key now (invoice_number row))
              \<and> get_file (archive (snd (create_invoice L cfg now d u w)))
                   (xml_key now (invoice_number row)) = Inr xml)"
  proof (intro allI impI)
    fix xml e
    assume h: "issue_xml L (fst (generate_invoice_number cfg (sequence_rows (database w)))) d
             (calculate_totals (line_items d)) = Inr xml
       \<and> issue_pdf L now (fst (generate_invoice_number cfg (sequence_rows (database w)))) d
             (calculate_totals (line_items d)) xml = Inr pdf
       \<and> tsa_sign_pdf L pdf = Inl e"
    then have x: "issue_xml L (fst (generate_invoice_number cfg (sequence_rows (database w)))) d
             (calculate_totals (line_items d)) = Inr xml"
      and p: "issue_pdf L now (fst (generate_invoice_number cfg (sequence_rows (database w)))) d
             (calculate_totals (line_items d)) xml = Inr pdf"
      and f: "tsa_sign_pdf L pdf = Inl e"
      by simp_all
    show "\<exists>row. fst (create_invoice L cfg now d u w) = Inr row
              \<and> tsa_token row =
                  Some [ (''tsa_url'', ''mock_tsa''), (''timestamp'', isoformat now),
                         (''hash_algorithm'',
                            if TSA_HASH_ALGORITHM cfg = [] then ''SHA256''
                            else TSA_HASH_ALGORITHM cfg),
                         (''pdf_hash'', sha256_hexdigest L pdf),
                         (''signed_pdf_hash'', sha256_hexdigest L pdf),
                         (''warning'', ''Mock timestamp - not for production use'') ]
              \<and> status row = ''issued''
              \<and> invoice_number row = fst (generate_invoice_number cfg (sequence_rows (database w)))
              \<and> pdf_hash row = sha256_hexdigest L pdf
              \<and> invoices (database (snd (create_invoice L cfg now d u w)))
                   = invoices (database w) @ [row]
              \<and> get_file (archive (snd (create_invoice L cfg now d u w))) (pdfa3_path row)
                   = Inr pdf
              \<and> zugferd_xml_path row = Some (xml_key now (invoice_number row))
              \<and> get_file (archive (snd (create_invoice L cfg now d u w)))
                   (xml_key now (invoice_number row)) = Inr xml"
      by (rule degraded_issuance [OF x p f])
  qed
  have consumed: "sequence_current cfg (sequence_rows (database (snd (create_invoice L cfg now d u w))))
        = sequence_current cfg (sequence_rows (database w)) + 1"
    by (rule number_consumed)
  from fallback genuine fields completes consumed show ?thesis
    by (intro conjI)
qed

theorem degraded_proof_flagged_witness:
  "\<exists>xml pdf row.
      issue_xml offline_libs ''RE010000'' sample_request
         (calculate_totals (line_items sample_request)) = Inr xml
    \<and> issue_pdf offline_libs sample_now ''RE010000'' sample_request
         (calculate_totals (line_items sample_request)) xml = Inr pdf
    \<and> tsa_sign_pdf offline_libs pdf = Inl (RuntimeError ''connection timed out'')
    \<and> sign_pdf offline_libs default_settings sample_now pdf =
        (pdf, [ (''tsa_url'', ''mock_tsa''), (''timestamp'', ''2024-03-15T10:30:00''),
                (''hash_algorithm'', ''SHA256''),
                (''pdf_hash'', ''digest of '' @ pdf),
                (''signed_pdf_hash'', ''digest of '' @ pdf),
                (''warning'', ''Mock timestamp - not for production use'') ])
    \<and> fst (create_invoice offline_libs default_settings sample_now sample_request 7 sample_world)
          = Inr row
    \<and> map_of (the (tsa_token row)) ''warning'' = Some ''Mock timestamp - not for production use''
    \<and> status row = ''issued''
    \<and> invoice_number row = ''RE010000''
    \<and> invoices (database (snd (create_invoice offline_libs default_settings sample_now
          sample_request 7 sample_world))) = [row]
    \<and> get_file (archive (snd (create_invoice offline_libs default_settings sample_now
          sample_request 7 sample_world))) (pdfa3_path row) = Inr pdf"
proof -
  have num: "fst (generate_invoice_number default_settings (sequence_rows (database sample_world)))
      = ''RE010000''"
    by (simp add: generate_invoice_number_result sequence_current_def default_settings_def
        sample_world_def empty_db_def fmt_06d_examples)
  obtain xml pdf where
    x: "issue_xml offline_libs (fst (generate_invoice_number default_settings
           (sequence_rows (database sample_world)))) sample_request
           (calculate_totals (line_items sample_request)) = Inr xml"
    and p: "issue_pdf offline_libs sample_now (fst (generate_invoice_number default_settings
           (sequence_rows (database sample_world)))) sample_request
           (calculate_totals (line_items sample_request)) xml = Inr pdf"
    using offline_run_steps(1) [of default_settings sample_world sample_request]
          offline_run_steps(2) [of sample_now default_settings sample_world sample_request]
    by blast
  have f: "tsa_sign_pdf offline_libs pdf = Inl (RuntimeError ''connection timed out'')"
    by (simp add: offline_libs_def)
  have iso: "isoformat sample_now = ''2024-03-15T10:30:00''"
    by (simp add: isoformat_def sample_now_def zfill_def digits.simps digit_char_def)
  have alg: "(if TSA_HASH_ALGORITHM default_settings = [] then ''SHA256''
              else TSA_HASH_ALGORITHM default_settings) = ''SHA256''"
    by (simp add: default_settings_def)
  have dig: "sha256_hexdigest offline_libs pdf = ''digest of '' @ pdf"
    by (simp add: offline_libs_def sample_libs_def)
  have nil: "invoices (database sample_world) = []"
    by (simp add: sample_world_def empty_db_def)
  note inst = degraded_proof_flagged
      [of offline_libs pdf default_settings sample_now sample_world sample_request 7]
  from inst f have sp: "sign_pdf offline_libs default_settings sample_now pdf =
        (pdf, [ (''tsa_url'', ''mock_tsa''), (''timestamp'', ''2024-03-15T10:30:00''),
                (''hash_algorithm'', ''SHA256''),
                (''pdf_hash'', ''digest of '' @ pdf),
                (''signed_pdf_hash'', ''digest of '' @ pdf),
                (''warning'', ''Mock timestamp - not for production use'') ])"
    unfolding iso alg dig by blast
  from inst [THEN conjunct2, THEN conjunct2, THEN conjunct2, THEN conjunct2, THEN conjunct2,
             THEN conjunct2, THEN conjunct2, THEN conjunct2, THEN conjunct1, rule_format,
             OF conjI, OF x conjI, OF p f]
  obtain row where
    row: "fst (create_invoice offline_libs default_settings sample_now sample_request 7 sample_world)
          = Inr row"
    and tok: "tsa_token row =
                  Some [ (''tsa_url'', ''mock_tsa''), (''timestamp'', isoformat sample_now),
                         (''hash_algorithm'',
                            if TSA_HASH_ALGORITHM default_settings = [] then ''SHA256''
                            else TSA_HASH_ALGORITHM default_settings),
                         (''pdf_hash'', sha256_hexdigest offline_libs pdf),
                         (''signed_pdf_hash'', sha256_hexdigest offline_libs pdf),
                         (''warning'', ''Mock timestamp - not for production use'') ]"
    and st: "status row = ''issued''"
    and n: "invoice_number row = fst (generate_invoice_number default_settings
           (sequence_rows (database sample_world)))"
    and pers: "invoices (database (snd (create_invoice offline_libs default_settings sample_now
          sample_request 7 sample_world))) = invoices (database sample_world) @ [row]"
    and got: "get_file (archive (snd (create_invoice offline_libs default_settings sample_now
          sample_request 7 sample_world))) (pdfa3_path row) = Inr pdf"
    by blast
  from tok have w: "map_of (the (tsa_token row)) ''warning''
      = Some ''Mock timestamp - not for production use''"
    by simp
  from x p f sp row w st n pers got show ?thesis
    unfolding num nil by (intro exI [of _ xml] exI [of _ pdf] exI [of _ row] conjI) simp_all
qed

text \<open>
  The claim as the specification words it fails: with the authority unreachable and the
  default settings, whose endpoint is \<^verbatim>\<open>http://timestamp.digicert.com\<close>, the token's
  \<^verbatim>\<open>tsa_url\<close> entry is \<^verbatim>\<open>mock_tsa\<close>, and no entry of the token holds the endpoint.
\<close>

theorem fallback_token_lacks_endpoint:
  "tsa_sign_pdf offline_libs ''%PDF-1.4'' = Inl (RuntimeError ''connection timed out'')
   \<and> TSA_URL default_settings = ''http://timestamp.digicert.com''
   \<and> map_of (snd (sign_pdf offline_libs default_settings sample_now ''%PDF-1.4'')) ''tsa_url''
        = Some ''mock_tsa''
   \<and> TSA_URL default_settings
        \<notin> snd ` set (snd (sign_pdf offline_libs default_settings sample_now ''%PDF-1.4''))"
  by (simp add: sign_pdf_def add_timestamp_def offline_libs_def sample_libs_def default_settings_def
      hash_algorithm_def isoformat_def sample_now_def zfill_def digits.simps digit_char_def)

text \<open>
  Claim C9. Whenever the timestamping step raises, \<^verbatim>\<open>sign_pdf\<close> returns the input PDF
  bytes unchanged, and the fallback token's \<^verbatim>\<open>pdf_hash\<close> and \<^verbatim>\<open>signed_pdf_hash\<close> are the
  same digest, that of the input. In an issuance that takes this path, the document
  archived under \<^verbatim>\<open>pdfa3_path\<close> is the unsigned composed PDF, and the stored content
  hash is its digest.
\<close>

theorem timestamp_failure_identity:
  assumes "tsa_sign_pdf L pdf = Inl e"
  shows "fst (sign_pdf L cfg now pdf) = pdf
    \<and> map_of (snd (sign_pdf L cfg now pdf)) ''pdf_hash'' = Some (sha256_hexdigest L pdf)
    \<and> map_of (snd (sign_pdf L cfg now pdf)) ''signed_pdf_hash''
        = map_of (snd (sign_pdf L cfg now pdf)) ''pdf_hash''
    \<and> (\<forall>xml.
          issue_xml L (fst (generate_invoice_number cfg (sequence_rows (database w)))) d
             (calculate_totals (line_items d)) = Inr xml
        \<and> issue_pdf L now (fst (generate_invoice_number cfg (sequence_rows (database w)))) d
             (calculate_totals (line_items d)) xml = Inr pdf
        \<longrightarrow> (\<exists>row. fst (create_invoice L cfg now d u w) = Inr row
               \<and> get_file (archive (snd (create_invoice L cfg now d u w))) (pdfa3_path row) = Inr pdf
               \<and> pdf_hash row = sha256_hexdigest L pdf))"
proof -
  have same: "fst (sign_pdf L cfg now pdf) = pdf"
    by (simp add: add_timestamp_failure [OF assms])
  have h1: "map_of (snd (sign_pdf L cfg now pdf)) ''pdf_hash'' = Some (sha256_hexdigest L pdf)"
    by (simp add: add_timestamp_failure [OF assms])
  have h2: "map_of (snd (sign_pdf L cfg now pdf)) ''signed_pdf_hash''
        = map_of (snd (sign_pdf L cfg now pdf)) ''pdf_hash''"
    by (simp add: add_timestamp_failure [OF assms])
  have run: "\<forall>xml.
          issue_xml L (fst (generate_invoice_number cfg (sequence_rows (database w)))) d
             (calculate_totals (line_items d)) = Inr xml
        \<and> issue_pdf L now (fst (generate_invoice_number cfg (sequence_rows (database w)))) d
             (calculate_totals (line_items d)) xml = Inr pdf
        \<longrightarrow> (\<exists>row. fst (create_invoice L cfg now d u w) = Inr row
               \<and> get_file (archive (snd (create_invoice L cfg now d u w))) (pdfa3_path row) = Inr pdf
               \<and> pdf_hash row = sha256_hexdigest L pdf)"
    using create_invoice_token [where u = u and L = L and cfg = cfg and w = w and d = d
        and now = now and pdf = pdf]
    unfolding same by blast
  from same h1 h2 run show ?thesis
    by (intro conjI)
qed

theorem timestamp_failure_identity_witness:
  "tsa_sign_pdf offline_libs sample_pdf = Inl (RuntimeError ''connection timed out'')
   \<and> fst (sign_pdf offline_libs default_settings sample_now sample_pdf) = sample_pdf
   \<and> (\<exists>row.
        fst (create_invoice offline_libs default_settings sample_now sample_request 7 local_world)
          = Inr row
        \<and> get_file (archive (snd (create_invoice offline_libs default_settings sample_now
              sample_request 7 local_world))) (pdfa3_path row)
            = Inr sample_pdf)"
proof -
  have fails: "tsa_sign_pdf offline_libs sample_pdf = Inl (RuntimeError ''connection timed out'')"
    by (rule offline_sample_documents)
  note inst = timestamp_failure_identity
      [OF fails, of default_settings sample_now local_world sample_request 7]
  from inst have same: "fst (sign_pdf offline_libs default_settings sample_now sample_pdf) = sample_pdf"
    by (rule conjunct1)
  from inst [THEN conjunct2, THEN conjunct2, THEN conjunct2, rule_format, OF conjI,
             unfolded sample_number, OF offline_sample_documents(1) offline_sample_documents(2)]
  have "\<exists>row.
        fst (create_invoice offline_libs default_settings sample_now sample_request 7 local_world)
          = Inr row
        \<and> get_file (archive (snd (create_invoice offline_libs default_settings sample_now
              sample_request 7 local_world))) (pdfa3_path row) = Inr sample_pdf"
    by blast
  with fails same show ?thesis by blast
qed

subsection \<open>Version retention\<close>

lemma prefix_le: "startswith s k \<Longrightarrow> k \<le> s"
proof -
  assume "startswith s k"
  then have s: "s = k @ drop (length k) s"
    by (metis append_take_drop_id startswith_def)
  show "k \<le> s"
  proof (cases "drop (length k) s")
    case Nil
    with s show ?thesis by simp
  next
    case (Cons c cs)
    then have "(k, k @ drop (length k) s) \<in> lexord {(u, v). u < v}"
      by (simp add: lexord_append_rightI)
    with s have "k < s" by (simp add: list_less_def)
    then show ?thesis by simp
  qed
qed

lemma insort_key_front:
  "(\<And>x. x \<in> set xs \<Longrightarrow> f a \<le> f x) \<Longrightarrow> insort_key f a xs = a # xs"
  by (cases xs) auto

lemma sort_key_front:
  assumes "\<And>x. x \<in> set xs \<Longrightarrow> f a \<le> f x"
  shows "sort_key f (a # xs) = a # sort_key f xs"
proof -
  have "sort_key f (a # xs) = insort_key f a (sort_key f xs)"
    by (simp add: sort_key_def)
  also have "\<dots> = a # sort_key f xs"
    by (rule insort_key_front) (simp add: assms)
  finally show ?thesis .
qed

lemma filter_take_le:
  "length (filter P (take (Suc n) xs)) \<le> Suc (length (filter P (take n xs)))"
proof -
  have "take (Suc n) xs = take n xs @ take 1 (drop n xs)"
    using take_add [of n 1 xs] by simp
  moreover have "length (filter P (take 1 (drop n xs))) \<le> 1"
    by (metis length_filter_le length_take min.cobounded2 order_trans)
  ultimately show ?thesis by simp
qed

lemma list_object_versions_put:
  assumes "versioning b"
  shows "list_object_versions (put_object b now k data ct meta) k =
     take 1000 (\<lparr> entry_key = k, version_id = next_version_id b,
                   body = Version data ct meta, last_modified = now \<rparr>
               # sort_key entry_key (filter (\<lambda>e. startswith (entry_key e) k) (entries b)))"
proof -
  let ?e = "\<lparr> entry_key = k, version_id = next_version_id b,
              body = Version data ct meta, last_modified = now \<rparr>"
  let ?F = "filter (\<lambda>e. startswith (entry_key e) k) (entries b)"
  have "sort_key entry_key (?e # ?F) = ?e # sort_key entry_key ?F"
  proof (rule sort_key_front)
    fix x assume "x \<in> set ?F"
    then have "startswith (entry_key x) k" by simp
    then show "entry_key ?e \<le> entry_key x" by (simp add: prefix_le)
  qed
  with assms show ?thesis
    by (simp add: list_object_versions_def put_object_def startswith_def)
qed

lemma versions_count_put:
  assumes "versioning b"
  shows "length (filter is_version (list_object_versions b k))
       \<le> length (filter is_version (list_object_versions (put_object b now k data ct meta) k))"
proof -
  let ?S = "sort_key entry_key (filter (\<lambda>e. startswith (entry_key e) k) (entries b))"
  have "length (filter is_version (take 1000 ?S)) \<le> Suc (length (filter is_version (take 999 ?S)))"
    using filter_take_le [of is_version 999 ?S] by simp
  then show ?thesis
    unfolding list_object_versions_put [OF assms]
    by (simp add: list_object_versions_def is_version_def)
qed

lemma retrievable_put:
  "\<not> use_local st \<Longrightarrow> versioning (bucket st) \<Longrightarrow>
   retrievable (st\<lparr> bucket := put_object (bucket st) now k data ct meta \<rparr>) key
     = (if key = k then [data] else []) @ retrievable st key"
  by (simp add: retrievable_def put_object_def is_version_def version_data_def)

lemma retrievable_delete:
  "\<not> use_local st \<Longrightarrow> versioning (bucket st) \<Longrightarrow>
   retrievable (st\<lparr> bucket := s3_delete_object (bucket st) now k \<rparr>) key = retrievable st key"
  by (simp add: retrievable_def s3_delete_object_def is_version_def)

text \<open>
  Claim C7, as the code has it. On the remote object store with bucket versioning enabled
  (the service enables it on a bucket it creates), a write is new-version only:
  \<^verbatim>\<open>store_pdf\<close> and \<^verbatim>\<open>store_xml\<close> put one new entry in front of the bucket's log and
  leave every earlier entry in place, so all that was retrievable for a key remains
  retrievable and a read returns the bytes just written; a delete puts a delete marker in
  front and removes no version; and \<^verbatim>\<open>list_versions\<close> for the overwritten key reports at
  least as many versions after the write as before. On the local file system a write
  replaces the file: the bytes written are the only ones retrievable under the key.
\<close>

theorem versioned_store_append_only:
  "(\<not> use_local st \<and> versioning (bucket st) \<longrightarrow>
      entries (bucket (snd (store_pdf st now n data))) =
        \<lparr> entry_key = pdf_key now n, version_id = next_version_id (bucket st),
          body = Version data ''application/pdf''
                   [ (''invoice_number'', n), (''created_at'', isoformat now),
                     (''content_type'', ''application/pdf'') ],
          last_modified = now \<rparr> # entries (bucket st)
    \<and> entries (bucket (snd (store_xml st now n data))) =
        \<lparr> entry_key = xml_key now n, version_id = next_version_id (bucket st),
          body = Version data ''text/xml''
                   [ (''invoice_number'', n), (''created_at'', isoformat now),
                     (''content_type'', ''text/xml'') ],
          last_modified = now \<rparr> # entries (bucket st)
    \<and> retrievable (snd (store_pdf st now n data)) key =
        (if key = pdf_key now n then [data] else []) @ retrievable st key
    \<and> retrievable (snd (store_xml st now n data)) key =
        (if key = xml_key now n then [data] else []) @ retrievable st key
    \<and> get_file (snd (store_pdf st now n data)) (pdf_key now n) = Inr data
    \<and> (\<exists>before after.
          list_versions st (pdf_key now n) = Inr before
        \<and> list_versions (snd (store_pdf st now n data)) (pdf_key now n) = Inr after
        \<and> length before \<le> length after)
    \<and> (\<exists>st'.
          delete_object st now key = Inr st'
        \<and> entries (bucket st') =
            \<lparr> entry_key = key, version_id = next_version_id (bucket st),
              body = DeleteMarker, last_modified = now \<rparr> # entries (bucket st)
        \<and> retrievable st' key = retrievable st key))
   \<and> (use_local st \<longrightarrow>
        retrievable (snd (store_pdf st now n data)) (pdf_key now n) = [data]
      \<and> get_file (snd (store_pdf st now n data)) (pdf_key now n) = Inr data)"
proof (intro conjI impI)
  assume "use_local st"
  then show "retrievable (snd (store_pdf st now n data)) (pdf_key now n) = [data]"
    by (simp add: retrievable_def store_pdf_def Let_def)
next
  assume "use_local st"
  show "get_file (snd (store_pdf st now n data)) (pdf_key now n) = Inr data"
    using get_file_store_pdf [of st now n data] by (simp add: fst_store_pdf)
next
  assume r: "\<not> use_local st \<and> versioning (bucket st)"
  then show "entries (bucket (snd (store_pdf st now n data))) =
        \<lparr> entry_key = pdf_key now n, version_id = next_version_id (bucket st),
          body = Version data ''application/pdf''
                   [ (''invoice_number'', n), (''created_at'', isoformat now),
                     (''content_type'', ''application/pdf'') ],
          last_modified = now \<rparr> # entries (bucket st)"
    by (simp add: store_pdf_def Let_def put_object_def)
next
  assume r: "\<not> use_local st \<and> versioning (bucket st)"
  then show "entries (bucket (snd (store_xml st now n data))) =
        \<lparr> entry_key = xml_key now n, version_id = next_version_id (bucket st),
          body = Version data ''text/xml''
                   [ (''invoice_number'', n), (''created_at'', isoformat now),
                     (''content_type'', ''text/xml'') ],
          last_modified = now \<rparr> # entries (bucket st)"
    by (simp add: store_xml_def Let_def put_object_def)
next
  assume r: "\<not> use_local st \<and> versioning (bucket st)"
  then show "retrievable (snd (store_pdf st now n data)) key =
        (if key = pdf_key now n then [data] else []) @ retrievable st key"
    by (simp add: store_pdf_def Let_def retrievable_put del: append.simps)
next
  assume r: "\<not> use_local st \<and> versioning (bucket st)"
  then show "retrievable (snd (store_xml st now n data)) key =
        (if key = xml_key now n then [data] else []) @ retrievable st key"
    by (simp add: store_xml_def Let_def retrievable_put del: append.simps)
next
  assume r: "\<not> use_local st \<and> versioning (bucket st)"
  show "get_file (snd (store_pdf st now n data)) (pdf_key now n) = Inr data"
    using get_file_store_pdf [of st now n data] by (simp add: fst_store_pdf)
next
  assume r: "\<not> use_local st \<and> versioning (bucket st)"
  then have "length (filter is_version (list_object_versions (bucket st) (pdf_key now n)))
       \<le> length (filter is_version (list_object_versions
            (put_object (bucket st) now (pdf_key now n) data ''application/pdf''
               [ (''invoice_number'', n), (''created_at'', isoformat now),
                 (''content_type'', ''application/pdf'') ]) (pdf_key now n)))"
    by (simp add: versions_count_put)
  with r show "\<exists>before after.
          list_versions st (pdf_key now n) = Inr before
        \<and> list_versions (snd (store_pdf st now n data)) (pdf_key now n) = Inr after
        \<and> length before \<le> length after"
    by (simp add: list_versions_def store_pdf_def Let_def)
next
  assume r: "\<not> use_local st \<and> versioning (bucket st)"
  then show "\<exists>st'.
          delete_object st now key = Inr st'
        \<and> entries (bucket st') =
            \<lparr> entry_key = key, version_id = next_version_id (bucket st),
              body = DeleteMarker, last_modified = now \<rparr> # entries (bucket st)
        \<and> retrievable st' key = retrievable st key"
    by (simp add: delete_object_def retrievable_delete) (simp add: s3_delete_object_def)
qed

lemma sample_keys:
  "pdf_key sample_now ''RE010000'' = ''invoices/2024/RE010000.pdf''"
  "pdf_key later_now ''RE010000'' = ''invoices/2024/RE010000.pdf''"
  by (simp_all add: pdf_key_def str_int_def digits.simps digit_char_def sample_now_def later_now_def)

lemma remote_after_first:
  "\<not> use_local remote_storage \<and> versioning (bucket remote_storage)"
  "\<not> use_local (snd (store_pdf remote_storage sample_now ''RE010000'' ''first''))
   \<and> versioning (bucket (snd (store_pdf remote_storage sample_now ''RE010000'' ''first'')))"
  "retrievable remote_storage ''invoices/2024/RE010000.pdf'' = []"
  by (simp_all add: store_pdf_def Let_def put_object_def remote_storage_def empty_bucket_def
      retrievable_def)

theorem versioned_store_append_only_witness:
  "\<not> use_local (snd (store_pdf remote_storage sample_now ''RE010000'' ''first''))
   \<and> versioning (bucket (snd (store_pdf remote_storage sample_now ''RE010000'' ''first'')))
   \<and> retrievable (snd (store_pdf remote_storage sample_now ''RE010000'' ''first''))
        ''invoices/2024/RE010000.pdf'' = [''first'']
   \<and> retrievable
        (snd (store_pdf (snd (store_pdf remote_storage sample_now ''RE010000'' ''first''))
                later_now ''RE010000'' ''second''))
        ''invoices/2024/RE010000.pdf'' = [''second'', ''first'']"
proof -
  let ?st1 = "snd (store_pdf remote_storage sample_now ''RE010000'' ''first'')"
  let ?key = "''invoices/2024/RE010000.pdf''"
  from versioned_store_append_only
         [of remote_storage sample_now "''RE010000''" "''first''" ?key]
       remote_after_first(1)
  have "retrievable ?st1 ?key =
          (if ?key = pdf_key sample_now ''RE010000'' then [''first''] else [])
          @ retrievable remote_storage ?key"
    by blast
  then have one: "retrievable ?st1 ?key = [''first'']"
    unfolding sample_keys remote_after_first(3) by simp
  from versioned_store_append_only
         [of ?st1 later_now "''RE010000''" "''second''" ?key]
       remote_after_first(2)
  have "retrievable (snd (store_pdf ?st1 later_now ''RE010000'' ''second'')) ?key =
          (if ?key = pdf_key later_now ''RE010000'' then [''second''] else [])
          @ retrievable ?st1 ?key"
    by blast
  then have two: "retrievable (snd (store_pdf ?st1 later_now ''RE010000'' ''second'')) ?key
      = [''second'', ''first'']"
    unfolding sample_keys one by simp
  from remote_after_first(2) one two show ?thesis
    by (intro conjI) simp_all
qed

text \<open>
  The claim as the specification words it, for both backends, fails on the local file
  system: a second \<^verbatim>\<open>store_pdf\<close> under the same key erases the first document, and
  \<^verbatim>\<open>list_versions\<close> reports nothing there.
\<close>

theorem local_overwrite_erases:
  "use_local local_storage
   \<and> retrievable (snd (store_pdf local_storage sample_now ''RE010000'' ''first''))
        ''invoices/2024/RE010000.pdf'' = [''first'']
   \<and> retrievable
        (snd (store_pdf (snd (store_pdf local_storage sample_now ''RE010000'' ''first''))
                later_now ''RE010000'' ''second''))
        ''invoices/2024/RE010000.pdf'' = [''second'']
   \<and> get_file
        (snd (store_pdf (snd (store_pdf local_storage sample_now ''RE010000'' ''first''))
                later_now ''RE010000'' ''second''))
        ''invoices/2024/RE010000.pdf'' = Inr ''second''
   \<and> list_versions
        (snd (store_pdf (snd (store_pdf local_storage sample_now ''RE010000'' ''first''))
                later_now ''RE010000'' ''second''))
        ''invoices/2024/RE010000.pdf'' = Inl (AttributeError ''list_object_versions'')"
  by (simp add: store_pdf_def Let_def sample_keys local_storage_def retrievable_def
      get_file_def list_versions_def)

subsection \<open>Required elements of the generated tree\<close>



lemma tag_simps [simp]: "tag (node t cs) = t" "tag (leaf t x) = t"
  by (simp_all add: node_def leaf_def)



subsection \<open>Line amounts and totals\<close>

lemma rhe_cases:
  "rhe x = \<lfloor>x\<rfloor> \<or> rhe x = \<lfloor>x\<rfloor> + 1"
  by (simp add: rhe_def Let_def)

lemma rhe_near: "\<bar>of_int (rhe x) - x\<bar> \<le> 1/2"
proof -
  let ?f = "\<lfloor>x\<rfloor>"
  have lo: "of_int ?f \<le> x" and hi: "x < of_int ?f + 1"
    by linarith+
  show ?thesis
  proof (cases "x - of_int ?f < 1/2")
    case True
    then have "rhe x = ?f" by (simp add: rhe_def Let_def)
    with True lo show ?thesis by simp
  next
    case False
    show ?thesis
    proof (cases "1/2 < x - of_int ?f")
      case True
      with False have "rhe x = ?f + 1" by (simp add: rhe_def Let_def)
      with True hi show ?thesis by simp
    next
      case tie: False
      with False have d: "x - of_int ?f = 1/2" by simp
      from rhe_cases [of x] show ?thesis
      proof
        assume "rhe x = ?f"
        with d show ?thesis by simp
      next
        assume "rhe x = ?f + 1"
        with d show ?thesis by simp
      qed
    qed
  qed
qed

lemma rhe_tie_even: "\<bar>of_int (rhe x) - x\<bar> = 1/2 \<Longrightarrow> even (rhe x)"
proof -
  assume tie: "\<bar>of_int (rhe x) - x\<bar> = 1/2"
  let ?f = "\<lfloor>x\<rfloor>"
  have lo: "of_int ?f \<le> x" and hi: "x < of_int ?f + 1"
    by linarith+
  have d: "x - of_int ?f = 1/2"
  proof (rule ccontr)
    assume nd: "x - of_int ?f \<noteq> 1/2"
    show False
    proof (cases "x - of_int ?f < 1/2")
      case True
      then have "rhe x = ?f" by (simp add: rhe_def Let_def)
      with tie True lo show False by simp
    next
      case False
      with nd have gt: "1/2 < x - of_int ?f" by simp
      with False have "rhe x = ?f + 1" by (simp add: rhe_def Let_def)
      with tie gt hi show False by simp
    qed
  qed
  then show "even (rhe x)"
    by (simp add: rhe_def Let_def)
qed

lemma totals_loop_general:
  "totals_loop idx items (rows, n, t) =
     (rows @ map (\<lambda>(i, item). compute_line i item) (zip [idx..<idx + length items] items),
      foldl fadd n (map line_net (map (\<lambda>(i, item). compute_line i item) (zip [idx..<idx + length items] items))),
      foldl fadd t (map tax_amount (map (\<lambda>(i, item). compute_line i item) (zip [idx..<idx + length items] items))))"
proof (induction items arbitrary: idx rows n t)
  case Nil
  show ?case by simp
next
  case (Cons item items)
  have upt: "[idx..<idx + length (item # items)] = idx # [Suc idx..<Suc idx + length items]"
    by (simp add: upt_rec)
  have "totals_loop idx (item # items) (rows, n, t) =
      totals_loop (Suc idx) items
        (rows @ [compute_line idx item], fadd n (line_net (compute_line idx item)),
         fadd t (tax_amount (compute_line idx item)))"
    by (simp add: Let_def)
  then show ?case
    unfolding upt Cons.IH by simp
qed

lemma calculate_totals_eq:
  "calculate_totals items =
     (let rows = map (\<lambda>(i, item). compute_line i item) (zip [1..<Suc (length items)] items);
          net = foldl fadd 0 (map line_net rows);
          tax = foldl fadd 0 (map tax_amount rows)
      in (rows, net, tax, py_round2 (fadd net tax)))"
  by (simp add: calculate_totals_def totals_loop_general Let_def)

lemma position_compute_line: "position (compute_line i item) = i"
  by (simp add: compute_line_def Let_def)

lemma positions_contiguous:
  "map position (fst (calculate_totals items)) = [1..<Suc (length items)]"
proof -
  have "map position (map (\<lambda>(i, item). compute_line i item) (zip [1..<Suc (length items)] items))
      = map fst (zip [1..<Suc (length items)] items)"
    by (simp add: split_def position_compute_line)
  also have "\<dots> = [1..<Suc (length items)]"
    by (simp add: map_fst_zip)
  finally show ?thesis
    by (simp add: calculate_totals_eq Let_def)
qed

lemma sample_line:
  "py_round2 (fmul 3 (fl (10005 / 1000))) = fl (3002 / 100)"
  "py_round2 (fdiv (fmul (fl (3002 / 100)) 19) 100) = fl (570 / 100)"
  "py_round2 (fadd (fl (3002 / 100)) (fl (570 / 100))) = fl (3572 / 100)"
  "fadd 0 (fl (3002 / 100)) = fl (3002 / 100)"
  "fadd 0 (fl (570 / 100)) = fl (570 / 100)"
  by code_simp+

lemma sample_cents:
  "rhe (\<bar>fl (3002 / 100)\<bar> * 100) = 3002"
  "rhe (\<bar>fl (570 / 100)\<bar> * 100) = 570"
  "rhe (\<bar>fl (3572 / 100)\<bar> * 100) = 3572"
  by code_simp+

lemma sample_sign:
  "\<not> fl (3002 / 100) < 0" "\<not> fl (570 / 100) < 0" "\<not> fl (3572 / 100) < 0"
  by code_simp+

lemma fmt_2f_cents:
  "rhe (\<bar>x\<bar> * 100) = n \<Longrightarrow> \<not> x < 0 \<Longrightarrow>
   fmt_2f x = digits (nat n div 100) @ ''.'' @ zfill 2 (digits (nat n mod 100))"
  by (simp add: fmt_2f_def Let_def)

lemma cents_digits:
  "digits (nat 3002 div 100) @ ''.'' @ zfill 2 (digits (nat 3002 mod 100)) = ''30.02''"
  "digits (nat 570 div 100) @ ''.'' @ zfill 2 (digits (nat 570 mod 100)) = ''5.70''"
  "digits (nat 3572 div 100) @ ''.'' @ zfill 2 (digits (nat 3572 mod 100)) = ''35.72''"
  by (simp_all add: zfill_def digits.simps digit_char_def)

lemma sample_rendering:
  "fmt_2f (fl (3002 / 100)) = ''30.02''"
  "fmt_2f (fl (570 / 100)) = ''5.70''"
  "fmt_2f (fl (3572 / 100)) = ''35.72''"
proof -
  show "fmt_2f (fl (3002 / 100)) = ''30.02''"
    using fmt_2f_cents [OF sample_cents(1) sample_sign(1)] unfolding cents_digits .
  show "fmt_2f (fl (570 / 100)) = ''5.70''"
    using fmt_2f_cents [OF sample_cents(2) sample_sign(2)] unfolding cents_digits .
  show "fmt_2f (fl (3572 / 100)) = ''35.72''"
    using fmt_2f_cents [OF sample_cents(3) sample_sign(3)] unfolding cents_digits .
qed

lemma sample_compute_line:
  "line_net (compute_line 1 sample_item) = fl (3002 / 100)"
  "tax_amount (compute_line 1 sample_item) = fl (570 / 100)"
  "line_gross (compute_line 1 sample_item) = fl (3572 / 100)"
proof -
  have n: "line_net (compute_line 1 sample_item) = py_round2 (fmul 3 (fl (10005 / 1000)))"
    by (simp add: compute_line_def sample_item_def Let_def)
  then show net: "line_net (compute_line 1 sample_item) = fl (3002 / 100)"
    unfolding sample_line(1) .
  have t: "tax_amount (compute_line 1 sample_item)
      = py_round2 (fdiv (fmul (line_net (compute_line 1 sample_item)) 19) 100)"
    by (simp add: compute_line_def sample_item_def Let_def)
  then show tax: "tax_amount (compute_line 1 sample_item) = fl (570 / 100)"
    unfolding net sample_line(2) .
  have g: "line_gross (compute_line 1 sample_item)
      = py_round2 (fadd (line_net (compute_line 1 sample_item)) (tax_amount (compute_line 1 sample_item)))"
    by (simp add: compute_line_def sample_item_def Let_def)
  then show "line_gross (compute_line 1 sample_item) = fl (3572 / 100)"
    unfolding net tax sample_line(3) .
qed

lemma eighth_values:
  "fl (1 / 8) = 1 / 8"
  "py_round2 (fmul 1 (1 / 8)) = fl (12 / 100)"
  "round_half_up2 (1 / 8) = 13 / 100"
  "fl (12 / 100) \<noteq> fl (13 / 100)"
  "fl (12 / 100) \<noteq> 13 / 100"
  "rhe (\<bar>fl (12 / 100)\<bar> * 100) = 12"
  "\<not> fl (12 / 100) < 0"
  by code_simp+

lemma tie_example: "rhe (25 / 2) = 12"
  by code_simp

text \<open>
  Claim C2, as the code has it. For every line item: net = round(q*p, 2), tax_amount =
  round(net*r/100, 2), gross = round(net+tax_amount, 2), where the products, the quotient
  and the sum are double operations and round is Python's float \<^verbatim>\<open>round\<close>: the value is
  scaled to cents, taken to the nearest integer with an exact tie going to the even one
  (not half-up), and the nearest double of that many hundredths is returned. The input
  \<^verbatim>\<open>{quantity=3, unit_price=10.005, tax_rate=19}\<close> yields 30.02, 5.70 and 35.72. The rows
  are numbered 1, 2, \<dots> in request order; the invoice net and tax totals are the running
  double sums of the rounded line nets and line taxes, and the gross total is
  round(net total + tax total, 2).
\<close>

theorem line_amounts_python_rounding:
  "line_net (compute_line idx item) = py_round2 (fmul (quantity item) (unit_price item))
   \<and> tax_amount (compute_line idx item)
       = py_round2 (fdiv (fmul (line_net (compute_line idx item)) (tax_rate item)) 100)
   \<and> line_gross (compute_line idx item)
       = py_round2 (fadd (line_net (compute_line idx item)) (tax_amount (compute_line idx item)))
   \<and> py_round2 x = fl (of_int (rhe (x * 100)) / 100)
   \<and> \<bar>of_int (rhe y) - y\<bar> \<le> 1 / 2
   \<and> (\<bar>of_int (rhe y) - y\<bar> = 1 / 2 \<longrightarrow> even (rhe y))
   \<and> line_net (compute_line 1 sample_item) = fl (3002 / 100)
   \<and> tax_amount (compute_line 1 sample_item) = fl (570 / 100)
   \<and> line_gross (compute_line 1 sample_item) = fl (3572 / 100)
   \<and> fmt_2f (line_net (compute_line 1 sample_item)) = ''30.02''
   \<and> fmt_2f (tax_amount (compute_line 1 sample_item)) = ''5.70''
   \<and> fmt_2f (line_gross (compute_line 1 sample_item)) = ''35.72''
   \<and> fst (calculate_totals items)
       = map (\<lambda>(i, item). compute_line i item) (zip [1..<Suc (length items)] items)
   \<and> map position (fst (calculate_totals items)) = [1..<Suc (length items)]
   \<and> fst (snd (calculate_totals items)) = foldl fadd 0 (map line_net (fst (calculate_totals items)))
   \<and> fst (snd (snd (calculate_totals items)))
       = foldl fadd 0 (map tax_amount (fst (calculate_totals items)))
   \<and> snd (snd (snd (calculate_totals items)))
       = py_round2 (fadd (fst (snd (calculate_totals items))) (fst (snd (snd (calculate_totals items)))))"
proof (intro conjI impI)
  show "line_net (compute_line idx item) = py_round2 (fmul (quantity item) (unit_price item))"
    by (simp add: compute_line_def Let_def)
  show "tax_amount (compute_line idx item)
       = py_round2 (fdiv (fmul (line_net (compute_line idx item)) (tax_rate item)) 100)"
    by (simp add: compute_line_def Let_def)
  show "line_gross (compute_line idx item)
       = py_round2 (fadd (line_net (compute_line idx item)) (tax_amount (compute_line idx item)))"
    by (simp add: compute_line_def Let_def)
  show "py_round2 x = fl (of_int (rhe (x * 100)) / 100)"
    by (simp add: py_round2_def)
  show "\<bar>of_int (rhe y) - y\<bar> \<le> 1 / 2"
    by (rule rhe_near)
  show "even (rhe y)" if "\<bar>of_int (rhe y) - y\<bar> = 1 / 2"
    using that by (rule rhe_tie_even)
  show "line_net (compute_line 1 sample_item) = fl (3002 / 100)"
    by (rule sample_compute_line)
  show "tax_amount (compute_line 1 sample_item) = fl (570 / 100)"
    by (rule sample_compute_line)
  show "line_gross (compute_line 1 sample_item) = fl (3572 / 100)"
    by (rule sample_compute_line)
  show "fmt_2f (line_net (compute_line 1 sample_item)) = ''30.02''"
    unfolding sample_compute_line by (rule sample_rendering)
  show "fmt_2f (tax_amount (compute_line 1 sample_item)) = ''5.70''"
    unfolding sample_compute_line by (rule sample_rendering)
  show "fmt_2f (line_gross (compute_line 1 sample_item)) = ''35.72''"
    unfolding sample_compute_line by (rule sample_rendering)
  show "fst (calculate_totals items)
       = map (\<lambda>(i, item). compute_line i item) (zip [1..<Suc (length items)] items)"
    by (simp add: calculate_totals_eq Let_def)
  show "map position (fst (calculate_totals items)) = [1..<Suc (length items)]"
    by (rule positions_contiguous)
  show "fst (snd (calculate_totals items)) = foldl fadd 0 (map line_net (fst (calculate_totals items)))"
    by (simp add: calculate_totals_eq Let_def)
  show "fst (snd (snd (calculate_totals items)))
       = foldl fadd 0 (map tax_amount (fst (calculate_totals items)))"
    by (simp add: calculate_totals_eq Let_def)
  show "snd (snd (snd (calculate_totals items)))
       = py_round2 (fadd (fst (snd (calculate_totals items))) (fst (snd (snd (calculate_totals items)))))"
    by (simp add: calculate_totals_eq Let_def)
qed

theorem line_amounts_python_rounding_witness:
  "\<bar>of_int (rhe (25 / 2)) - 25 / 2\<bar> = (1 / 2 :: rat)
   \<and> even (rhe (25 / 2))
   \<and> rhe (25 / 2) = 12
   \<and> map position (fst (calculate_totals [sample_item, eighth_item])) = [1, 2]"
proof -
  have tie: "\<bar>of_int (rhe (25 / 2)) - 25 / 2\<bar> = (1 / 2 :: rat)"
    unfolding tie_example by simp
  note inst = line_amounts_python_rounding [where y = "25 / 2" and items = "[sample_item, eighth_item]"]
  from inst tie have ev: "even (rhe (25 / 2))"
    by blast
  from inst have "map position (fst (calculate_totals [sample_item, eighth_item]))
      = [1..<Suc (length [sample_item, eighth_item])]"
    by blast
  then have pos: "map position (fst (calculate_totals [sample_item, eighth_item])) = [1, 2]"
    by (simp add: upt_rec)
  from tie ev tie_example pos show ?thesis
    by (intro conjI)
qed

text \<open>
  The claim as the specification words it fails: for one unit at 0.125 with no tax the
  product is exactly 0.125, half-up rounding gives 0.13, and the code stores 0.12.
\<close>

theorem half_up_rounding_fails:
  "valid_line_item eighth_item
   \<and> unit_price eighth_item = fl (1 / 8)
   \<and> quantity eighth_item * unit_price eighth_item = 1 / 8
   \<and> round_half_up2 (quantity eighth_item * unit_price eighth_item) = 13 / 100
   \<and> line_net (compute_line 1 eighth_item) = fl (12 / 100)
   \<and> fmt_2f (line_net (compute_line 1 eighth_item)) = ''0.12''
   \<and> line_net (compute_line 1 eighth_item)
       \<noteq> fl (round_half_up2 (quantity eighth_item * unit_price eighth_item))
   \<and> line_net (compute_line 1 eighth_item)
       \<noteq> round_half_up2 (quantity eighth_item * unit_price eighth_item)"
proof -
  have valid: "valid_line_item eighth_item"
    by (simp add: valid_line_item_def eighth_item_def)
  have price: "unit_price eighth_item = fl (1 / 8)"
    unfolding eighth_values(1) by (simp add: eighth_item_def)
  have prod: "quantity eighth_item * unit_price eighth_item = 1 / 8"
    by (simp add: eighth_item_def)
  have up: "round_half_up2 (quantity eighth_item * unit_price eighth_item) = 13 / 100"
    unfolding prod by (rule eighth_values)
  have "line_net (compute_line 1 eighth_item) = py_round2 (fmul 1 (1 / 8))"
    by (simp add: compute_line_def eighth_item_def Let_def)
  then have net: "line_net (compute_line 1 eighth_item) = fl (12 / 100)"
    unfolding eighth_values(2) .
  have "digits (nat 12 div 100) @ ''.'' @ zfill 2 (digits (nat 12 mod 100)) = ''0.12''"
    by (simp add: zfill_def digits.simps digit_char_def)
  with fmt_2f_cents [OF eighth_values(6) eighth_values(7)]
  have shown: "fmt_2f (line_net (compute_line 1 eighth_item)) = ''0.12''"
    unfolding net by simp
  have ne1: "line_net (compute_line 1 eighth_item)
       \<noteq> fl (round_half_up2 (quantity eighth_item * unit_price eighth_item))"
    unfolding net up by (rule eighth_values)
  have ne2: "line_net (compute_line 1 eighth_item)
       \<noteq> round_half_up2 (quantity eighth_item * unit_price eighth_item)"
    unfolding net up by (rule eighth_values)
  from valid price prod up net shown ne1 ne2 show ?thesis
    by (intro conjI)
qed

subsection \<open>The totals in the documents\<close>

lemma find_append_None: "find P xs = None \<Longrightarrow> find P (xs @ ys) = find P ys"
  by (induction xs) (auto split: if_splits)

lemma find_concat_None:
  "(\<And>x. x \<in> set xs \<Longrightarrow> find P (f x) = None) \<Longrightarrow> find P (concat (map f xs)) = None"
  by (induction xs) (simp_all add: find_append_None)

lemma namespaces_differ: "RSM a \<noteq> RAM b" "UDT a \<noteq> RAM b"
  by (simp_all add: RSM_def RAM_def UDT_def ns_rsm_def ns_ram_def ns_udt_def)

lemma RAM_eq [simp]: "RAM a = RAM b \<longleftrightarrow> a = b"
  by (simp add: RAM_def)

lemma digits_chars: "set (digits n) \<subseteq> set ''0123456789''"
proof (induction n rule: digits.induct)
  case (1 n)
  have dc: "digit_char d \<in> set ''0123456789''" if "d < 10" for d
    using below_ten_cases [OF that] by (auto simp: digit_char_def)
  show ?case
  proof (cases "n < 10")
    case True
    then show ?thesis
      using dc [of n] by (subst digits.simps) simp
  next
    case False
    then have "set (digits (n div 10)) \<subseteq> set ''0123456789''"
      using "1.IH" by simp
    moreover have "digit_char (n mod 10) \<in> set ''0123456789''"
      by (rule dc) simp
    ultimately show ?thesis
      using False by (subst digits.simps) simp
  qed
qed

lemma issue_xml_tree:
  "issue_xml L number d amounts = etree_tostring L (issue_tree L number d amounts)"
  by (simp add: issue_xml_def issue_tree_def zugferd_generate_def split_def)

lemma issue_pdf_story:
  "issue_pdf L now number d amounts xml =
     (case reportlab_build L (issue_story number d amounts) of
        Inl e \<Rightarrow> Inl e
      | Inr pdf_bytes \<Rightarrow>
          if xml \<noteq> [] then embed_zugferd_xml L now pdf_bytes xml number else Inr pdf_bytes)"
  by (simp add: issue_pdf_def issue_story_def pdf_generate_def split_def)

lemma create_invoice_gross:
  "fst (create_invoice L cfg now d u w) = Inr row \<Longrightarrow> gross_total row = grand_total_of d"
  by (auto simp: create_invoice_def Let_def split_def grand_total_of_def split: sum.splits)

lemma sample_grand_total: "grand_total_of sample_request = fl (3572 / 100)"
proof -
  have "grand_total_of sample_request
      = py_round2 (fadd (fadd 0 (line_net (compute_line 1 sample_item)))
                        (fadd 0 (tax_amount (compute_line 1 sample_item))))"
    by (simp add: grand_total_of_def sample_request_def calculate_totals_eq Let_def)
  then show ?thesis
    unfolding sample_compute_line sample_line .
qed

lemma line_item_no_total:
  "tname \<in> {''TaxBasisTotalAmount'', ''TaxTotalAmount'', ''GrandTotalAmount''} \<Longrightarrow>
   find (\<lambda>e. tag e = RAM tname)
     (line_item_element L item # descendants (line_item_element L item)) = None"
  by (elim insertE emptyE; hypsubst)
     (simp_all add: line_item_element_def node_def leaf_def)

lemma xml_total_rest:
  "find (\<lambda>e. tag e = RAM tname) (concat (map (\<lambda>c. c # descendants c)
        [ node (RAM ''ApplicableHeaderTradeAgreement'') [seller_trade_party sel, buyer_trade_party buy],
          header_trade_delivery None None,
          header_trade_settlement rows net tax gross cur None ]))
      = (if tname = ''TaxBasisTotalAmount'' then Some (leaf (RAM ''TaxBasisTotalAmount'') (fmt_2f net))
         else if tname = ''TaxTotalAmount''
           then Some (Element (RAM ''TaxTotalAmount'') [(''currencyID'', cur)] (Some (fmt_2f tax)) [])
         else Some (leaf (RAM ''GrandTotalAmount'') (fmt_2f gross)))"
  if "tname \<in> {''TaxBasisTotalAmount'', ''TaxTotalAmount'', ''GrandTotalAmount''}"
  using that
  by (elim insertE emptyE; hypsubst)
     (simp_all add: node_def leaf_def seller_trade_party_def buyer_trade_party_def
        postal_trade_address_def tax_registration_def header_trade_delivery_def
        header_trade_settlement_def monetary_summation_def truthy_def split: list.splits)

lemma find_total_tree:
  assumes "tname \<in> {''TaxBasisTotalAmount'', ''TaxTotalAmount'', ''GrandTotalAmount''}"
  shows "find_path (zugferd_tree L n issue sel buy rows net tax gross cur None None None) (RAM tname)
     = (if tname = ''TaxBasisTotalAmount'' then Some (leaf (RAM ''TaxBasisTotalAmount'') (fmt_2f net))
        else if tname = ''TaxTotalAmount''
          then Some (Element (RAM ''TaxTotalAmount'') [(''currencyID'', cur)] (Some (fmt_2f tax)) [])
        else Some (leaf (RAM ''GrandTotalAmount'') (fmt_2f gross)))"
proof -
  let ?P = "\<lambda>e. tag e = RAM tname"
  have lines: "find ?P (concat (map (\<lambda>c. c # descendants c) (map (line_item_element L) rows))) = None"
    by (rule find_concat_None) (auto simp: line_item_no_total [OF assms] simp del: find.simps)
  have "find_path (zugferd_tree L n issue sel buy rows net tax gross cur None None None) (RAM tname)
        = find ?P (concat (map (\<lambda>c. c # descendants c) (map (line_item_element L) rows))
             @ concat (map (\<lambda>c. c # descendants c)
        [ node (RAM ''ApplicableHeaderTradeAgreement'') [seller_trade_party sel, buyer_trade_party buy],
          header_trade_delivery None None,
          header_trade_settlement rows net tax gross cur None ]))"
    using assms
    by (elim insertE emptyE; hypsubst)
       (simp_all add: find_path_def zugferd_tree_def node_def leaf_def date_time_string_def
        namespaces_differ)
  also have "\<dots> =
       (if tname = ''TaxBasisTotalAmount'' then Some (leaf (RAM ''TaxBasisTotalAmount'') (fmt_2f net))
         else if tname = ''TaxTotalAmount''
           then Some (Element (RAM ''TaxTotalAmount'') [(''currencyID'', cur)] (Some (fmt_2f tax)) [])
         else Some (leaf (RAM ''GrandTotalAmount'') (fmt_2f gross)))"
    unfolding find_append_None [OF lines] by (rule xml_total_rest [OF assms])
  finally show ?thesis .
qed

lemma xml_total_tree:
  assumes "tname \<in> {''TaxBasisTotalAmount'', ''TaxTotalAmount'', ''GrandTotalAmount''}"
  shows "xml_total (zugferd_tree L n issue sel buy rows net tax gross cur None None None) tname
     = Some (fmt_2f (if tname = ''TaxBasisTotalAmount'' then net
                     else if tname = ''TaxTotalAmount'' then tax else gross))"
  unfolding xml_total_def find_total_tree [OF assms]
  using assms by (elim insertE emptyE; hypsubst) (simp_all add: leaf_def)

lemma position_not_total_label:
  assumes "label \<in> {''Nettobetrag:'', ''MwSt.:'', ''Gesamtbetrag:''}"
  shows "str_int (int n) \<noteq> label"
proof
  assume "str_int (int n) = label"
  then have "digits n = label"
    by (simp add: str_int_def)
  then have "CHR '':'' \<in> set (digits n)"
    using assms by (elim insertE emptyE; hypsubst) simp_all
  with digits_chars [of n] show False by auto
qed

lemma pdf_total_story:
  assumes "label \<in> {''Nettobetrag:'', ''MwSt.:'', ''Gesamtbetrag:''}"
  shows "pdf_total (pdf_story n issue sel buy rows net tax gross cur nts terms) label
     = Some (fmt_2f (if label = ''Nettobetrag:'' then net
                     else if label = ''MwSt.:'' then tax else gross) @ '' '' @ cur)"
proof -
  let ?P = "\<lambda>r. take 1 r = [Str label]"
  let ?amount = "fmt_2f (if label = ''Nettobetrag:'' then net
                     else if label = ''MwSt.:'' then tax else gross) @ '' '' @ cur"
  let ?pre = "[[Para (buyer_block buy), Para (seller_block sel)]] @ details_data n issue
        @ [[Str ''Pos.'', Str ''Beschreibung'', Str ''Menge'', Str ''Einheit'', Str ''Preis'',
            Str ''MwSt.'', Str ''Gesamt'']]"
  have items: "find ?P (map (line_item_row cur) rows) = None"
    by (induction rows) (simp_all add: line_item_row_def position_not_total_label [OF assms])
  have pre: "find ?P ?pre = None"
    using assms by (elim insertE emptyE; hypsubst) (simp_all add: details_data_def)
  have tot: "find ?P (totals_data net tax gross cur) = Some [Str label, Str ?amount]"
    using assms by (elim insertE emptyE; hypsubst) (simp_all add: totals_data_def)
  have eq: "concat (map table_rows (pdf_story n issue sel buy rows net tax gross cur nts terms))
      = ?pre @ (map (line_item_row cur) rows @ totals_data net tax gross cur)"
    by (auto simp: pdf_story_def line_items_table_def)
  have "find ?P (concat (map table_rows (pdf_story n issue sel buy rows net tax gross cur nts terms)))
      = Some [Str label, Str ?amount]"
    unfolding eq find_append_None [OF pre] find_append_None [OF items] tot ..
  then show ?thesis
    unfolding pdf_total_def by simp
qed

lemma space_not_digit: "CHR '' '' \<notin> set (digits n)"
  using digits_chars [of n] by auto

lemma space_not_in_fmt_2f: "CHR '' '' \<notin> set (fmt_2f x)"
  by (simp add: fmt_2f_def Let_def zfill_def space_not_digit)

lemma cell_amount_fmt_2f: "cell_amount (fmt_2f x @ '' '' @ cur) = fmt_2f x"
proof -
  have "\<forall>c \<in> set (fmt_2f x). c \<noteq> CHR '' ''"
    using space_not_in_fmt_2f [of x] by auto
  then have "takeWhile (\<lambda>c. c \<noteq> CHR '' '') (fmt_2f x @ CHR '' '' # cur) = fmt_2f x"
    by (rule span_sep [THEN conjunct1]) simp
  then show ?thesis
    by (simp add: cell_amount_def)
qed

lemma create_invoice_totals:
  assumes "fst (create_invoice L cfg now d u w) = Inr row"
  shows "net_total row = net_total_of d" and "tax_total row = tax_total_of d"
    and "gross_total row = grand_total_of d"
  using assms
  by (auto simp: create_invoice_def Let_def split_def net_total_of_def tax_total_of_def
      grand_total_of_def split: sum.splits)

lemma xml_total_issue:
  assumes "tname \<in> {''TaxBasisTotalAmount'', ''TaxTotalAmount'', ''GrandTotalAmount''}"
  shows "xml_total (issue_tree L number d (calculate_totals (line_items d))) tname
     = Some (fmt_2f (if tname = ''TaxBasisTotalAmount'' then net_total_of d
                     else if tname = ''TaxTotalAmount'' then tax_total_of d else grand_total_of d))"
  by (simp add: issue_tree_def split_def Let_def xml_total_tree [OF assms] grand_total_of_def
      net_total_of_def tax_total_of_def)

lemma pdf_total_issue:
  assumes "label \<in> {''Nettobetrag:'', ''MwSt.:'', ''Gesamtbetrag:''}"
  shows "pdf_total (issue_story number d (calculate_totals (line_items d))) label
     = Some (fmt_2f (if label = ''Nettobetrag:'' then net_total_of d
                     else if label = ''MwSt.:'' then tax_total_of d else grand_total_of d)
             @ '' '' @ currency d)"
  by (simp add: issue_story_def split_def Let_def pdf_total_story [OF assms] grand_total_of_def
      net_total_of_def tax_total_of_def)

lemma totals_in_documents:
  "xml_total (issue_tree L number d (calculate_totals (line_items d))) ''GrandTotalAmount''
     = Some (fmt_2f (grand_total_of d))"
  "xml_total (issue_tree L number d (calculate_totals (line_items d))) ''TaxBasisTotalAmount''
     = Some (fmt_2f (net_total_of d))"
  "xml_total (issue_tree L number d (calculate_totals (line_items d))) ''TaxTotalAmount''
     = Some (fmt_2f (tax_total_of d))"
  "pdf_total (issue_story number d (calculate_totals (line_items d))) ''Gesamtbetrag:''
     = Some (fmt_2f (grand_total_of d) @ '' '' @ currency d)"
  "pdf_total (issue_story number d (calculate_totals (line_items d))) ''Nettobetrag:''
     = Some (fmt_2f (net_total_of d) @ '' '' @ currency d)"
  "pdf_total (issue_story number d (calculate_totals (line_items d))) ''MwSt.:''
     = Some (fmt_2f (tax_total_of d) @ '' '' @ currency d)"
  by (simp_all add: xml_total_issue pdf_total_issue)

text \<open>
  Claim C3. For every draft the grand total is one string in all three places: the text of
  \<^verbatim>\<open>GrandTotalAmount\<close> in the structured document, the amount printed in the
  \<^verbatim>\<open>Gesamtbetrag:\<close> cell of the visual document (where the currency code follows it after
  a space), and the two-decimal rendering of the persisted \<^verbatim>\<open>gross_total\<close> are all
  \<^verbatim>\<open>f"{gross_total:.2f}"\<close> of the same number. The net and the tax total agree between
  the two documents and the persisted row in the same way. These strings are functions of
  the draft alone: they depend neither on the invoice number, the clock, the libraries
  nor the stored state.
\<close>

theorem grand_total_agreement:
  "xml_total (issue_tree L number d (calculate_totals (line_items d))) ''GrandTotalAmount''
     = Some (fmt_2f (grand_total_of d))
   \<and> map_option cell_amount
        (pdf_total (issue_story number d (calculate_totals (line_items d))) ''Gesamtbetrag:'')
     = Some (fmt_2f (grand_total_of d))
   \<and> pdf_total (issue_story number d (calculate_totals (line_items d))) ''Gesamtbetrag:''
     = Some (fmt_2f (grand_total_of d) @ '' '' @ currency d)
   \<and> xml_total (issue_tree L number d (calculate_totals (line_items d))) ''TaxBasisTotalAmount''
     = Some (fmt_2f (net_total_of d))
   \<and> map_option cell_amount
        (pdf_total (issue_story number d (calculate_totals (line_items d))) ''Nettobetrag:'')
     = Some (fmt_2f (net_total_of d))
   \<and> xml_total (issue_tree L number d (calculate_totals (line_items d))) ''TaxTotalAmount''
     = Some (fmt_2f (tax_total_of d))
   \<and> map_option cell_amount
        (pdf_total (issue_story number d (calculate_totals (line_items d))) ''MwSt.:'')
     = Some (fmt_2f (tax_total_of d))
   \<and> issue_xml L number d (calculate_totals (line_items d))
     = etree_tostring L (issue_tree L number d (calculate_totals (line_items d)))
   \<and> issue_pdf L now number d (calculate_totals (line_items d)) xml =
       (case reportlab_build L (issue_story number d (calculate_totals (line_items d))) of
          Inl e \<Rightarrow> Inl e
        | Inr pdf_bytes \<Rightarrow>
            if xml \<noteq> [] then embed_zugferd_xml L now pdf_bytes xml number else Inr pdf_bytes)
   \<and> (\<forall>row. fst (create_invoice L cfg now d u w) = Inr row \<longrightarrow>
          gross_total row = grand_total_of d
        \<and> net_total row = net_total_of d
        \<and> tax_total row = tax_total_of d
        \<and> xml_total (issue_tree L (invoice_number row) d (calculate_totals (line_items d)))
             ''GrandTotalAmount'' = Some (fmt_2f (gross_total row))
        \<and> map_option cell_amount
             (pdf_total (issue_story (invoice_number row) d (calculate_totals (line_items d)))
                ''Gesamtbetrag:'') = Some (fmt_2f (gross_total row)))"
proof (intro conjI allI impI)
  show "xml_total (issue_tree L number d (calculate_totals (line_items d))) ''GrandTotalAmount''
     = Some (fmt_2f (grand_total_of d))"
    by (rule totals_in_documents)
  show "map_option cell_amount
        (pdf_total (issue_story number d (calculate_totals (line_items d))) ''Gesamtbetrag:'')
     = Some (fmt_2f (grand_total_of d))"
    unfolding totals_in_documents option.map by (simp only: cell_amount_fmt_2f)
  show "pdf_total (issue_story number d (calculate_totals (line_items d))) ''Gesamtbetrag:''
     = Some (fmt_2f (grand_total_of d) @ '' '' @ currency d)"
    by (rule totals_in_documents)
  show "xml_total (issue_tree L number d (calculate_totals (line_items d))) ''TaxBasisTotalAmount''
     = Some (fmt_2f (net_total_of d))"
    by (rule totals_in_documents)
  show "map_option cell_amount
        (pdf_total (issue_story number d (calculate_totals (line_items d))) ''Nettobetrag:'')
     = Some (fmt_2f (net_total_of d))"
    unfolding totals_in_documents option.map by (simp only: cell_amount_fmt_2f)
  show "xml_total (issue_tree L number d (calculate_totals (line_items d))) ''TaxTotalAmount''
     = Some (fmt_2f (tax_total_of d))"
    by (rule totals_in_documents)
  show "map_option cell_amount
        (pdf_total (issue_story number d (calculate_totals (line_items d))) ''MwSt.:'')
     = Some (fmt_2f (tax_total_of d))"
    unfolding totals_in_documents option.map by (simp only: cell_amount_fmt_2f)
  show "issue_xml L number d (calculate_totals (line_items d))
     = etree_tostring L (issue_tree L number d (calculate_totals (line_items d)))"
    by (rule issue_xml_tree)
  show "issue_pdf L now number d (calculate_totals (line_items d)) xml =
       (case reportlab_build L (issue_story number d (calculate_totals (line_items d))) of
          Inl e \<Rightarrow> Inl e
        | Inr pdf_bytes \<Rightarrow>
            if xml \<noteq> [] then embed_zugferd_xml L now pdf_bytes xml number else Inr pdf_bytes)"
    by (rule issue_pdf_story)
next
  fix row
  assume row: "fst (create_invoice L cfg now d u w) = Inr row"
  show g: "gross_total row = grand_total_of d"
    using row by (rule create_invoice_totals)
  show "net_total row = net_total_of d"
    using row by (rule create_invoice_totals)
  show "tax_total row = tax_total_of d"
    using row by (rule create_invoice_totals)
  show "xml_total (issue_tree L (invoice_number row) d (calculate_totals (line_items d)))
             ''GrandTotalAmount'' = Some (fmt_2f (gross_total row))"
    unfolding g by (rule totals_in_documents)
  show "map_option cell_amount
             (pdf_total (issue_story (invoice_number row) d (calculate_totals (line_items d)))
                ''Gesamtbetrag:'') = Some (fmt_2f (gross_total row))"
    unfolding g totals_in_documents option.map by (simp only: cell_amount_fmt_2f)
qed

theorem grand_total_agreement_witness:
  "\<exists>row. fst (create_invoice sample_libs default_settings sample_now sample_request 7 sample_world)
           = Inr row
      \<and> gross_total row = fl (3572 / 100)
      \<and> xml_total (issue_tree sample_libs (invoice_number row) sample_request
           (calculate_totals (line_items sample_request))) ''GrandTotalAmount'' = Some ''35.72''
      \<and> map_option cell_amount
           (pdf_total (issue_story (invoice_number row) sample_request
              (calculate_totals (line_items sample_request))) ''Gesamtbetrag:'') = Some ''35.72''
      \<and> pdf_total (issue_story (invoice_number row) sample_request
              (calculate_totals (line_items sample_request))) ''Gesamtbetrag:'' = Some ''35.72 EUR''"
proof -
  obtain row where row:
    "fst (create_invoice sample_libs default_settings sample_now sample_request 7 sample_world) = Inr row"
    using create_invoice_success [OF sample_run_steps] by blast
  note all = grand_total_agreement
      [where L = sample_libs and cfg = default_settings and now = sample_now
         and d = sample_request and u = 7 and w = sample_world
         and number = "invoice_number row"]
  note inst = all [THEN conjunct2, THEN conjunct2, THEN conjunct2, THEN conjunct2, THEN conjunct2,
       THEN conjunct2, THEN conjunct2, THEN conjunct2, THEN conjunct2, rule_format, OF row]
  from inst have g: "gross_total row = fl (3572 / 100)"
    unfolding sample_grand_total by (rule conjunct1)
  from inst have "xml_total (issue_tree sample_libs (invoice_number row) sample_request
           (calculate_totals (line_items sample_request))) ''GrandTotalAmount''
        = Some (fmt_2f (gross_total row))"
    by (elim conjE)
  then have x: "xml_total (issue_tree sample_libs (invoice_number row) sample_request
           (calculate_totals (line_items sample_request))) ''GrandTotalAmount'' = Some ''35.72''"
    unfolding g sample_rendering .
  from inst have "map_option cell_amount
           (pdf_total (issue_story (invoice_number row) sample_request
              (calculate_totals (line_items sample_request))) ''Gesamtbetrag:'')
        = Some (fmt_2f (gross_total row))"
    by (elim conjE)
  then have p: "map_option cell_amount
           (pdf_total (issue_story (invoice_number row) sample_request
              (calculate_totals (line_items sample_request))) ''Gesamtbetrag:'') = Some ''35.72''"
    unfolding g sample_rendering .
  from all [THEN conjunct2, THEN conjunct2, THEN conjunct1]
  have "pdf_total (issue_story (invoice_number row) sample_request
              (calculate_totals (line_items sample_request))) ''Gesamtbetrag:''
        = Some (fmt_2f (grand_total_of sample_request) @ '' '' @ currency sample_request)" .
  then have c: "pdf_total (issue_story (invoice_number row) sample_request
              (calculate_totals (line_items sample_request))) ''Gesamtbetrag:'' = Some ''35.72 EUR''"
    unfolding sample_grand_total sample_rendering by (simp add: sample_request_def)
  from row g x p c show ?thesis by blast
qed

subsection \<open>Structured document check\<close>


lemma reads_back_children: "reads_back t doc \<Longrightarrow> list_all2 reads_back (children t) (children doc)"
  by (cases t) simp

lemma reads_back_leaf:
  "reads_back t doc \<Longrightarrow> children t = [] \<Longrightarrow> truthy (text' t) \<Longrightarrow> text' doc = text' t"
  by (cases t) simp







lemma RSM_eq [simp]: "RSM a = RSM b \<longleftrightarrow> a = b"
  by (simp add: RSM_def)










lemma checked_issuance_encoder_fails:
  assumes "issue_xml L (fst (generate_invoice_number cfg (sequence_rows (database w)))) d
             (calculate_totals (line_items d)) = Inl e"
  shows "create_invoice_checked L cfg now d u w = create_invoice L cfg now d u w"
  using assms by (simp add: create_invoice_checked_def create_invoice_def split_def Let_def)




subsection \<open>Hash of the stored document\<close>

lemma takeWhile_separator: "c \<notin> set xs \<Longrightarrow> takeWhile (\<lambda>x. x \<noteq> c) (xs @ c # r) = xs"
  by (induction xs) auto

lemma split_at_separator:
  assumes "xs @ c # r = ys @ c # r'" and "c \<notin> set xs" and "c \<notin> set ys"
  shows "r = r'"
proof -
  have "takeWhile (\<lambda>x. x \<noteq> c) (xs @ c # r) = xs"
    using assms(2) by (rule takeWhile_separator)
  moreover have "takeWhile (\<lambda>x. x \<noteq> c) (ys @ c # r') = ys"
    using assms(3) by (rule takeWhile_separator)
  ultimately have "xs = ys" using assms(1) by simp
  with assms(1) show ?thesis by simp
qed

lemma slash_not_digit: "CHR ''/'' \<notin> set (digits n)"
  using digits_chars [of n] by auto

lemma pdf_key_inj: "pdf_key now n = pdf_key now' n' \<Longrightarrow> n = n'"
proof -
  assume "pdf_key now n = pdf_key now' n'"
  then have "digits (year now) @ CHR ''/'' # (n @ ''.pdf'') = digits (year now') @ CHR ''/'' # (n' @ ''.pdf'')"
    by (simp add: pdf_key_def str_int_def)
  then have "n @ ''.pdf'' = n' @ ''.pdf''"
    by (rule split_at_separator) (rule slash_not_digit)+
  then show "n = n'" by simp
qed

lemma get_file_store_pdf_other:
  "key \<noteq> pdf_key now n \<Longrightarrow> get_file (snd (store_pdf st now n x)) key = get_file st key"
  by (simp add: get_file_def store_pdf_def Let_def get_object_put_other)

lemma create_invoice_archive:
  "archive (snd (create_invoice L cfg now d u w)) = archive w
   \<or> (\<exists>x y. archive (snd (create_invoice L cfg now d u w)) =
          snd (store_xml (snd (store_pdf (archive w) now
                 (fst (generate_invoice_number cfg (sequence_rows (database w)))) x))
               now (fst (generate_invoice_number cfg (sequence_rows (database w)))) y))"
  by (auto simp: create_invoice_def Let_def split_def split: sum.splits)

lemma earlier_document_kept:
  assumes path: "path = pdf_key t (INVOICE_NUMBER_PREFIX cfg @ fmt_06d k)"
    and earlier: "k < sequence_current cfg (sequence_rows (database w))"
  shows "get_file (archive (snd (create_invoice L cfg now d u w))) path = get_file (archive w) path
    \<and> k < sequence_current cfg (sequence_rows (database (snd (create_invoice L cfg now d u w))))"
proof
  let ?n = "fst (generate_invoice_number cfg (sequence_rows (database w)))"
  have n: "?n = INVOICE_NUMBER_PREFIX cfg @ fmt_06d (sequence_current cfg (sequence_rows (database w)))"
    by (simp add: generate_invoice_number_result)
  have "INVOICE_NUMBER_PREFIX cfg @ fmt_06d k \<noteq> ?n"
    unfolding n using earlier by (auto dest: fmt_06d_inj)
  then have k1: "path \<noteq> pdf_key now ?n"
    unfolding path by (auto dest: pdf_key_inj)
  have k2: "path \<noteq> xml_key now ?n"
    unfolding path by (rule pdf_key_neq_xml_key)
  from create_invoice_archive [of L cfg now d u w]
  show "get_file (archive (snd (create_invoice L cfg now d u w))) path = get_file (archive w) path"
  proof
    assume "archive (snd (create_invoice L cfg now d u w)) = archive w"
    then show ?thesis by simp
  next
    assume "\<exists>x y. archive (snd (create_invoice L cfg now d u w)) =
          snd (store_xml (snd (store_pdf (archive w) now ?n x)) now ?n y)"
    then obtain x y where "archive (snd (create_invoice L cfg now d u w)) =
          snd (store_xml (snd (store_pdf (archive w) now ?n x)) now ?n y)"
      by auto
    then show ?thesis
      by (simp add: get_file_store_xml_other [OF k2] get_file_store_pdf_other [OF k1])
  qed
  show "k < sequence_current cfg (sequence_rows (database (snd (create_invoice L cfg now d u w))))"
    using earlier by (simp add: number_consumed)
qed

lemma earlier_document_kept_all:
  assumes "path = pdf_key t (INVOICE_NUMBER_PREFIX cfg @ fmt_06d k)"
    and "k < sequence_current cfg (sequence_rows (database w))"
  shows "get_file (archive (issue_all cfg later w)) path = get_file (archive w) path"
  using assms
proof (induction later arbitrary: w)
  case Nil
  show ?case by simp
next
  case (Cons step later)
  obtain L now d u where step: "step = (L, now, d, u)"
    by (cases step) auto
  from earlier_document_kept [OF Cons.prems, of L now d u]
  have same: "get_file (archive (snd (create_invoice L cfg now d u w))) path = get_file (archive w) path"
    and lt: "k < sequence_current cfg (sequence_rows (database (snd (create_invoice L cfg now d u w))))"
    by simp_all
  from Cons.IH [OF Cons.prems(1) lt] same show ?case
    by (simp add: step)
qed

text \<open>
  Claim C8. For every successfully issued invoice the stored \<^verbatim>\<open>pdf_hash\<close> is the digest
  of the final composed document, the bytes \<^verbatim>\<open>sign_pdf\<close> returned and \<^verbatim>\<open>store_pdf\<close>
  wrote. Reading the document back under the stored key \<^verbatim>\<open>pdfa3_path\<close> returns exactly
  these bytes, on the object store and on the local file system alike, right after the
  issuance and after any number of further issuance calls, so the recomputed digest is the
  stored hash.
\<close>

theorem stored_hash_round_trip:
  assumes "fst (create_invoice L cfg now d u w) = Inr row"
  shows "\<exists>xml pdf data.
      issue_pdf L now (invoice_number row) d (calculate_totals (line_items d)) xml = Inr pdf
    \<and> data = fst (sign_pdf L cfg now pdf)
    \<and> archive (snd (create_invoice L cfg now d u w)) =
         snd (store_xml (snd (store_pdf (archive w) now (invoice_number row) data))
                now (invoice_number row) xml)
    \<and> pdf_hash row = sha256_hexdigest L data
    \<and> get_file (archive (snd (create_invoice L cfg now d u w))) (pdfa3_path row) = Inr data
    \<and> get_file (archive (issue_all cfg later (snd (create_invoice L cfg now d u w))))
         (pdfa3_path row) = Inr data
    \<and> sha256_hexdigest L data = pdf_hash row"
proof -
  let ?n = "fst (generate_invoice_number cfg (sequence_rows (database w)))"
  let ?w1 = "snd (create_invoice L cfg now d u w)"
  from create_invoice_Inr [OF assms] obtain xml pdf where
    steps: "issue_xml L ?n d (calculate_totals (line_items d)) = Inr xml"
           "issue_pdf L now ?n d (calculate_totals (line_items d)) xml = Inr pdf"
    by auto
  let ?data = "fst (sign_pdf L cfg now pdf)"
  from create_invoice_success [OF steps, where u = u] assms
  have num: "invoice_number row = ?n"
    and path: "pdfa3_path row = pdf_key now (invoice_number row)"
    and hash: "pdf_hash row = sha256_hexdigest L ?data"
    and arch: "archive ?w1 =
         snd (store_xml (snd (store_pdf (archive w) now (invoice_number row) ?data))
                now (invoice_number row) xml)"
    by auto
  have got: "get_file (archive ?w1) (pdfa3_path row) = Inr ?data"
    unfolding arch path by (rule get_file_after_stores)
  have key: "pdfa3_path row = pdf_key now
      (INVOICE_NUMBER_PREFIX cfg @ fmt_06d (sequence_current cfg (sequence_rows (database w))))"
    unfolding path num by (simp add: generate_invoice_number_result)
  have lt: "sequence_current cfg (sequence_rows (database w))
      < sequence_current cfg (sequence_rows (database ?w1))"
    by (simp add: number_consumed)
  have kept: "get_file (archive (issue_all cfg later ?w1)) (pdfa3_path row) = Inr ?data"
    using earlier_document_kept_all [OF key lt, of later] got by simp
  from steps(2) have pdf: "issue_pdf L now (invoice_number row) d (calculate_totals (line_items d)) xml = Inr pdf"
    unfolding num .
  from pdf arch hash got kept show ?thesis
    by (intro exI [of _ xml] exI [of _ pdf] exI [of _ ?data] conjI) simp_all
qed

theorem stored_hash_round_trip_witness:
  "\<exists>row data.
      fst (create_invoice sample_libs default_settings sample_now sample_request 7 local_world) = Inr row
    \<and> get_file (archive (snd (create_invoice sample_libs default_settings sample_now sample_request 7
          local_world))) (pdfa3_path row) = Inr data
    \<and> get_file (archive (issue_all default_settings [(offline_libs, later_now, sample_request, 8)]
          (snd (create_invoice sample_libs default_settings sample_now sample_request 7 local_world))))
          (pdfa3_path row) = Inr data
    \<and> sha256_hexdigest sample_libs data = pdf_hash row"
proof -
  obtain row where row:
    "fst (create_invoice sample_libs default_settings sample_now sample_request 7 local_world) = Inr row"
    using create_invoice_success [OF sample_run_steps] by blast
  from stored_hash_round_trip [OF row, of "[(offline_libs, later_now, sample_request, 8)]"] row
  show ?thesis by blast
qed

subsection \<open>Cancellation\<close>

lemma find_Some_mem: "find P xs = Some x \<Longrightarrow> P x \<and> x \<in> set xs"
  by (induction xs) (auto split: if_splits)

lemma find_map_replace:
  "find (\<lambda>i. id' i = k) xs = Some x \<Longrightarrow> id' c = k \<Longrightarrow>
   find (\<lambda>i. id' i = k) (map (\<lambda>i. if id' i = k then c else i) xs) = Some c"
  by (induction xs) (auto split: if_splits)

lemma map_replace_unique:
  "distinct (map f xs) \<Longrightarrow> j < length xs \<Longrightarrow> f (xs ! j) = a \<Longrightarrow>
   map (\<lambda>i. if f i = a then y else i) xs = xs[j := y]"
proof (rule nth_equalityI)
  show "length (map (\<lambda>i. if f i = a then y else i) xs) = length (xs[j := y])" by simp
next
  fix n
  assume d: "distinct (map f xs)" and j: "j < length xs" and fa: "f (xs ! j) = a"
    and n: "n < length (map (\<lambda>i. if f i = a then y else i) xs)"
  show "map (\<lambda>i. if f i = a then y else i) xs ! n = xs[j := y] ! n"
  proof (cases "n = j")
    case True
    with j fa show ?thesis by simp
  next
    case False
    from n have n': "n < length xs" by simp
    from d n' j False have "map f xs ! n \<noteq> map f xs ! j"
      using nth_eq_iff_index_eq [of "map f xs" n j] by simp
    with n' j fa have "f (xs ! n) \<noteq> a" by simp
    with n' False show ?thesis by simp
  qed
qed

lemma find_Some_index: "find P xs = Some x \<Longrightarrow> \<exists>j < length xs. xs ! j = x"
  by (metis find_Some_iff)

lemma route_already_cancelled:
  "find (\<lambda>i. id' i = k) (invoices d) = Some invoice \<Longrightarrow> status invoice = ''cancelled'' \<Longrightarrow>
   cancel_invoice_route now k reason u d = (Inl (HTTPException 400 ''Invoice is already cancelled''), d)"
  by (simp add: cancel_invoice_route_def)

lemma route_cancels:
  assumes "find (\<lambda>i. id' i = k) (invoices d) = Some invoice" "status invoice \<noteq> ''cancelled''"
  shows "cancel_invoice_route now k reason u d =
     (Inr \<lparr> message = ''Invoice cancelled successfully'', response_invoice_id = k,
            response_status = ''cancelled'', cancellation_reason = reason \<rparr>,
      d\<lparr> invoices := map (\<lambda>i. if id' i = k then invoice\<lparr> status := ''cancelled'', updated_at := now \<rparr> else i)
                        (invoices d),
         audit_logs := audit_logs d @
           [\<lparr> user_id = u, entity_type = ''invoice'', entity_id = k, action = ''cancel'',
              details = [ (''invoice_number'', JStr (invoice_number invoice)), (''reason'', JStr reason) ],
              timestamp = now \<rparr>] \<rparr>)"
proof -
  from assms(1) have "id' invoice = k" by (auto dest: find_Some_mem)
  with assms show ?thesis
    by (simp add: cancel_invoice_route_def cancel_invoice_def Let_def)
qed

lemma cancel_entries_snoc:
  "cancel_entries (d\<lparr> invoices := rows, audit_logs := audit_logs d @ [a] \<rparr>) k =
     cancel_entries d k
     @ (if entity_type a = ''invoice'' \<and> entity_id a = k \<and> action a = ''cancel'' then [a] else [])"
  by (simp add: cancel_entries_def)

text \<open>
  Claim C6, as the code has it. For an invoice row found by its id (ids are the primary
  key): if its status is already \<^verbatim>\<open>cancelled\<close>, the request is rejected (HTTP 400,
  \<^verbatim>\<open>Invoice is already cancelled\<close>) and the database is unchanged, so no audit entry is
  added. Otherwise the request succeeds; exactly that one row changes, to the same row
  with status \<^verbatim>\<open>cancelled\<close> and \<^verbatim>\<open>updated_at\<close> set to the time of the update, every other
  field (document keys, content hash, totals) as before; exactly one audit entry with
  action \<^verbatim>\<open>cancel\<close> and the supplied reason is appended; and a second request for the same
  invoice is rejected and leaves the database as the first left it, so the two attempts
  add exactly one cancellation entry.
\<close>

theorem cancellation_effect:
  assumes pk: "distinct (map id' (invoices d))"
    and row: "find (\<lambda>i. id' i = k) (invoices d) = Some invoice"
  shows
    "(status invoice = ''cancelled'' \<longrightarrow>
        cancel_invoice_route now k reason u d
          = (Inl (HTTPException 400 ''Invoice is already cancelled''), d))
     \<and> (status invoice \<noteq> ''cancelled'' \<longrightarrow>
          (\<exists>j resp d1.
              j < length (invoices d) \<and> invoices d ! j = invoice
            \<and> cancel_invoice_route now k reason u d = (Inr resp, d1)
            \<and> response_status resp = ''cancelled''
            \<and> invoices d1 = (invoices d)[j := invoice\<lparr> status := ''cancelled'', updated_at := now \<rparr>]
            \<and> audit_logs d1 = audit_logs d @
                 [\<lparr> user_id = u, entity_type = ''invoice'', entity_id = k, action = ''cancel'',
                    details = [ (''invoice_number'', JStr (invoice_number invoice)),
                                (''reason'', JStr reason) ],
                    timestamp = now \<rparr>]
            \<and> sequence_rows d1 = sequence_rows d
            \<and> invoice_line_items d1 = invoice_line_items d
            \<and> cancel_invoice_route now2 k reason2 u2 d1
                 = (Inl (HTTPException 400 ''Invoice is already cancelled''), d1)
            \<and> length (cancel_entries d1 k) = Suc (length (cancel_entries d k))))"
proof (intro conjI impI)
  assume "status invoice = ''cancelled''"
  with row show "cancel_invoice_route now k reason u d
          = (Inl (HTTPException 400 ''Invoice is already cancelled''), d)"
    by (rule route_already_cancelled)
next
  assume open_status: "status invoice \<noteq> ''cancelled''"
  let ?c = "invoice\<lparr> status := ''cancelled'', updated_at := now \<rparr>"
  let ?log = "\<lparr> user_id = u, entity_type = ''invoice'', entity_id = k, action = ''cancel'',
                 details = [ (''invoice_number'', JStr (invoice_number invoice)),
                             (''reason'', JStr reason) ],
                 timestamp = now \<rparr>"
  let ?rows = "map (\<lambda>i. if id' i = k then ?c else i) (invoices d)"
  let ?d1 = "d\<lparr> invoices := ?rows, audit_logs := audit_logs d @ [?log] \<rparr>"
  let ?resp = "\<lparr> message = ''Invoice cancelled successfully'', response_invoice_id = k,
                  response_status = ''cancelled'', cancellation_reason = reason \<rparr>"
  from row have idk: "id' invoice = k"
    by (auto dest: find_Some_mem)
  obtain j where j: "j < length (invoices d)" "invoices d ! j = invoice"
    using find_Some_index [OF row] by auto
  have first: "cancel_invoice_route now k reason u d = (Inr ?resp, ?d1)"
    using row open_status by (rule route_cancels)
  have rows: "?rows = (invoices d)[j := ?c]"
    using pk j idk by (simp add: map_replace_unique)
  have "find (\<lambda>i. id' i = k) (invoices ?d1) = Some ?c"
    using row idk by (simp add: find_map_replace)
  then have second: "cancel_invoice_route now2 k reason2 u2 ?d1
      = (Inl (HTTPException 400 ''Invoice is already cancelled''), ?d1)"
    by (rule route_already_cancelled) simp
  have count: "length (cancel_entries ?d1 k) = Suc (length (cancel_entries d k))"
    by (simp add: cancel_entries_snoc)
  show "\<exists>j resp d1.
              j < length (invoices d) \<and> invoices d ! j = invoice
            \<and> cancel_invoice_route now k reason u d = (Inr resp, d1)
            \<and> response_status resp = ''cancelled''
            \<and> invoices d1 = (invoices d)[j := ?c]
            \<and> audit_logs d1 = audit_logs d @ [?log]
            \<and> sequence_rows d1 = sequence_rows d
            \<and> invoice_line_items d1 = invoice_line_items d
            \<and> cancel_invoice_route now2 k reason2 u2 d1
                 = (Inl (HTTPException 400 ''Invoice is already cancelled''), d1)
            \<and> length (cancel_entries d1 k) = Suc (length (cancel_entries d k))"
  proof (intro exI conjI)
    show "j < length (invoices d)" by (rule j(1))
    show "invoices d ! j = invoice" by (rule j(2))
    show "cancel_invoice_route now k reason u d = (Inr ?resp, ?d1)" by (rule first)
    show "response_status ?resp = ''cancelled''" by simp
    show "invoices ?d1 = (invoices d)[j := ?c]" using rows by simp
    show "audit_logs ?d1 = audit_logs d @ [?log]" by simp
    show "sequence_rows ?d1 = sequence_rows d" by simp
    show "invoice_line_items ?d1 = invoice_line_items d" by simp
    show "cancel_invoice_route now2 k reason2 u2 ?d1
      = (Inl (HTTPException 400 ''Invoice is already cancelled''), ?d1)" by (rule second)
    show "length (cancel_entries ?d1 k) = Suc (length (cancel_entries d k))" by (rule count)
  qed
qed

lemma issued_db_facts:
  "distinct (map id' (invoices issued_db))"
  "find (\<lambda>i. id' i = 1) (invoices issued_db) = Some sample_invoice"
  "status sample_invoice \<noteq> ''cancelled''"
  "cancel_entries issued_db 1 = []"
  by (simp_all add: issued_db_def empty_db_def sample_invoice_def cancel_entries_def)

theorem cancellation_effect_witness:
  "distinct (map id' (invoices issued_db))
   \<and> find (\<lambda>i. id' i = 1) (invoices issued_db) = Some sample_invoice
   \<and> status sample_invoice \<noteq> ''cancelled''
   \<and> (\<exists>resp d1.
        cancel_invoice_route later_now 1 ''Storno'' 7 issued_db = (Inr resp, d1)
      \<and> invoices d1 = [sample_invoice\<lparr> status := ''cancelled'', updated_at := later_now \<rparr>]
      \<and> cancel_invoice_route later_now 1 ''Storno'' 7 d1
           = (Inl (HTTPException 400 ''Invoice is already cancelled''), d1)
      \<and> length (cancel_entries d1 1) = 1)"
proof -
  from cancellation_effect [OF issued_db_facts(1) issued_db_facts(2),
      of later_now "''Storno''" 7 later_now "''Storno''" 7] issued_db_facts(3)
  obtain j resp d1 where
    j: "j < length (invoices issued_db)"
    and first: "cancel_invoice_route later_now 1 ''Storno'' 7 issued_db = (Inr resp, d1)"
    and rows: "invoices d1 = (invoices issued_db)[j := sample_invoice\<lparr> status := ''cancelled'', updated_at := later_now \<rparr>]"
    and second: "cancel_invoice_route later_now 1 ''Storno'' 7 d1
           = (Inl (HTTPException 400 ''Invoice is already cancelled''), d1)"
    and count: "length (cancel_entries d1 1) = Suc (length (cancel_entries issued_db 1))"
    by auto
  from j have "j = 0"
    by (simp add: issued_db_def)
  with rows have rows': "invoices d1 = [sample_invoice\<lparr> status := ''cancelled'', updated_at := later_now \<rparr>]"
    by (simp add: issued_db_def)
  from count have count': "length (cancel_entries d1 1) = 1"
    unfolding issued_db_facts(4) by simp
  from first rows' second count' have "\<exists>resp d1.
        cancel_invoice_route later_now 1 ''Storno'' 7 issued_db = (Inr resp, d1)
      \<and> invoices d1 = [sample_invoice\<lparr> status := ''cancelled'', updated_at := later_now \<rparr>]
      \<and> cancel_invoice_route later_now 1 ''Storno'' 7 d1
           = (Inl (HTTPException 400 ''Invoice is already cancelled''), d1)
      \<and> length (cancel_entries d1 1) = 1"
    by (intro exI conjI)
  with issued_db_facts(1,2,3) show ?thesis
    by (intro conjI)
qed

text \<open>
  The claim as the specification words it fails: cancelling the issued sample row at a
  later time leaves a row that differs from the old one in \<^verbatim>\<open>updated_at\<close> as well as
  in \<^verbatim>\<open>status\<close>.
\<close>

theorem cancellation_changes_updated_at:
  "status sample_invoice = ''issued''
   \<and> invoices (snd (cancel_invoice_route later_now 1 ''Storno'' 7 issued_db))
       = [sample_invoice\<lparr> status := ''cancelled'', updated_at := later_now \<rparr>]
   \<and> invoices (snd (cancel_invoice_route later_now 1 ''Storno'' 7 issued_db))
       \<noteq> [sample_invoice\<lparr> status := ''cancelled'' \<rparr>]
   \<and> updated_at (hd (invoices (snd (cancel_invoice_route later_now 1 ''Storno'' 7 issued_db))))
       \<noteq> updated_at sample_invoice"
proof -
  have run: "invoices (snd (cancel_invoice_route later_now 1 ''Storno'' 7 issued_db))
       = [sample_invoice\<lparr> status := ''cancelled'', updated_at := later_now \<rparr>]"
    using route_cancels [OF issued_db_facts(2) issued_db_facts(3), of later_now "''Storno''" 7]
    by (simp add: issued_db_def sample_invoice_def)
  have time: "later_now \<noteq> updated_at sample_invoice"
    by (simp add: sample_invoice_def later_now_def sample_now_def)
  have "sample_invoice\<lparr> status := ''cancelled'', updated_at := later_now \<rparr>
          \<noteq> sample_invoice\<lparr> status := ''cancelled'' \<rparr>"
  proof
    assume "sample_invoice\<lparr> status := ''cancelled'', updated_at := later_now \<rparr>
          = sample_invoice\<lparr> status := ''cancelled'' \<rparr>"
    then have "updated_at (sample_invoice\<lparr> status := ''cancelled'', updated_at := later_now \<rparr>)
          = updated_at (sample_invoice\<lparr> status := ''cancelled'' \<rparr>)"
      by (rule arg_cong)
    with time show False by simp
  qed
  with run time show ?thesis
    by (simp add: sample_invoice_def)
qed

end
